(* ===== verification/Go_Prelude.thy ===== *)
theory Go_Prelude
  imports Main "HOL-Library.Word" "HOL-Library.Multiset"
begin

text \<open>
  The vocabulary every component shares.

  \<^item> \<open>outcome\<close>: what a Go call gives back. A function with results \<open>(T, error)\<close> returns a
    value (\<open>Ret\<close>), returns a non-nil error (\<open>Fail\<close>), or panics (\<open>Panic\<close>, with the runtime's
    message): a nil dereference is a branch of the model, never an unspecified value.
  \<^item> \<open>prog\<close>: a call that also reads and writes the world (database, object storage, random
    source), as explicit state passing, with its sequencing \<open>bindp\<close> and its loop \<open>mapp\<close>.
  \<^item> \<open>keeps\<close>: a predicate on the world holds after the call, whatever its outcome, if it held
    before; its rules are collected in \<open>keeps_intros\<close>.
  \<^item> Go maps built in a loop (\<open>map_build\<close>), their zero-value lookup (\<open>map_get\<close>) and the
    unspecified order in which \<open>range\<close> visits them (\<open>range_order\<close>).
  \<^item> the fixed-width conversions the program writes as \<open>int32(x)\<close>, \<open>int16(x)\<close> and so on.
  \<^item> the interface \<open>codec\<close>, for a printer and a parser that undoes it.
\<close>

named_theorems prog_simps \<open>unfolding rules of the outcome and program combinators\<close>
named_theorems keeps_intros \<open>rules that show that a program keeps a predicate on the world\<close>

section \<open>Outcomes\<close>

datatype ('e, 'a) outcome = Ret 'a | Fail 'e | Panic string

fun bindo :: "('e, 'a) outcome \<Rightarrow> ('a \<Rightarrow> ('e, 'b) outcome) \<Rightarrow> ('e, 'b) outcome" where
  "bindo (Ret a) f = f a"
| "bindo (Fail e) f = Fail e"
| "bindo (Panic m) f = Panic m"

abbreviation nil_deref :: string where
  "nil_deref \<equiv> ''runtime error: invalid memory address or nil pointer dereference''"

text \<open>\<open>*p\<close> for a pointer \<open>p\<close>: the value it points to, or a panic when it is nil.\<close>

fun deref :: "'a option \<Rightarrow> ('e, 'a) outcome" where
  "deref (Some a) = Ret a"
| "deref None = Panic nil_deref"

fun of_sum :: "'e + 'a \<Rightarrow> ('e, 'a) outcome" where
  "of_sum (Inl e) = Fail e"
| "of_sum (Inr a) = Ret a"

text \<open>
  The loop \<open>for _, x := range xs { y, err := f(x); if err != nil { return err }; ys = append(ys, y) }\<close>.
\<close>

fun mapo :: "('a \<Rightarrow> ('e, 'b) outcome) \<Rightarrow> 'a list \<Rightarrow> ('e, 'b list) outcome" where
  "mapo f [] = Ret []"
| "mapo f (x # xs) = bindo (f x) (\<lambda>y. bindo (mapo f xs) (\<lambda>ys. Ret (y # ys)))"

lemma bindo_Ret_iff [simp]: "bindo m f = Ret b \<longleftrightarrow> (\<exists>a. m = Ret a \<and> f a = Ret b)"
  by (cases m) auto

lemma bindo_Fail_iff: "bindo m f = Fail e \<longleftrightarrow> m = Fail e \<or> (\<exists>a. m = Ret a \<and> f a = Fail e)"
  by (cases m) auto

lemma bindo_Panic_iff: "bindo m f = Panic p \<longleftrightarrow> m = Panic p \<or> (\<exists>a. m = Ret a \<and> f a = Panic p)"
  by (cases m) auto

lemma deref_Ret_iff [simp]: "deref p = Ret a \<longleftrightarrow> p = Some a"
  by (cases p) auto

lemma deref_not_Fail [simp]: "deref p \<noteq> Fail e"
  by (cases p) auto

lemma of_sum_Ret_iff [simp]: "of_sum s = Ret a \<longleftrightarrow> s = Inr a"
  by (cases s) auto

lemma of_sum_not_Panic [simp]: "of_sum s \<noteq> Panic m"
  by (cases s) auto

lemma list_all2_in_right: "list_all2 R xs ys \<Longrightarrow> y \<in> set ys \<Longrightarrow> \<exists>x \<in> set xs. R x y"
  by (induction xs ys rule: list_all2_induct) auto

lemma mapo_Ret_iff: "mapo f xs = Ret ys \<longleftrightarrow> list_all2 (\<lambda>x y. f x = Ret y) xs ys"
  by (induction xs arbitrary: ys) (auto simp: list_all2_Cons1)

lemma mapo_all_Ret: "(\<And>x. x \<in> set xs \<Longrightarrow> f x = Ret (g x)) \<Longrightarrow> mapo f xs = Ret (map g xs)"
  by (induction xs) auto

lemma mapo_no_Fail: "(\<And>x e. x \<in> set xs \<Longrightarrow> f x \<noteq> Fail e) \<Longrightarrow> mapo f xs \<noteq> Fail e"
  by (induction xs) (auto simp: bindo_Fail_iff)

lemma mapo_no_Panic: "(\<And>x p. x \<in> set xs \<Longrightarrow> f x \<noteq> Panic p) \<Longrightarrow> mapo f xs \<noteq> Panic p"
  by (induction xs) (auto simp: bindo_Panic_iff)

lemma mapo_length: "mapo f xs = Ret ys \<Longrightarrow> length ys = length xs"
  by (auto simp: mapo_Ret_iff list_all2_lengthD)

lemma mapo_Panic_first:
  "(\<And>x. x \<in> set xs \<Longrightarrow> \<exists>y. f x = Ret y) \<Longrightarrow> f a = Panic p \<Longrightarrow> mapo f (xs @ a # ys) = Panic p"
proof (induction xs)
  case (Cons x xs)
  then obtain y where "f x = Ret y" by auto
  with Cons show ?case by simp
qed simp

section \<open>Programs over a world\<close>

type_synonym ('s, 'e, 'a) prog = "'s \<Rightarrow> ('e, 'a) outcome \<times> 's"

definition liftp :: "('e, 'a) outcome \<Rightarrow> ('s, 'e, 'a) prog" where
  "liftp r = (\<lambda>s. (r, s))"

definition bindp :: "('s, 'e, 'a) prog \<Rightarrow> ('a \<Rightarrow> ('s, 'e, 'b) prog) \<Rightarrow> ('s, 'e, 'b) prog" where
  "bindp m f = (\<lambda>s. case m s of
      (Ret a, s') \<Rightarrow> f a s'
    | (Fail e, s') \<Rightarrow> (Fail e, s')
    | (Panic p, s') \<Rightarrow> (Panic p, s'))"

fun mapp :: "('a \<Rightarrow> ('s, 'e, 'b) prog) \<Rightarrow> 'a list \<Rightarrow> ('s, 'e, 'b list) prog" where
  "mapp f [] = liftp (Ret [])"
| "mapp f (x # xs) = bindp (f x) (\<lambda>y. bindp (mapp f xs) (\<lambda>ys. liftp (Ret (y # ys))))"

text \<open>\<open>if err != nil { return ..., h(err) }\<close> after a call: the error is wrapped, a panic is not.\<close>

definition on_error :: "('s, 'e, 'a) prog \<Rightarrow> ('e \<Rightarrow> 'e) \<Rightarrow> ('s, 'e, 'a) prog" where
  "on_error m h = (\<lambda>s. case m s of
      (Ret a, s') \<Rightarrow> (Ret a, s')
    | (Fail e, s') \<Rightarrow> (Fail (h e), s')
    | (Panic p, s') \<Rightarrow> (Panic p, s'))"

lemma liftp_apply [simp, prog_simps]: "liftp r s = (r, s)"
  by (simp add: liftp_def)

lemma bindp_apply_simps [simp]:
  "m s = (Ret a, s') \<Longrightarrow> bindp m f s = f a s'"
  "m s = (Fail e, s') \<Longrightarrow> bindp m f s = (Fail e, s')"
  "m s = (Panic p, s') \<Longrightarrow> bindp m f s = (Panic p, s')"
  by (simp_all add: bindp_def)

lemma bindp_Ret_iff:
  "bindp m f s = (Ret b, t) \<longleftrightarrow> (\<exists>a s'. m s = (Ret a, s') \<and> f a s' = (Ret b, t))"
  by (auto simp: bindp_def split: prod.splits outcome.splits)

lemma bindp_liftp [simp]: "bindp (liftp r) f s = (case r of Ret a \<Rightarrow> f a s | Fail e \<Rightarrow> (Fail e, s) | Panic p \<Rightarrow> (Panic p, s))"
  by (cases r) (auto simp: bindp_def)

lemma bindp_assoc: "bindp (bindp m f) g = bindp m (\<lambda>a. bindp (f a) g)"
  by (rule ext) (auto simp: bindp_def split: prod.splits outcome.splits)

lemma on_error_simps [simp]:
  "m s = (Ret a, s') \<Longrightarrow> on_error m h s = (Ret a, s')"
  "m s = (Fail e, s') \<Longrightarrow> on_error m h s = (Fail (h e), s')"
  "m s = (Panic p, s') \<Longrightarrow> on_error m h s = (Panic p, s')"
  by (simp_all add: on_error_def)

lemma on_error_Ret_iff: "on_error m h s = (Ret a, t) \<longleftrightarrow> m s = (Ret a, t)"
  by (auto simp: on_error_def split: prod.splits outcome.splits)

lemma mapp_Ret_length: "mapp f xs s = (Ret ys, t) \<Longrightarrow> length ys = length xs"
  by (induction xs arbitrary: ys s t) (auto simp: bindp_Ret_iff)

lemma bindp_Fail_iff:
  "bindp m f s = (Fail e, t) \<longleftrightarrow> m s = (Fail e, t) \<or> (\<exists>a s'. m s = (Ret a, s') \<and> f a s' = (Fail e, t))"
  by (auto simp: bindp_def split: prod.splits outcome.splits)

lemma bindp_Panic_iff:
  "bindp m f s = (Panic p, t) \<longleftrightarrow> m s = (Panic p, t) \<or> (\<exists>a s'. m s = (Ret a, s') \<and> f a s' = (Panic p, t))"
  by (auto simp: bindp_def split: prod.splits outcome.splits)

lemma on_error_Fail_iff: "on_error m h s = (Fail e, t) \<longleftrightarrow> (\<exists>e'. m s = (Fail e', t) \<and> e = h e')"
  by (auto simp: on_error_def split: prod.splits outcome.splits)

lemma on_error_Panic_iff: "on_error m h s = (Panic p, t) \<longleftrightarrow> m s = (Panic p, t)"
  by (auto simp: on_error_def split: prod.splits outcome.splits)

lemma liftp_iff: "liftp r s = (r', t) \<longleftrightarrow> r' = r \<and> t = s"
  by auto

text \<open>What every iteration of a loop gives, whatever the world it starts from.\<close>

lemma mapp_Ret_all2:
  assumes "mapp f xs s = (Ret ys, t)" and "\<And>x y s s'. x \<in> set xs \<Longrightarrow> f x s = (Ret y, s') \<Longrightarrow> R x y"
  shows "list_all2 R xs ys"
  using assms by (induction xs arbitrary: ys s t) (auto simp: bindp_Ret_iff)

lemma mapp_not_Panic:
  assumes "\<And>x s p s'. x \<in> set xs \<Longrightarrow> f x s \<noteq> (Panic p, s')"
  shows "mapp f xs s \<noteq> (Panic p, t)"
  using assms by (induction xs arbitrary: s t) (auto simp: bindp_Panic_iff)

section \<open>Keeping a predicate on the world\<close>

definition keeps :: "('s \<Rightarrow> bool) \<Rightarrow> ('s, 'e, 'a) prog \<Rightarrow> bool" where
  "keeps I m \<longleftrightarrow> (\<forall>s. I s \<longrightarrow> I (snd (m s)))"

lemma keepsI: "(\<And>s. I s \<Longrightarrow> I (snd (m s))) \<Longrightarrow> keeps I m"
  by (simp add: keeps_def)

lemma keepsD: "keeps I m \<Longrightarrow> I s \<Longrightarrow> m s = (r, t) \<Longrightarrow> I t"
  by (metis keeps_def snd_conv)

lemma keeps_liftp [keeps_intros]: "keeps I (liftp r)"
  by (simp add: keeps_def)

lemma keeps_bindp [keeps_intros]:
  assumes "keeps I m" and "\<And>a. keeps I (f a)"
  shows "keeps I (bindp m f)"
proof (rule keepsI)
  fix s assume "I s"
  obtain r t where mt: "m s = (r, t)" by (cases "m s")
  with assms(1) \<open>I s\<close> have "I t" by (blast intro: keepsD)
  with mt assms(2) show "I (snd (bindp m f s))"
    by (cases r) (auto simp: keeps_def)
qed

lemma keeps_on_error [keeps_intros]:
  assumes "keeps I m"
  shows "keeps I (on_error m h)"
proof (rule keepsI)
  fix s assume "I s"
  obtain r t where mt: "m s = (r, t)" by (cases "m s")
  with assms \<open>I s\<close> have "I t" by (blast intro: keepsD)
  with mt show "I (snd (on_error m h s))" by (cases r) auto
qed

lemma keeps_mapp [keeps_intros]: "(\<And>x. keeps I (f x)) \<Longrightarrow> keeps I (mapp f xs)"
  by (induction xs) (auto intro!: keeps_intros)

section \<open>Go maps\<close>

text \<open>
  A map filled by \<open>for _, x := range xs { m[k(x)] = v(x) }\<close>: a later entry overwrites an earlier
  one with the same key.
\<close>

definition map_build :: "('a \<Rightarrow> 'k) \<Rightarrow> ('a \<Rightarrow> 'v) \<Rightarrow> 'a list \<Rightarrow> ('k \<rightharpoonup> 'v)" where
  "map_build k v xs = foldl (\<lambda>m x. m(k x \<mapsto> v x)) Map.empty xs"

text \<open>\<open>m[k]\<close>: the stored value, or the zero value of the element type.\<close>

definition map_get :: "'v \<Rightarrow> ('k \<rightharpoonup> 'v) \<Rightarrow> 'k \<Rightarrow> 'v" where
  "map_get zero m k = (case m k of None \<Rightarrow> zero | Some v \<Rightarrow> v)"

text \<open>
  \<open>range m\<close> visits each key of \<open>m\<close> once, in an order the language leaves open: any list that
  passes \<open>range_order\<close> is a possible order.
\<close>

definition range_order :: "('k \<rightharpoonup> 'v) \<Rightarrow> 'k list \<Rightarrow> bool" where
  "range_order m ks \<longleftrightarrow> distinct ks \<and> set ks = dom m"

lemma map_build_snoc: "map_build k v (xs @ [x]) = (map_build k v xs)(k x \<mapsto> v x)"
  by (simp add: map_build_def)

lemma map_build_Nil [simp]: "map_build k v [] = Map.empty"
  by (simp add: map_build_def)

lemma dom_map_build: "dom (map_build k v xs) = k ` set xs"
proof (induction xs rule: rev_induct)
  case (snoc x xs)
  then show ?case by (simp only: map_build_snoc dom_fun_upd) simp
qed simp

lemma map_build_None_iff: "map_build k v xs a = None \<longleftrightarrow> a \<notin> k ` set xs"
  by (simp only: dom_map_build [of k v xs, symmetric] domIff not_not)

lemma map_build_SomeD: "map_build k v xs a = Some b \<Longrightarrow> \<exists>x \<in> set xs. k x = a \<and> v x = b"
  by (induction xs rule: rev_induct) (auto simp: map_build_snoc split: if_splits)

lemma map_build_distinct:
  assumes "distinct (map k xs)" and "x \<in> set xs"
  shows "map_build k v xs (k x) = Some (v x)"
  using assms by (induction xs rule: rev_induct) (auto simp: map_build_snoc image_iff)

lemma map_get_Some [simp]: "m k = Some v \<Longrightarrow> map_get z m k = v"
  by (simp add: map_get_def)

lemma map_get_None [simp]: "m k = None \<Longrightarrow> map_get z m k = z"
  by (simp add: map_get_def)

lemma range_order_mset:
  assumes "range_order (map_build k v xs) ks" and "distinct (map k xs)"
  shows "mset ks = mset (map k xs)"
proof -
  have "set ks = set (map k xs)" and "distinct ks"
    using assms(1) by (simp_all add: range_order_def dom_map_build)
  with assms(2) show ?thesis by (metis set_eq_iff_mset_eq_distinct)
qed

section \<open>Fixed-width integers\<close>

type_synonym int16 = "16 word"
type_synonym int32 = "32 word"
type_synonym uint32 = "32 word"
type_synonym goint = "64 word"
type_synonym gouint = "64 word"
type_synonym uint64 = "64 word"

text \<open>
  Go's integer conversions keep the low bits when they narrow and repeat the sign bit when they
  widen a signed type.
\<close>

definition int32_of_uint :: "gouint \<Rightarrow> int32" where
  "int32_of_uint x = ucast x"

definition int_of_int32 :: "int32 \<Rightarrow> goint" where
  "int_of_int32 x = scast x"

definition int32_of_int :: "goint \<Rightarrow> int32" where
  "int32_of_int x = ucast x"

definition int32_of_int16 :: "int16 \<Rightarrow> int32" where
  "int32_of_int16 x = scast x"

definition int16_of_int32 :: "int32 \<Rightarrow> int16" where
  "int16_of_int32 x = ucast x"

lemma int32_of_int_of_int32 [simp]: "int32_of_int (int_of_int32 x) = x"
  by (rule bit_word_eqI) (simp add: int32_of_int_def int_of_int32_def bit_ucast_iff bit_signed_iff)

lemma int16_of_int32_of_int16 [simp]: "int16_of_int32 (int32_of_int16 x) = x"
  by (rule bit_word_eqI) (simp add: int16_of_int32_def int32_of_int16_def bit_ucast_iff bit_signed_iff)

section \<open>The interface of a printer and its parser\<close>

text \<open>
  \<open>valid x\<close> says which values the printer accepts; the law is that the parser reads back what was
  printed.
\<close>

locale codec =
  fixes valid :: "'a \<Rightarrow> bool"
    and print :: "'a \<Rightarrow> string"
    and parse :: "string \<Rightarrow> 'e + 'a"
  assumes parse_print: "valid x \<Longrightarrow> parse (print x) = Inr x"
begin

lemma print_inj: "valid x \<Longrightarrow> valid y \<Longrightarrow> print x = print y \<Longrightarrow> x = y"
  by (metis parse_print sum.inject(2))

lemma inj_on_print: "inj_on print {x. valid x}"
  by (rule inj_onI) (auto intro: print_inj)

lemma parse_print_list: "(\<And>x. x \<in> set xs \<Longrightarrow> valid x) \<Longrightarrow> mapo (\<lambda>x. of_sum (parse (print x))) xs = Ret xs"
  by (induction xs) (auto simp: parse_print)

lemma print_distinct: "distinct xs \<Longrightarrow> (\<And>x. x \<in> set xs \<Longrightarrow> valid x) \<Longrightarrow> distinct (map print xs)"
  using inj_on_print by (auto simp: distinct_map inj_on_def)

end

end
