(* ===== verification/Go_Strings.thy ===== *)
theory Go_Strings
  imports Go_Prelude
begin

text \<open>
  What the program uses of Go's string libraries. A Go string is its bytes, so \<open>string\<close> (a list of
  8-bit \<open>char\<close>) counts what \<open>len\<close> counts; \<open>rune_count\<close> counts code points, as the message rules and
  PostgreSQL's \<open>varchar(n)\<close> do.

  \<^item> \<open>strconv\<close>: \<open>itoa\<close>, \<open>atoi\<close> (64-bit \<open>int\<close>), with the round trip.
  \<^item> \<open>encoding/hex\<close>: \<open>hex_decode\<close>, \<open>hex_encode\<close>; what is encoded again is the decoded text in lower
    case.
  \<^item> \<open>encoding/base64\<close>: \<open>b64_encode\<close> (\<open>StdEncoding\<close>) and its inverse \<open>b64_decode\<close>.
  \<^item> \<open>strings.Join\<close>, and \<open>strings.EqualFold\<close> for letters whose only case variants are ASCII.
\<close>

type_synonym bytes = "8 word list"

section \<open>strconv\<close>

datatype num_error = ErrSyntax | ErrRange

definition digit_char :: "nat \<Rightarrow> char" where
  "digit_char d = char_of (48 + d)"

definition digit_val :: "char \<Rightarrow> nat option" where
  "digit_val c = (let n = (of_char c :: nat) in if 48 \<le> n \<and> n \<le> 57 then Some (n - 48) else None)"

fun nat_digits :: "nat \<Rightarrow> string" where
  "nat_digits n = (if n < 10 then [digit_char n] else nat_digits (n div 10) @ [digit_char (n mod 10)])"

declare nat_digits.simps [simp del]

definition itoa :: "int \<Rightarrow> string" where
  "itoa i = (if i < 0 then CHR ''-'' # nat_digits (nat (- i)) else nat_digits (nat i))"

text \<open>The digit loop of \<open>ParseUint\<close> (base 10, 64 bits): it stops at the first bad or overflowing digit.\<close>

fun parse_uint :: "nat \<Rightarrow> string \<Rightarrow> num_error + nat" where
  "parse_uint acc [] = Inr acc"
| "parse_uint acc (c # cs) = (case digit_val c of
      None \<Rightarrow> Inl ErrSyntax
    | Some d \<Rightarrow> if 18446744073709551615 < 10 * acc + d then Inl ErrRange else parse_uint (10 * acc + d) cs)"

definition atoi :: "string \<Rightarrow> num_error + int" where
  "atoi s =
     (let (neg, ds) = (case s of
            [] \<Rightarrow> (False, [])
          | c # cs \<Rightarrow> if c = CHR ''-'' then (True, cs) else if c = CHR ''+'' then (False, cs) else (False, s))
      in if ds = [] then Inl ErrSyntax
         else case parse_uint 0 ds of
           Inl e \<Rightarrow> Inl e
         | Inr un \<Rightarrow> if \<not> neg \<and> 2 ^ 63 \<le> un then Inl ErrRange
                     else if neg \<and> 2 ^ 63 < un then Inl ErrRange
                     else Inr (if neg then - int un else int un))"

lemma digit_val_digit_char [simp]: "d < 10 \<Longrightarrow> digit_val (digit_char d) = Some d"
  by (simp add: digit_val_def digit_char_def)

fun dec_value :: "nat \<Rightarrow> string \<Rightarrow> nat" where
  "dec_value acc [] = acc"
| "dec_value acc (c # cs) = dec_value (10 * acc + the (digit_val c)) cs"

lemma dec_value_ge: "acc \<le> dec_value acc cs"
proof (induction cs arbitrary: acc)
  case (Cons c cs)
  have "acc \<le> 10 * acc + the (digit_val c)" by simp
  also have "\<dots> \<le> dec_value (10 * acc + the (digit_val c)) cs" by (rule Cons.IH)
  finally show ?case by simp
qed simp

lemma dec_value_append: "dec_value acc (xs @ ys) = dec_value (dec_value acc xs) ys"
  by (induction xs arbitrary: acc) auto

lemma parse_uint_dec_value:
  assumes "\<forall>c \<in> set cs. digit_val c \<noteq> None" and "dec_value acc cs \<le> 18446744073709551615"
  shows "parse_uint acc cs = Inr (dec_value acc cs)"
  using assms
proof (induction cs arbitrary: acc)
  case (Cons c cs)
  then obtain d where d: "digit_val c = Some d" by auto
  with Cons.prems dec_value_ge [of "10 * acc + d" cs] have "10 * acc + d \<le> 18446744073709551615"
    by simp
  with Cons d show ?case by simp
qed simp

lemma nat_digits_digits: "\<forall>c \<in> set (nat_digits n). digit_val c \<noteq> None"
  by (induction n rule: nat_digits.induct) (subst nat_digits.simps, auto)

lemma nat_digits_value: "dec_value 0 (nat_digits n) = n"
proof (induction n rule: nat_digits.induct)
  case (1 n)
  then show ?case by (subst nat_digits.simps) (auto simp: dec_value_append)
qed

lemma nat_digits_not_Nil [simp]: "nat_digits n \<noteq> []"
  by (subst nat_digits.simps) simp

lemma parse_uint_nat_digits: "n < 2 ^ 64 \<Longrightarrow> parse_uint 0 (nat_digits n) = Inr n"
  using parse_uint_dec_value [of "nat_digits n" 0] by (simp add: nat_digits_digits nat_digits_value)

lemma nat_digits_hd: "digit_val (hd (nat_digits n)) \<noteq> None"
  using nat_digits_digits [of n] by (metis hd_in_set nat_digits_not_Nil)

lemma nat_digits_Cons:
  obtains c cs where "nat_digits n = c # cs" and "c \<noteq> CHR ''-''" and "c \<noteq> CHR ''+''"
proof -
  obtain c cs where eq: "nat_digits n = c # cs" by (cases "nat_digits n") auto
  have "digit_val c \<noteq> None" using nat_digits_hd [of n] eq by simp
  then have "c \<noteq> CHR ''-''" and "c \<noteq> CHR ''+''" by (auto simp: digit_val_def)
  with eq show thesis by (rule that)
qed

definition fits_int64 :: "int \<Rightarrow> bool" where
  "fits_int64 i \<longleftrightarrow> - (2 ^ 63) \<le> i \<and> i < 2 ^ 63"

lemma atoi_itoa: "fits_int64 i \<Longrightarrow> atoi (itoa i) = Inr i"
proof (cases "i < 0")
  case True
  assume "fits_int64 i"
  with True have "nat (- i) \<le> 2 ^ 63" and "nat (- i) < 2 ^ 64" by (simp_all add: fits_int64_def)
  with True show ?thesis
    by (simp add: atoi_def itoa_def parse_uint_nat_digits)
next
  case False
  assume "fits_int64 i"
  with False have b: "nat i < 2 ^ 63" and "nat i < 2 ^ 64" by (simp_all add: fits_int64_def)
  then have p: "parse_uint 0 (nat_digits (nat i)) = Inr (nat i)" by (simp add: parse_uint_nat_digits)
  obtain c cs where eq: "nat_digits (nat i) = c # cs" and "c \<noteq> CHR ''-''" and "c \<noteq> CHR ''+''"
    by (rule nat_digits_Cons)
  with p b False show ?thesis by (simp add: atoi_def itoa_def)
qed

interpretation itoa_codec: codec fits_int64 itoa atoi
  by unfold_locales (rule atoi_itoa)

lemma fits_int64_sint32: "fits_int64 (sint (x :: int32))"
  using sint_range_size [of x] by (simp add: fits_int64_def word_size)

lemma fits_int64_sint64: "fits_int64 (sint (x :: goint))"
  using sint_range_size [of x] by (simp add: fits_int64_def word_size)

section \<open>encoding/hex\<close>

datatype hex_error = InvalidByteError char | ErrLength

definition hex_val :: "char \<Rightarrow> nat option" where
  "hex_val c = (let n = (of_char c :: nat) in
      if 48 \<le> n \<and> n \<le> 57 then Some (n - 48)
      else if 97 \<le> n \<and> n \<le> 102 then Some (n - 87)
      else if 65 \<le> n \<and> n \<le> 70 then Some (n - 55)
      else None)"

definition hex_digit :: "nat \<Rightarrow> char" where
  "hex_digit d = (if d < 10 then char_of (48 + d) else char_of (87 + d))"

definition hex_byte :: "nat \<Rightarrow> nat \<Rightarrow> 8 word" where
  "hex_byte h l = word_of_nat (16 * h + l)"

fun hex_decode :: "string \<Rightarrow> hex_error + bytes" where
  "hex_decode [] = Inr []"
| "hex_decode [c] = (case hex_val c of None \<Rightarrow> Inl (InvalidByteError c) | Some _ \<Rightarrow> Inl ErrLength)"
| "hex_decode (c # d # s) = (case hex_val c of
      None \<Rightarrow> Inl (InvalidByteError c)
    | Some h \<Rightarrow> (case hex_val d of
        None \<Rightarrow> Inl (InvalidByteError d)
      | Some l \<Rightarrow> (case hex_decode s of
          Inl e \<Rightarrow> Inl e
        | Inr bs \<Rightarrow> Inr (hex_byte h l # bs))))"

fun hex_encode :: "bytes \<Rightarrow> string" where
  "hex_encode [] = []"
| "hex_encode (b # bs) = hex_digit (unat b div 16) # hex_digit (unat b mod 16) # hex_encode bs"

definition ascii_lower :: "char \<Rightarrow> char" where
  "ascii_lower c = (let n = (of_char c :: nat) in if 65 \<le> n \<and> n \<le> 90 then char_of (n + 32) else c)"

definition lower_hex :: "string \<Rightarrow> bool" where
  "lower_hex s \<longleftrightarrow> (\<forall>c \<in> set s. hex_val c \<noteq> None \<and> ascii_lower c = c)"

lemma hex_val_hex_digit [simp]: "d < 16 \<Longrightarrow> hex_val (hex_digit d) = Some d"
  by (simp add: hex_val_def hex_digit_def)

lemma hex_val_bound: "hex_val c = Some d \<Longrightarrow> d < 16"
  by (auto simp: hex_val_def Let_def split: if_splits)

lemma hex_digit_hex_val:
  assumes "hex_val c = Some d"
  shows "hex_digit d = ascii_lower c"
proof -
  have c: "c = char_of (of_char c :: nat)" by simp
  have "(of_char c :: nat) < 256" by simp
  with assms show ?thesis
    by (auto simp: hex_val_def hex_digit_def ascii_lower_def Let_def split: if_splits)
qed

lemma unat_hex_byte: "h < 16 \<Longrightarrow> l < 16 \<Longrightarrow> unat (hex_byte h l) = 16 * h + l"
  unfolding hex_byte_def by (subst unat_of_nat) simp

lemma unat_byte_less: "unat (b :: 8 word) < 256"
  using unsigned_less [of b] by simp

lemma hex_byte_div_mod: "hex_byte (unat b div 16) (unat b mod 16) = b"
  by (simp add: hex_byte_def)

lemma hex_decode_encode: "hex_decode (hex_encode bs) = Inr bs"
proof (induction bs)
  case (Cons b bs)
  have "unat b < 256" by (rule unat_byte_less)
  then have "unat b div 16 < 16" by simp
  with Cons show ?case by (simp add: hex_byte_div_mod del: div_mult_mod_eq)
qed simp

interpretation hex_codec: codec "\<lambda>_. True" hex_encode hex_decode
  by unfold_locales (rule hex_decode_encode)

lemma hex_encode_decode: "hex_decode s = Inr bs \<Longrightarrow> hex_encode bs = map ascii_lower s"
proof (induction s arbitrary: bs rule: hex_decode.induct)
  case (3 c d s)
  then obtain h l bs' where "hex_val c = Some h" "hex_val d = Some l" "hex_decode s = Inr bs'"
    and "bs = hex_byte h l # bs'"
    by (auto split: option.splits sum.splits)
  moreover from this have "h < 16" "l < 16" by (auto dest: hex_val_bound)
  ultimately show ?case
    using "3.IH" by (simp add: unat_hex_byte hex_digit_hex_val)
qed (auto split: option.splits)

lemma hex_encode_decode_lower: "lower_hex s \<Longrightarrow> hex_decode s = Inr bs \<Longrightarrow> hex_encode bs = s"
  by (simp add: hex_encode_decode lower_hex_def map_idI)

lemma hex_decode_ok:
  "even (length s) \<Longrightarrow> (\<forall>c \<in> set s. hex_val c \<noteq> None) \<Longrightarrow> \<exists>bs. hex_decode s = Inr bs"
proof (induction s rule: hex_decode.induct)
  case (3 c d s)
  then obtain h l where "hex_val c = Some h" and "hex_val d = Some l" by auto
  with 3 show ?case by fastforce
qed auto

lemma hex_decode_length: "hex_decode s = Inr bs \<Longrightarrow> length s = 2 * length bs"
  by (induction s arbitrary: bs rule: hex_decode.induct) (auto split: option.splits sum.splits)

lemma lower_hex_encode: "lower_hex (hex_encode bs)"
proof -
  have "hex_val (hex_digit d) \<noteq> None \<and> ascii_lower (hex_digit d) = hex_digit d" if "d < 16" for d
    using that by (auto simp: hex_digit_def ascii_lower_def hex_val_def)
  moreover have "unat (b :: 8 word) div 16 < 16" for b
    using unat_byte_less [of b] by simp
  ultimately show ?thesis
    by (induction bs) (simp_all add: lower_hex_def)
qed

section \<open>encoding/base64\<close>

definition b64_alphabet :: string where
  "b64_alphabet = ''ABCDEFGHIJKLMNOPQRSTUVWXYZabcdefghijklmnopqrstuvwxyz0123456789+/''"

definition b64_char :: "nat \<Rightarrow> char" where
  "b64_char n = b64_alphabet ! (n mod 64)"

fun b64_encode :: "bytes \<Rightarrow> string" where
  "b64_encode [] = []"
| "b64_encode [a] = (let n = unat a * 65536
     in [b64_char (n div 262144), b64_char (n div 4096), CHR ''='', CHR ''=''])"
| "b64_encode [a, b] = (let n = unat a * 65536 + unat b * 256
     in [b64_char (n div 262144), b64_char (n div 4096), b64_char (n div 64), CHR ''=''])"
| "b64_encode (a # b # c # bs) = (let n = unat a * 65536 + unat b * 256 + unat c
     in b64_char (n div 262144) # b64_char (n div 4096) # b64_char (n div 64) # b64_char n # b64_encode bs)"

lemma b64_length: "length (b64_encode bs) = 4 * ((length bs + 2) div 3)"
proof (induction bs rule: b64_encode.induct)
  case (4 a b c bs)
  have "(5 + length bs) div 3 = Suc ((2 + length bs) div 3)"
    using div_add_self2 [of 3 "2 + length bs"] by simp
  with 4 show ?case by (simp add: Let_def)
qed (simp_all add: Let_def)

section \<open>strings, unicode/utf8\<close>

fun join :: "string \<Rightarrow> string list \<Rightarrow> string" where
  "join sep [] = []"
| "join sep [s] = s"
| "join sep (s # t # ss) = s @ sep @ join sep (t # ss)"

definition equal_fold :: "string \<Rightarrow> string \<Rightarrow> bool" where
  "equal_fold s t \<longleftrightarrow> map ascii_lower s = map ascii_lower t"

text \<open>Code points of a valid UTF-8 string: the bytes that do not continue one.\<close>

definition utf8_cont :: "char \<Rightarrow> bool" where
  "utf8_cont c \<longleftrightarrow> (let n = (of_char c :: nat) in 128 \<le> n \<and> n < 192)"

definition rune_count :: "string \<Rightarrow> nat" where
  "rune_count s = length (filter (\<lambda>c. \<not> utf8_cont c) s)"

text \<open>The longest prefix with at most \<open>n\<close> code points.\<close>

fun take_runes :: "nat \<Rightarrow> string \<Rightarrow> string" where
  "take_runes n [] = []"
| "take_runes n (c # s) =
     (if utf8_cont c then c # take_runes n s
      else case n of 0 \<Rightarrow> [] | Suc m \<Rightarrow> c # take_runes m s)"

lemma take_runes_all: "rune_count s \<le> n \<Longrightarrow> take_runes n s = s"
  by (induction n s rule: take_runes.induct) (auto simp: rune_count_def split: nat.splits if_splits)

lemma rune_count_le_length: "rune_count s \<le> length s"
  by (simp add: rune_count_def)

lemma rune_count_ascii: "(\<forall>c \<in> set s. (of_char c :: nat) < 128) \<Longrightarrow> rune_count s = length s"
  by (induction s) (auto simp: rune_count_def utf8_cont_def)

lemma hex_val_ascii: "hex_val c \<noteq> None \<Longrightarrow> (of_char c :: nat) < 128"
  by (auto simp: hex_val_def Let_def split: if_splits)

end
