(* ===== verification/Go_Uuid.thy ===== *)
theory Go_Uuid
  imports Go_Strings
begin

unbundle bit_operations_syntax

text \<open>
  The vendored package \<open>github.com/google/uuid\<close>, as far as the program calls it: \<open>Parse\<close>,
  \<open>MustParse\<close>, \<open>String\<close> (with \<open>encodeHex\<close>) and the random version-4 constructor. A \<open>UUID\<close> is a
  16-byte array; here it is a byte list, and \<open>valid_uuid\<close> says it has 16 bytes.
  The lemmas show that \<open>Parse\<close> reads back what \<open>String\<close> prints, so \<open>MustParse\<close> of a printed
  \<open>UUID\<close> does not panic.
\<close>

type_synonym uuid = bytes

definition valid_uuid :: "uuid \<Rightarrow> bool" where
  "valid_uuid u \<longleftrightarrow> length u = 16"

definition uuid_Nil :: uuid where
  "uuid_Nil = replicate 16 0"

datatype uuid_error = InvalidUrnPrefix string | InvalidFormat | InvalidLength nat

text \<open>The table \<open>xvalues\<close> holds the value of a hexadecimal digit, and 255 for any other byte.\<close>

definition xvalues :: "char \<Rightarrow> 8 word" where
  "xvalues c = (case hex_val c of None \<Rightarrow> 255 | Some d \<Rightarrow> word_of_nat d)"

definition xtob :: "char \<Rightarrow> char \<Rightarrow> 8 word \<times> bool" where
  "xtob x1 x2 = (let b1 = xvalues x1; b2 = xvalues x2
     in (push_bit 4 b1 OR b2, b1 \<noteq> 255 \<and> b2 \<noteq> 255))"

fun parse_pairs :: "string \<Rightarrow> nat list \<Rightarrow> uuid_error + uuid" where
  "parse_pairs s [] = Inr []"
| "parse_pairs s (x # xs) =
     (let (v, ok) = xtob (s ! x) (s ! (x + 1))
      in if \<not> ok then Inl InvalidFormat
         else case parse_pairs s xs of Inl e \<Rightarrow> Inl e | Inr vs \<Rightarrow> Inr (v # vs))"

definition parse_dashed :: "string \<Rightarrow> uuid_error + uuid" where
  "parse_dashed s =
     (if s ! 8 \<noteq> CHR ''-'' \<or> s ! 13 \<noteq> CHR ''-'' \<or> s ! 18 \<noteq> CHR ''-'' \<or> s ! 23 \<noteq> CHR ''-''
      then Inl InvalidFormat
      else parse_pairs s [0, 2, 4, 6, 9, 11, 14, 16, 19, 21, 24, 26, 28, 30, 32, 34])"

definition uuid_Parse :: "string \<Rightarrow> uuid_error + uuid" where
  "uuid_Parse s =
     (if length s = 36 then parse_dashed s
      else if length s = 36 + 9 then
        (if \<not> equal_fold (take 9 s) ''urn:uuid:'' then Inl (InvalidUrnPrefix (take 9 s))
         else parse_dashed (drop 9 s))
      else if length s = 36 + 2 then parse_dashed (drop 1 s)
      else if length s = 32 then parse_pairs s (map (\<lambda>i. i * 2) [0..<16])
      else Inl (InvalidLength (length s)))"

definition encodeHex :: "uuid \<Rightarrow> string" where
  "encodeHex u =
     hex_encode (take 4 u) @ ''-'' @ hex_encode (take 2 (drop 4 u)) @ ''-'' @
     hex_encode (take 2 (drop 6 u)) @ ''-'' @ hex_encode (take 2 (drop 8 u)) @ ''-'' @
     hex_encode (drop 10 u)"

definition uuid_String :: "uuid \<Rightarrow> string" where
  "uuid_String u = encodeHex u"

fun uuid_error_text :: "uuid_error \<Rightarrow> string" where
  "uuid_error_text (InvalidUrnPrefix p) = ''invalid urn prefix: '' @ [CHR 34] @ p @ [CHR 34]"
| "uuid_error_text InvalidFormat = ''invalid UUID format''"
| "uuid_error_text (InvalidLength n) = ''invalid UUID length: '' @ itoa (int n)"

definition uuid_MustParse :: "string \<Rightarrow> ('e, uuid) outcome" where
  "uuid_MustParse s = (case uuid_Parse s of
      Inl e \<Rightarrow> Panic (''uuid: Parse('' @ s @ ''): '' @ uuid_error_text e)
    | Inr u \<Rightarrow> Ret u)"

text \<open>\<open>NewRandom\<close> on the 16 bytes read from the random source: version 4, variant 10.\<close>

definition uuid_of_random :: "bytes \<Rightarrow> uuid" where
  "uuid_of_random r = r[6 := (r ! 6 AND 0x0f) OR 0x40, 8 := (r ! 8 AND 0x3f) OR 0x80]"

section \<open>Printing and parsing\<close>

lemma length_hex_encode [simp]: "length (hex_encode bs) = 2 * length bs"
  by (induction bs) auto

lemma length_uuid_String: "valid_uuid u \<Longrightarrow> length (uuid_String u) = 36"
  by (simp add: uuid_String_def encodeHex_def valid_uuid_def)

lemma valid_uuid_cases:
  assumes "valid_uuid u"
  obtains b0 b1 b2 b3 b4 b5 b6 b7 b8 b9 b10 b11 b12 b13 b14 b15
  where "u = [b0, b1, b2, b3, b4, b5, b6, b7, b8, b9, b10, b11, b12, b13, b14, b15]"
  using assms unfolding valid_uuid_def by (auto simp: numeral_eq_Suc length_Suc_conv)

lemma xvalues_hex_digit: "d < 16 \<Longrightarrow> xvalues (hex_digit d) = word_of_nat d"
  by (simp add: xvalues_def)

lemma word_nibble_not_255: "d < 16 \<Longrightarrow> (word_of_nat d :: 8 word) \<noteq> 255"
proof
  assume "d < 16" and eq: "(word_of_nat d :: 8 word) = 255"
  have "unat (word_of_nat d :: 8 word) = d"
    using \<open>d < 16\<close> by (subst unat_of_nat) simp
  with eq \<open>d < 16\<close> show False by simp
qed

lemma nibbles_or:
  assumes "h < 16" and "l < 16"
  shows "push_bit 4 (word_of_nat h) OR word_of_nat l = hex_byte h l"
proof -
  have "(\<forall>h < 16. \<forall>l < 16. push_bit 4 (word_of_nat h) OR word_of_nat l = hex_byte h l)"
    unfolding hex_byte_def by (simp add: numeral_eq_Suc All_less_Suc)
  with assms show ?thesis by blast
qed

lemma xtob_digits [simp]:
  "xtob (hex_digit (unat b div 16)) (hex_digit (unat b mod 16)) = (b, True)"
proof -
  have "unat b div 16 < 16" using unat_byte_less [of b] by simp
  moreover have "unat b mod 16 < 16" by simp
  ultimately show ?thesis
    by (simp add: xtob_def Let_def xvalues_hex_digit word_nibble_not_255 nibbles_or hex_byte_div_mod
        del: div_mult_mod_eq)
qed

lemma uuid_Parse_String:
  assumes "valid_uuid u"
  shows "uuid_Parse (uuid_String u) = Inr u"
proof -
  have len: "length (uuid_String u) = 36" using assms by (rule length_uuid_String)
  from assms obtain b0 b1 b2 b3 b4 b5 b6 b7 b8 b9 b10 b11 b12 b13 b14 b15
    where u: "u = [b0, b1, b2, b3, b4, b5, b6, b7, b8, b9, b10, b11, b12, b13, b14, b15]"
    by (rule valid_uuid_cases)
  have "parse_dashed (uuid_String u) = Inr u"
    unfolding u by (simp add: uuid_String_def encodeHex_def parse_dashed_def)
  with len show ?thesis by (simp add: uuid_Parse_def)
qed

interpretation uuid_codec: codec valid_uuid uuid_String uuid_Parse
  by unfold_locales (rule uuid_Parse_String)

lemma uuid_MustParse_String: "valid_uuid u \<Longrightarrow> uuid_MustParse (uuid_String u) = Ret u"
  by (simp add: uuid_MustParse_def uuid_Parse_String)

lemma parse_pairs_length: "parse_pairs s xs = Inr u \<Longrightarrow> length u = length xs"
  by (induction xs arbitrary: u) (auto simp: Let_def split: prod.splits if_splits sum.splits)

lemma uuid_Parse_valid: "uuid_Parse s = Inr u \<Longrightarrow> valid_uuid u"
  by (auto simp: uuid_Parse_def parse_dashed_def valid_uuid_def simp del: parse_pairs.simps
      split: if_splits dest!: parse_pairs_length)

lemma valid_uuid_of_random: "length r = 16 \<Longrightarrow> valid_uuid (uuid_of_random r)"
  by (simp add: uuid_of_random_def valid_uuid_def)

lemma valid_uuid_Nil: "valid_uuid uuid_Nil"
  by (simp add: uuid_Nil_def valid_uuid_def)

lemma uuid_of_random_not_Nil:
  assumes "length r = 16"
  shows "uuid_of_random r \<noteq> uuid_Nil"
proof -
  have "bit (uuid_of_random r ! 6) 6"
    using assms by (simp add: uuid_of_random_def bit_or_iff)
  moreover have "\<not> bit (uuid_Nil ! 6) 6"
    by (simp add: uuid_Nil_def)
  ultimately show ?thesis by auto
qed

end
