(* ===== verification/Go_Errors.thy ===== *)
theory Go_Errors
  imports Go_Uuid
begin

text \<open>
  Error values. A Go error is a tree: leaves made by \<open>errors.New\<close> or by a library, the wrappers of
  \<open>fmt.Errorf\<close> with \<open>%w\<close>, the joins of \<open>errors.Join\<close>, and the program's own \<open>AppError\<close>
  (src/internal/apperror/apperror.go), which wraps one error. A nil \<open>error\<close> is \<open>None\<close>.

  \<^item> \<open>errors_find\<close> is the search of \<open>errors.Is\<close> and \<open>errors.As\<close>: depth first, a wrapper before what
    it wraps.
  \<^item> gRPC statuses (the vendored package \<open>google.golang.org/grpc/status\<close>): \<open>status_New\<close>, \<open>status_Err\<close>,
    \<open>WithDetails\<close>, \<open>status_FromError_ok\<close>.
\<close>

section \<open>gRPC statuses\<close>

datatype grpc_code = OK | Canceled | Unknown | InvalidArgument | DeadlineExceeded | NotFound
  | AlreadyExists | PermissionDenied | ResourceExhausted | FailedPrecondition | Aborted | OutOfRange
  | Unimplemented | Internal | Unavailable | DataLoss | Unauthenticated

fun code_String :: "grpc_code \<Rightarrow> string" where
  "code_String OK = ''OK''"
| "code_String Canceled = ''Canceled''"
| "code_String Unknown = ''Unknown''"
| "code_String InvalidArgument = ''InvalidArgument''"
| "code_String DeadlineExceeded = ''DeadlineExceeded''"
| "code_String NotFound = ''NotFound''"
| "code_String AlreadyExists = ''AlreadyExists''"
| "code_String PermissionDenied = ''PermissionDenied''"
| "code_String ResourceExhausted = ''ResourceExhausted''"
| "code_String FailedPrecondition = ''FailedPrecondition''"
| "code_String Aborted = ''Aborted''"
| "code_String OutOfRange = ''OutOfRange''"
| "code_String Unimplemented = ''Unimplemented''"
| "code_String Internal = ''Internal''"
| "code_String Unavailable = ''Unavailable''"
| "code_String DataLoss = ''DataLoss''"
| "code_String Unauthenticated = ''Unauthenticated''"

record field_violation =
  fv_Field :: string
  fv_Description :: string

record precondition_violation =
  pv_Subject :: string
  pv_Description :: string

datatype detail = BadRequest "field_violation list" | PreconditionFailure "precondition_violation list"

record grpc_status =
  st_Code :: grpc_code
  st_Message :: string
  st_Details :: "detail list"

definition status_New :: "grpc_code \<Rightarrow> string \<Rightarrow> grpc_status" where
  "status_New c msg = \<lparr>st_Code = c, st_Message = msg, st_Details = []\<rparr>"

section \<open>Leaves\<close>

text \<open>The fields of \<open>pgconn.PgError\<close> that the program or the error's text reads.\<close>

record pg_error =
  Severity :: string
  SqlState :: string
  PgMessage :: string
  ConstraintName :: string

datatype leaf_error =
    Text string
  | CtxDeadlineExceeded
  | CtxCanceled
  | ErrNoRows
  | Pg pg_error
  | Num string string num_error
  | Hex hex_error
  | Uuid uuid_error
  | Status grpc_status

section \<open>Error trees\<close>

record field_error =
  Field :: string
  Description :: string

text \<open>\<open>ErrCode\<close> is an \<open>int\<close>; a code that is never set is 0.\<close>

type_synonym err_code = int

datatype 'e app_error = AppError
  (Op: string)
  (Code: err_code)
  (Message: string)
  (Fields: "field_error list")
  (Err: "'e option")
  (merge: bool)
  (isClientErr: bool)

text \<open>
  \<open>Errorf pre e suf\<close> is \<open>fmt.Errorf("<pre>%w<suf>", e)\<close>, with the other verbs already printed in
  \<open>pre\<close> and \<open>suf\<close>; \<open>e\<close> may be nil.
\<close>

datatype err =
    Leaf leaf_error
  | Errorf string "err option" string
  | Joined "err list"
  | App "err app_error"

type_synonym AppErr = "err app_error"

abbreviation errors_New :: "string \<Rightarrow> err" where
  "errors_New s \<equiv> Leaf (Text s)"

section \<open>Texts\<close>

definition quote_char :: char where
  "quote_char = CHR 34"

fun num_error_text :: "num_error \<Rightarrow> string" where
  "num_error_text ErrSyntax = ''invalid syntax''"
| "num_error_text ErrRange = ''value out of range''"

text \<open>Byte \<open>b\<close> printed by \<open>%#U\<close>, the character itself only where it is printable ASCII.\<close>

definition byte_U :: "char \<Rightarrow> string" where
  "byte_U c = (let n = (of_char c :: nat) in
     ''U+00'' @ map (\<lambda>d. if d < 10 then char_of (48 + d) else char_of (55 + d)) [n div 16, n mod 16] @
     (if 32 \<le> n \<and> n < 127 then [CHR '' '', CHR 39, c, CHR 39] else []))"

fun leaf_text :: "leaf_error \<Rightarrow> string" where
  "leaf_text (Text s) = s"
| "leaf_text CtxDeadlineExceeded = ''context deadline exceeded''"
| "leaf_text CtxCanceled = ''context canceled''"
| "leaf_text ErrNoRows = ''no rows in result set''"
| "leaf_text (Pg pe) = Severity pe @ '': '' @ PgMessage pe @ '' (SQLSTATE '' @ SqlState pe @ '')''"
| "leaf_text (Num f s e) =
     ''strconv.'' @ f @ '': parsing '' @ quote_char # s @ quote_char # '': '' @ num_error_text e"
| "leaf_text (Hex (InvalidByteError c)) = ''encoding/hex: invalid byte: '' @ byte_U c"
| "leaf_text (Hex ErrLength) = ''encoding/hex: odd length hex string''"
| "leaf_text (Uuid e) = uuid_error_text e"
| "leaf_text (Status st) = ''rpc error: code = '' @ code_String (st_Code st) @ '' desc = '' @ st_Message st"

text \<open>
  \<open>Error()\<close> of a tree. A nil argument of \<open>%w\<close> prints as \<open>%!w(<nil>)\<close>. An \<open>AppError\<close> forwards to the
  error it wraps; with none, its \<open>Error\<close> panics, which \<open>fmt\<close> prints in place of the text.
\<close>

fun err_text :: "err \<Rightarrow> string" where
  "err_text (Leaf l) = leaf_text l"
| "err_text (Errorf pre None suf) = pre @ ''%!w(<nil>)'' @ suf"
| "err_text (Errorf pre (Some e) suf) = pre @ err_text e @ suf"
| "err_text (Joined es) = join [char_of (10 :: nat)] (map err_text es)"
| "err_text (App (AppError op c m fs (Some e) mg cl)) = err_text e"
| "err_text (App (AppError op c m fs None mg cl)) = ''%!w(PANIC=Error method: '' @ nil_deref @ '')''"

section \<open>errors.Is, errors.As\<close>

fun errors_find :: "(leaf_error \<Rightarrow> 'a option) \<Rightarrow> err \<Rightarrow> 'a option"
  and errors_find_list :: "(leaf_error \<Rightarrow> 'a option) \<Rightarrow> err list \<Rightarrow> 'a option" where
  "errors_find p (Leaf l) = p l"
| "errors_find p (Errorf pre None suf) = None"
| "errors_find p (Errorf pre (Some e) suf) = errors_find p e"
| "errors_find p (Joined es) = errors_find_list p es"
| "errors_find p (App (AppError op c m fs None mg cl)) = None"
| "errors_find p (App (AppError op c m fs (Some e) mg cl)) = errors_find p e"
| "errors_find_list p [] = None"
| "errors_find_list p (e # es) = (case errors_find p e of Some x \<Rightarrow> Some x | None \<Rightarrow> errors_find_list p es)"

definition errors_Is :: "err \<Rightarrow> leaf_error \<Rightarrow> bool" where
  "errors_Is e target \<longleftrightarrow> errors_find (\<lambda>l. if l = target then Some () else None) e \<noteq> None"

fun as_pg :: "leaf_error \<Rightarrow> pg_error option" where
  "as_pg (Pg pe) = Some pe"
| "as_pg _ = None"

fun as_status :: "leaf_error \<Rightarrow> grpc_status option" where
  "as_status (Status st) = Some st"
| "as_status _ = None"

text \<open>
  \<open>Err\<close> of a \<open>Status\<close> is nil for code \<open>OK\<close>; a status error with code \<open>OK\<close> is never built. The second
  result of \<open>status.FromError\<close> tells whether the error is, or wraps, a status.
\<close>

definition status_Err :: "grpc_status \<Rightarrow> err option" where
  "status_Err st = (if st_Code st = OK then None else Some (Leaf (Status st)))"

definition status_Error :: "grpc_code \<Rightarrow> string \<Rightarrow> err option" where
  "status_Error c msg = status_Err (status_New c msg)"

fun status_FromError_ok :: "err option \<Rightarrow> bool" where
  "status_FromError_ok None = True"
| "status_FromError_ok (Some e) = (errors_find as_status e \<noteq> None)"

text \<open>
  \<open>WithDetails\<close> packs each detail with \<open>anypb.New\<close>; \<open>any_new\<close> stands for it: the error with which it
  refuses a message (a string that is not UTF-8, say), or none.
\<close>

definition WithDetails :: "(detail \<Rightarrow> err option) \<Rightarrow> grpc_status \<Rightarrow> detail \<Rightarrow> err + grpc_status" where
  "WithDetails any_new st d =
     (if st_Code st = OK then Inl (errors_New ''no error details for status with code OK'')
      else case any_new d of
        Some e \<Rightarrow> Inl e
      | None \<Rightarrow> Inr (st\<lparr>st_Details := st_Details st @ [d]\<rparr>))"

section \<open>Lemmas\<close>

lemma errors_find_App [simp]: "errors_find p (App a) = (case Err a of None \<Rightarrow> None | Some e \<Rightarrow> errors_find p e)"
  by (cases a) (auto split: option.splits)

lemma errors_find_Errorf [simp]:
  "errors_find p (Errorf pre e suf) = (case e of None \<Rightarrow> None | Some e' \<Rightarrow> errors_find p e')"
  by (cases e) auto

lemma errors_Is_Leaf [simp]: "errors_Is (Leaf l) t \<longleftrightarrow> l = t"
  by (simp add: errors_Is_def)

lemma errors_Is_Errorf [simp]: "errors_Is (Errorf pre e suf) t \<longleftrightarrow> (\<exists>e'. e = Some e' \<and> errors_Is e' t)"
  by (cases e) (auto simp: errors_Is_def)

lemma errors_Is_App [simp]: "errors_Is (App a) t \<longleftrightarrow> (\<exists>e'. Err a = Some e' \<and> errors_Is e' t)"
  by (auto simp: errors_Is_def split: option.splits)

lemma errors_find_list_None_iff: "errors_find_list p es = None \<longleftrightarrow> (\<forall>e \<in> set es. errors_find p e = None)"
  by (induction es) (auto split: option.splits)

lemma errors_Is_Joined [simp]: "errors_Is (Joined es) t \<longleftrightarrow> (\<exists>e \<in> set es. errors_Is e t)"
  by (simp add: errors_Is_def errors_find_list_None_iff del: not_None_eq)

lemma status_Error_eq: "c \<noteq> OK \<Longrightarrow> status_Error c m = Some (Leaf (Status (status_New c m)))"
  by (simp add: status_Error_def status_Err_def status_New_def)

lemma status_New_simps [simp]:
  "st_Code (status_New c m) = c" "st_Message (status_New c m) = m" "st_Details (status_New c m) = []"
  by (simp_all add: status_New_def)

end
