(* ===== verification/App_Error.thy ===== *)
theory App_Error
  imports Go_Errors
begin

text \<open>
  Package apperror (src/internal/apperror/apperror.go): the error codes, the constructors, the
  marks, and the search that turns an error tree into the one error a client sees.

  \<open>contributors\<close> is the abstract reading of that search: the marked errors it collects, in order.
  \<open>generateClientFields_spec\<close> shows that the accumulating recursion of the code computes exactly the
  first contributor, the joined messages and the concatenated fields.
\<close>

section \<open>Codes and methods\<close>

definition CodeInvalidArgument :: err_code where "CodeInvalidArgument = 1"

definition CodeStorageConflict :: err_code where "CodeStorageConflict = 2"

definition CodeInternalServerError :: err_code where "CodeInternalServerError = 3"

definition CodeUnknownError :: err_code where "CodeUnknownError = 4"

definition CodeNotFound :: err_code where "CodeNotFound = 5"

lemmas code_defs = CodeInvalidArgument_def CodeStorageConflict_def CodeInternalServerError_def
  CodeUnknownError_def CodeNotFound_def

definition getMessage :: "field_error \<Rightarrow> string" where
  "getMessage f = ''Error in field: '' @ Field f @ '',description: '' @ Description f"

text \<open>\<open>Error\<close> calls the wrapped error, and panics when there is none.\<close>

definition app_Error :: "AppErr \<Rightarrow> (err, string) outcome" where
  "app_Error ap = bindo (deref (Err ap)) (\<lambda>e. Ret (err_text e))"

definition app_Unwrap :: "AppErr \<Rightarrow> err option" where
  "app_Unwrap ap = Err ap"

fun MarkAsClientErr :: "AppErr \<Rightarrow> AppErr" where
  "MarkAsClientErr (AppError op c m fs e mg cl) = AppError op c m fs e mg True"

fun RemoveFromClientErr :: "AppErr \<Rightarrow> AppErr" where
  "RemoveFromClientErr (AppError op c m fs e mg cl) = AppError op c m fs e mg False"

definition IsClientErr :: "AppErr \<Rightarrow> bool" where
  "IsClientErr ap = isClientErr ap"

fun MarkAsClientErrAndMerge :: "AppErr \<Rightarrow> AppErr" where
  "MarkAsClientErrAndMerge (AppError op c m fs e mg cl) = AppError op c m fs e True True"

fun UnMerge :: "AppErr \<Rightarrow> AppErr" where
  "UnMerge (AppError op c m fs e mg cl) = AppError op c m fs e False cl"

definition GetMergeStatus :: "AppErr \<Rightarrow> bool" where
  "GetMergeStatus ap = merge ap"

record ErrDetails =
  ed_Fields :: "field_error list"
  ed_Message :: string

definition newline :: string where
  "newline = [char_of (10 :: nat)]"

definition InvalidArgumentError :: "string \<Rightarrow> ErrDetails \<Rightarrow> err option \<Rightarrow> AppErr" where
  "InvalidArgumentError op d e =
     (let errorSlice = map getMessage (ed_Fields d)
      in AppError op CodeInvalidArgument (ed_Message d) (ed_Fields d)
           (Some (Errorf (''invalid arguments are: '' @ join newline errorSlice @ '', error is: '') e ''''))
           False False)"

definition PreconditionFailedError :: "string \<Rightarrow> ErrDetails \<Rightarrow> err option \<Rightarrow> AppErr" where
  "PreconditionFailedError op d e =
     (let errorSlice = map getMessage (ed_Fields d)
      in AppError op CodeStorageConflict (ed_Message d) (ed_Fields d)
           (Some (Errorf (''failed preconditions are: '' @ join newline errorSlice @ '', error is: '') e ''''))
           False False)"

definition NotFoundError :: "string \<Rightarrow> err option \<Rightarrow> string \<Rightarrow> AppErr" where
  "NotFoundError op e msg = AppError op CodeNotFound msg [] e False False"

text \<open>\<open>InternalServerError\<close> sets neither \<open>Code\<close> nor \<open>Message\<close>: they stay 0 and empty.\<close>

definition InternalServerError :: "string \<Rightarrow> err option \<Rightarrow> string \<Rightarrow> AppErr" where
  "InternalServerError op e msg =
     AppError op 0 '''' [] (Some (Errorf (msg @ '':'') e '','')) False False"

definition CatchAllUnknownServerError :: "string \<Rightarrow> err option \<Rightarrow> string \<Rightarrow> AppErr" where
  "CatchAllUnknownServerError op e msg = AppError op CodeUnknownError msg [] e False False"

section \<open>What the client sees\<close>

record errorMessage =
  em_Message :: string
  em_Fields :: "field_error list"

definition no_message :: errorMessage where
  "no_message = \<lparr>em_Message = '''', em_Fields = []\<rparr>"

definition accumulate :: "errorMessage \<Rightarrow> field_error list \<Rightarrow> string \<Rightarrow> errorMessage" where
  "accumulate em flds msg =
     (let out = em_Message em;
          out' = (if msg \<noteq> '''' then (if out \<noteq> '''' then out @ '';'' else out) @ msg else out)
      in \<lparr>em_Message = out', em_Fields = em_Fields em @ flds\<rparr>)"

text \<open>
  \<open>generate_joined\<close> is the loop over the children of a joined error: its accumulator, the first
  error found so far and whether one was found.
\<close>

fun generateClientFields :: "err option \<Rightarrow> errorMessage \<Rightarrow> errorMessage \<times> AppErr option \<times> bool"
  and generate_joined :: "err list \<Rightarrow> errorMessage \<Rightarrow> AppErr option \<Rightarrow> bool \<Rightarrow> errorMessage \<times> AppErr option \<times> bool"
where
  "generateClientFields None acc = (acc, None, False)"
| "generateClientFields (Some (App (AppError op c m fs e mg cl))) acc =
     (if cl then
        (let acc' = accumulate acc fs m
         in if \<not> mg then (acc', Some (AppError op c m fs e mg cl), True)
            else (let (acc'', _, _) = generateClientFields e acc'
                  in (acc'', Some (AppError op c m fs e mg cl), True)))
      else generateClientFields e acc)"
| "generateClientFields (Some (Errorf pre e suf)) acc = generateClientFields e acc"
| "generateClientFields (Some (Joined es)) acc = generate_joined es acc None False"
| "generateClientFields (Some (Leaf l)) acc = (acc, None, False)"
| "generate_joined [] acc firstErr found = (acc, firstErr, found)"
| "generate_joined (e # es) acc firstErr found =
     (let (errMessage, detailedErr, found') = generateClientFields (Some e) no_message;
          acc' = accumulate acc (em_Fields errMessage) (em_Message errMessage)
      in if found' \<and> \<not> found then generate_joined es acc' detailedErr True
         else generate_joined es acc' firstErr found)"

definition zero_AppError :: AppErr where
  "zero_AppError = AppError '''' 0 '''' [] None False False"

fun with_client_fields :: "AppErr \<Rightarrow> errorMessage \<Rightarrow> AppErr" where
  "with_client_fields (AppError op c m fs e mg cl) em = AppError op c (em_Message em) (em_Fields em) e mg cl"

definition CreateClientErr :: "err option \<Rightarrow> AppErr \<times> bool" where
  "CreateClientErr e = (case generateClientFields e no_message of
      (errMsg, Some detailedErr, True) \<Rightarrow> (with_client_fields detailedErr errMsg, True)
    | _ \<Rightarrow> (zero_AppError, False))"

section \<open>The abstract reading\<close>

fun contributors :: "err option \<Rightarrow> AppErr list" where
  "contributors None = []"
| "contributors (Some (App (AppError op c m fs e mg cl))) =
     (if cl then AppError op c m fs e mg cl # (if mg then contributors e else [])
      else contributors e)"
| "contributors (Some (Errorf pre e suf)) = contributors e"
| "contributors (Some (Joined es)) = concat (map (\<lambda>e. contributors (Some e)) es)"
| "contributors (Some (Leaf l)) = []"

definition add_message :: "string \<Rightarrow> string \<Rightarrow> string" where
  "add_message out msg = (if msg = '''' then out else if out = '''' then msg else out @ '';'' @ msg)"

definition joined_messages :: "AppErr list \<Rightarrow> string" where
  "joined_messages as = join '';'' (filter (\<lambda>m. m \<noteq> '''') (map Message as))"

definition head_opt :: "'a list \<Rightarrow> 'a option" where
  "head_opt xs = (case xs of [] \<Rightarrow> None | x # _ \<Rightarrow> Some x)"

lemma accumulate_eq:
  "accumulate em fs m = \<lparr>em_Message = add_message (em_Message em) m, em_Fields = em_Fields em @ fs\<rparr>"
  by (simp add: accumulate_def add_message_def Let_def)

lemma add_message_assoc: "add_message (add_message a b) c = add_message a (add_message b c)"
  by (auto simp: add_message_def)

lemma add_message_Nil [simp]: "add_message [] m = m" "add_message m [] = m"
  by (auto simp: add_message_def)

lemma join_Cons: "ss \<noteq> [] \<Longrightarrow> join sep (s # ss) = s @ sep @ join sep ss"
  by (cases ss) auto

lemma join_eq_Nil: "(\<forall>s \<in> set ss. s \<noteq> []) \<Longrightarrow> join sep ss = [] \<longleftrightarrow> ss = []"
  by (cases ss rule: remdups_adj.cases) auto

lemma joined_messages_Cons: "joined_messages (a # as) = add_message (Message a) (joined_messages as)"
proof -
  let ?ms = "filter (\<lambda>m. m \<noteq> []) (map Message as)"
  have "join '';'' ?ms = [] \<longleftrightarrow> ?ms = []" by (rule join_eq_Nil) simp
  then show ?thesis
    by (cases "?ms = []") (auto simp: joined_messages_def add_message_def join_Cons)
qed

lemma joined_messages_append:
  "joined_messages (as @ bs) = add_message (joined_messages as) (joined_messages bs)"
  by (induction as) (simp_all add: joined_messages_Cons add_message_assoc, simp add: joined_messages_def)

definition add_contributors :: "errorMessage \<Rightarrow> AppErr list \<Rightarrow> errorMessage" where
  "add_contributors em as =
     \<lparr>em_Message = add_message (em_Message em) (joined_messages as),
      em_Fields = em_Fields em @ concat (map Fields as)\<rparr>"

lemma add_contributors_Nil: "add_contributors em [] = em"
  by (simp add: add_contributors_def joined_messages_def)

lemma add_contributors_Cons:
  "add_contributors em (a # as) = add_contributors (accumulate em (Fields a) (Message a)) as"
  by (simp add: add_contributors_def accumulate_eq joined_messages_Cons add_message_assoc)

lemma accumulate_add_contributors:
  "accumulate em (em_Fields (add_contributors no_message as)) (em_Message (add_contributors no_message as))
   = add_contributors em as"
  by (simp add: accumulate_eq add_contributors_def no_message_def)

lemma add_contributors_append:
  "add_contributors (add_contributors em as) bs = add_contributors em (as @ bs)"
  by (simp add: add_contributors_def joined_messages_append add_message_assoc)

lemma head_opt_append: "head_opt (xs @ ys) = (if xs = [] then head_opt ys else head_opt xs)"
  by (cases xs) (auto simp: head_opt_def)

lemma generateClientFields_spec:
  "generateClientFields e acc = (add_contributors acc (contributors e), head_opt (contributors e), contributors e \<noteq> [])"
  "generate_joined es acc firstErr found =
     (let cs = concat (map (\<lambda>e. contributors (Some e)) es)
      in (add_contributors acc cs, (if found \<or> cs = [] then firstErr else head_opt cs), found \<or> cs \<noteq> []))"
proof (induction e acc and es acc firstErr found rule: generateClientFields_generate_joined.induct)
  case (7 e es acc firstErr found)
  then show ?case
    by (auto simp: Let_def accumulate_add_contributors add_contributors_append head_opt_append)
next
  case (4 es acc)
  then show ?case
    by (cases "concat (map (\<lambda>e. contributors (Some e)) es)")
      (simp_all add: head_opt_def Let_def del: concat_eq_Nil_conv)
qed (auto simp: add_contributors_Nil add_contributors_Cons head_opt_def Let_def)

lemma CreateClientErr_eq:
  "CreateClientErr e = (case contributors e of
      [] \<Rightarrow> (zero_AppError, False)
    | a # as \<Rightarrow> (AppError (Op a) (Code a) (joined_messages (a # as)) (concat (map Fields (a # as)))
        (Err a) (merge a) (isClientErr a), True))"
proof (cases "contributors e")
  case (Cons a as)
  then show ?thesis
    by (cases a) (simp add: CreateClientErr_def generateClientFields_spec head_opt_def
        add_contributors_def no_message_def)
qed (simp add: CreateClientErr_def generateClientFields_spec head_opt_def)

lemma contributors_client: "a \<in> set (contributors e) \<Longrightarrow> isClientErr a"
  by (induction e rule: contributors.induct) (auto split: if_splits)

lemma contributors_marked [simp]:
  "contributors (Some (App (MarkAsClientErr a))) = MarkAsClientErr a # (if merge a then contributors (Err a) else [])"
  by (cases a) simp

lemma mark_selectors [simp]:
  "Code (MarkAsClientErr a) = Code a" "Message (MarkAsClientErr a) = Message a"
  "Fields (MarkAsClientErr a) = Fields a" "Err (MarkAsClientErr a) = Err a"
  "Op (MarkAsClientErr a) = Op a" "merge (MarkAsClientErr a) = merge a" "isClientErr (MarkAsClientErr a)"
  by (cases a; simp)+

lemma joined_messages_single [simp]: "joined_messages [a] = Message a"
  by (simp add: joined_messages_def)

lemma CreateClientErr_marked:
  "\<not> merge a \<Longrightarrow> CreateClientErr (Some (App (MarkAsClientErr a))) = (MarkAsClientErr a, True)"
  by (cases a) (simp add: CreateClientErr_eq)

lemma constructors_not_merge [simp]:
  "\<not> merge (InvalidArgumentError op d e)" "\<not> merge (PreconditionFailedError op d e)"
  "\<not> merge (NotFoundError op e m)" "\<not> merge (InternalServerError op e m)"
  "\<not> merge (CatchAllUnknownServerError op e m)"
  by (simp_all add: InvalidArgumentError_def PreconditionFailedError_def NotFoundError_def
      InternalServerError_def CatchAllUnknownServerError_def Let_def)

end
