(* ===== verification/Db_Errors.thy ===== *)
theory Db_Errors
  imports App_Error
begin

text \<open>
  Package database (src/internal/database/database.go): the connection made at start-up, and the
  reading of a PostgreSQL error as a list of fields for the client, by the name of the violated
  constraint.
\<close>

section \<open>Connecting\<close>

datatype 'c startup = Connected 'c | Exit nat

text \<open>\<open>connect\<close> is \<open>pgx.Connect\<close> on the value of DATABASE_URL, \<open>ping\<close> its \<open>Ping\<close>.\<close>

definition ConnectToDB :: "(string \<Rightarrow> err + 'c) \<Rightarrow> ('c \<Rightarrow> err option) \<Rightarrow> string \<Rightarrow> 'c startup" where
  "ConnectToDB connect ping database_url =
     (case connect database_url of
        Inl e \<Rightarrow> Exit 1
      | Inr conn \<Rightarrow> (case ping conn of Some pingErr \<Rightarrow> Exit 1 | None \<Rightarrow> Connected conn))"

section \<open>Constraint messages\<close>

record StorageField =
  sf_Subject :: string
  sf_Description :: string

definition attempts_lot_fkey :: string where
  "attempts_lot_fkey = ''image_blob_upload_attempts_lot_id_fkey''"

definition attempts_pending_idx :: string where
  "attempts_pending_idx = ''idx_unq_img_attmpts_sha256_lot_id_upload_state''"

definition lot_images_blob_fkey :: string where
  "lot_images_blob_fkey = ''lot_images_image_blob_id_fkey''"

definition lot_images_lot_fkey :: string where
  "lot_images_lot_fkey = ''lot_images_lot_id_fkey''"

definition databaseConstraint :: "string \<rightharpoonup> StorageField list" where
  "databaseConstraint =
     [attempts_lot_fkey \<mapsto>
        [\<lparr>sf_Subject = ''Storage'', sf_Description = ''lotId does not match''\<rparr>],
      attempts_pending_idx \<mapsto>
        [\<lparr>sf_Subject = ''Storage'', sf_Description = ''file with same sha256 hash and lotId whose upload has not been completed already exists''\<rparr>],
      lot_images_blob_fkey \<mapsto>
        [\<lparr>sf_Subject = ''Storage'', sf_Description = ''image blob with given id does not exist''\<rparr>],
      lot_images_lot_fkey \<mapsto>
        [\<lparr>sf_Subject = ''Storage'', sf_Description = ''lot with given id does not exist''\<rparr>]]"

definition getErrorMessage :: "(string \<rightharpoonup> StorageField list) \<Rightarrow> string \<Rightarrow> StorageField list option" where
  "getErrorMessage fkConstraint fkName = fkConstraint fkName"

definition isStorageError :: "err \<Rightarrow> pg_error option" where
  "isStorageError e = errors_find as_pg e"

definition DeriveIfStorageErrorMessage :: "err \<Rightarrow> StorageField list option" where
  "DeriveIfStorageErrorMessage e =
     (case isStorageError e of
        None \<Rightarrow> None
      | Some pgError \<Rightarrow> getErrorMessage databaseConstraint (ConstraintName pgError))"

definition IsRowNotFound :: "err \<Rightarrow> bool" where
  "IsRowNotFound e \<longleftrightarrow> errors_Is e ErrNoRows"

lemmas constraint_names = attempts_lot_fkey_def attempts_pending_idx_def lot_images_blob_fkey_def
  lot_images_lot_fkey_def

lemma constraint_names_distinct:
  "distinct [attempts_lot_fkey, attempts_pending_idx, lot_images_blob_fkey, lot_images_lot_fkey, '''']"
  by (simp add: constraint_names)

lemma databaseConstraint_dom:
  "databaseConstraint n = None \<longleftrightarrow>
     n \<notin> {attempts_lot_fkey, attempts_pending_idx, lot_images_blob_fkey, lot_images_lot_fkey}"
  by (auto simp: databaseConstraint_def)

lemma databaseConstraint_single: "databaseConstraint n = Some fs \<Longrightarrow> \<exists>d. fs = [\<lparr>sf_Subject = ''Storage'', sf_Description = d\<rparr>]"
  by (auto simp: databaseConstraint_def split: if_splits)

lemma Derive_Pg [simp]:
  "DeriveIfStorageErrorMessage (Leaf (Pg pe)) = databaseConstraint (ConstraintName pe)"
  by (simp add: DeriveIfStorageErrorMessage_def isStorageError_def getErrorMessage_def)

lemma Derive_no_pg: "errors_find as_pg e = None \<Longrightarrow> DeriveIfStorageErrorMessage e = None"
  by (simp add: DeriveIfStorageErrorMessage_def isStorageError_def)

lemma databaseConstraint_empty: "databaseConstraint '''' = None"
  by (simp add: databaseConstraint_dom constraint_names)

end
