(* ===== verification/Filestore_Schema.thy ===== *)
theory Filestore_Schema
  imports Db_Errors "HOL-Library.Signed_Division"
begin

text \<open>
  The tables of the database: the row types of src/internal/database/filestore/models.go, with the
  columns, defaults and constraints that the migrations under src/internal/database/migrations give
  them, and the \<open>Scan\<close> and \<open>Value\<close> methods of the two enum types.

  \<open>db\<close> is the committed or in-transaction content of the tables, with the state of the identity
  sequences and the number of \<open>gen_random_uuid()\<close> draws. A timestamp is a number of microseconds.
  \<open>db_wf\<close> collects what the schema guarantees: unique keys, foreign keys, the partial unique index on
  pending attempts and the generated column \<open>part_count\<close>.
\<close>

section \<open>Enum types\<close>

datatype upload_attempt_state = Pending | Committed

datatype upload_type = MultiUpload | SingleUpload

definition UploadAttemptStatePending :: string where "UploadAttemptStatePending = ''pending''"

definition UploadAttemptStateCommitted :: string where "UploadAttemptStateCommitted = ''committed''"

definition UploadTypeMultiUpload :: string where "UploadTypeMultiUpload = ''multiUpload''"

definition UploadTypeSingleUpload :: string where "UploadTypeSingleUpload = ''singleUpload''"

fun state_label :: "upload_attempt_state \<Rightarrow> string" where
  "state_label Pending = UploadAttemptStatePending"
| "state_label Committed = UploadAttemptStateCommitted"

fun type_label :: "upload_type \<Rightarrow> string" where
  "type_label MultiUpload = UploadTypeMultiUpload"
| "type_label SingleUpload = UploadTypeSingleUpload"

text \<open>A driver value: nil, bytes, a string, or a value of another type (by its \<open>%T\<close> name).\<close>

datatype driver_src = SrcNil | SrcBytes string | SrcString string | SrcOther string

fun src_type_name :: "driver_src \<Rightarrow> string" where
  "src_type_name SrcNil = ''<nil>''"
| "src_type_name (SrcBytes b) = ''[]uint8''"
| "src_type_name (SrcString s) = ''string''"
| "src_type_name (SrcOther t) = t"

text \<open>\<open>Scan\<close> gives back the receiver's new value and the error.\<close>

fun UploadAttemptState_Scan :: "string \<Rightarrow> driver_src \<Rightarrow> string \<times> err option" where
  "UploadAttemptState_Scan e (SrcBytes s) = (s, None)"
| "UploadAttemptState_Scan e (SrcString s) = (s, None)"
| "UploadAttemptState_Scan e src =
     (e, Some (errors_New (''unsupported scan type for UploadAttemptState: '' @ src_type_name src)))"

fun UploadType_Scan :: "string \<Rightarrow> driver_src \<Rightarrow> string \<times> err option" where
  "UploadType_Scan e (SrcBytes s) = (s, None)"
| "UploadType_Scan e (SrcString s) = (s, None)"
| "UploadType_Scan e src =
     (e, Some (errors_New (''unsupported scan type for UploadType: '' @ src_type_name src)))"

record null_enum =
  ne_value :: string
  ne_Valid :: bool

definition null_scan :: "(string \<Rightarrow> driver_src \<Rightarrow> string \<times> err option) \<Rightarrow> null_enum \<Rightarrow> driver_src \<Rightarrow> null_enum \<times> err option" where
  "null_scan scan ns src =
     (if src = SrcNil then (\<lparr>ne_value = '''', ne_Valid = False\<rparr>, None)
      else (let (v, e) = scan (ne_value ns) src in (\<lparr>ne_value = v, ne_Valid = True\<rparr>, e)))"

definition NullUploadAttemptState_Scan :: "null_enum \<Rightarrow> driver_src \<Rightarrow> null_enum \<times> err option" where
  "NullUploadAttemptState_Scan = null_scan UploadAttemptState_Scan"

definition NullUploadType_Scan :: "null_enum \<Rightarrow> driver_src \<Rightarrow> null_enum \<times> err option" where
  "NullUploadType_Scan = null_scan UploadType_Scan"

definition NullUploadAttemptState_Value :: "null_enum \<Rightarrow> driver_src" where
  "NullUploadAttemptState_Value ns = (if \<not> ne_Valid ns then SrcNil else SrcString (ne_value ns))"

definition NullUploadType_Value :: "null_enum \<Rightarrow> driver_src" where
  "NullUploadType_Value ns = (if \<not> ne_Valid ns then SrcNil else SrcString (ne_value ns))"

section \<open>Rows\<close>

record ImageBlob =
  ib_ImageBlobID :: int
  ib_Sha256 :: bytes
  ib_ContentType :: string
  ib_S3Key :: string
  ib_IsUploadCompleted :: bool

record ImageBlobUploadAttempt =
  at_ID :: int
  at_Sha256 :: bytes
  at_FileSize :: int
  at_ContentType :: string
  at_UploadType :: upload_type
  at_UploadID :: "string option"
  at_PartSize :: "int option"
  at_PartCount :: "int option"
  at_LotID :: uuid
  at_FileName :: "string option"
  at_StorageKey :: uuid
  at_Username :: string
  at_UploadState :: upload_attempt_state
  at_Version :: int
  at_ValidUntil :: "int option"
  at_Verified :: "bool option"

record Lot =
  lot_ID :: uuid
  lot_Title :: string
  lot_Description :: string
  lot_Category :: "string option"
  lot_BidOpeningPrice :: "int32 option"

record LotImage =
  li_LotImageID :: int
  li_LotID :: uuid
  li_ImageBlobID :: int
  li_FileName :: string

record db =
  lots :: "Lot list"
  image_blobs :: "ImageBlob list"
  lot_images :: "LotImage list"
  attempts :: "ImageBlobUploadAttempt list"
  lot_image_seq :: int
  attempt_seq :: int
  uuid_ctr :: nat

text \<open>
  What a statement reads besides the tables: the transaction's timestamp (\<open>now()\<close>,
  \<open>current_timestamp\<close> and \<open>transaction_timestamp()\<close> agree on it) and the values that
  \<open>gen_random_uuid()\<close> will give.
\<close>

record sql_env =
  txn_now :: int
  gen_random_uuid :: "nat \<Rightarrow> uuid"

section \<open>Columns the schema computes\<close>

text \<open>\<open>interval '5 days'\<close>, added in a time zone without daylight saving.\<close>

definition five_days :: int where
  "five_days = 5 * 24 * 60 * 60 * 1000000"

text \<open>
  \<open>part_count\<close>: \<open>(file_size + part_size - 1) / part_size\<close> on \<open>bigint\<close>, whose division truncates
  towards zero, and null for a single upload.
\<close>

definition gen_part_count :: "upload_type \<Rightarrow> int \<Rightarrow> int option \<Rightarrow> int option" where
  "gen_part_count ut file_size part_size =
     (if ut = MultiUpload then map_option (\<lambda>ps. (file_size + ps - 1) sdiv ps) part_size else None)"

definition set_generated :: "ImageBlobUploadAttempt \<Rightarrow> ImageBlobUploadAttempt" where
  "set_generated a = a\<lparr>at_PartCount := gen_part_count (at_UploadType a) (at_FileSize a) (at_PartSize a)\<rparr>"

section \<open>Errors of the server\<close>

definition pg_err :: "string \<Rightarrow> string \<Rightarrow> string \<Rightarrow> err" where
  "pg_err code msg constr =
     Leaf (Pg \<lparr>Severity = ''ERROR'', SqlState = code, PgMessage = msg, ConstraintName = constr\<rparr>)"

definition quoted :: "string \<Rightarrow> string" where
  "quoted s = quote_char # s @ [quote_char]"

definition fk_violation :: "string \<Rightarrow> string \<Rightarrow> err" where
  "fk_violation table constr = pg_err ''23503''
     (''insert or update on table '' @ quoted table @ '' violates foreign key constraint '' @ quoted constr) constr"

definition unique_violation :: "string \<Rightarrow> err" where
  "unique_violation constr = pg_err ''23505''
     (''duplicate key value violates unique constraint '' @ quoted constr) constr"

definition not_null_violation :: "string \<Rightarrow> string \<Rightarrow> err" where
  "not_null_violation table col = pg_err ''23502''
     (''null value in column '' @ quoted col @ '' of relation '' @ quoted table @ '' violates not-null constraint'') ''''"

definition string_too_long :: "nat \<Rightarrow> err" where
  "string_too_long n = pg_err ''22001'' (''value too long for type character varying('' @ itoa (int n) @ '')'') ''''"

definition second_update :: err where
  "second_update = pg_err ''21000'' ''ON CONFLICT DO UPDATE command cannot affect row a second time'' ''''"

definition smallint_out_of_range :: err where
  "smallint_out_of_range = pg_err ''22003'' ''smallint out of range'' ''''"

definition version_not_updatable :: err where
  "version_not_updatable = pg_err ''23001'' (''column '' @ quoted ''version'' @ '' of table '' @ quoted ''image_blob_upload_attempts'' @ '' is not user-updatable'') ''''"

section \<open>Well-formed databases\<close>

definition pending_key :: "ImageBlobUploadAttempt \<Rightarrow> bytes \<times> uuid" where
  "pending_key a = (at_Sha256 a, at_LotID a)"

definition is_pending :: "ImageBlobUploadAttempt \<Rightarrow> bool" where
  "is_pending a \<longleftrightarrow> at_UploadState a = Pending"

definition lot_ids :: "db \<Rightarrow> uuid set" where
  "lot_ids d = lot_ID ` set (lots d)"

definition attempts_wf :: "ImageBlobUploadAttempt list \<Rightarrow> int \<Rightarrow> bool" where
  "attempts_wf as nxt \<longleftrightarrow>
     distinct (map at_ID as) \<and> (\<forall>a \<in> set as. at_ID a < nxt) \<and>
     distinct (map pending_key (filter is_pending as)) \<and>
     (\<forall>a \<in> set as. at_PartCount a = gen_part_count (at_UploadType a) (at_FileSize a) (at_PartSize a))"

definition db_wf :: "db \<Rightarrow> bool" where
  "db_wf d \<longleftrightarrow>
     distinct (map lot_ID (lots d)) \<and>
     distinct (map ib_ImageBlobID (image_blobs d)) \<and> distinct (map ib_Sha256 (image_blobs d)) \<and>
     distinct (map li_LotImageID (lot_images d)) \<and>
     (\<forall>i \<in> set (lot_images d). li_LotImageID i < lot_image_seq d \<and> li_LotID i \<in> lot_ids d \<and>
        li_ImageBlobID i \<in> ib_ImageBlobID ` set (image_blobs d)) \<and>
     attempts_wf (attempts d) (attempt_seq d) \<and>
     (\<forall>a \<in> set (attempts d). at_LotID a \<in> lot_ids d)"

lemma pg_err_Derive [simp]: "DeriveIfStorageErrorMessage (pg_err code msg constr) = databaseConstraint constr"
  by (simp add: pg_err_def)

lemma set_generated_simps [simp]:
  "at_ID (set_generated a) = at_ID a" "at_Sha256 (set_generated a) = at_Sha256 a"
  "at_LotID (set_generated a) = at_LotID a" "at_UploadState (set_generated a) = at_UploadState a"
  "at_StorageKey (set_generated a) = at_StorageKey a" "at_UploadID (set_generated a) = at_UploadID a"
  "at_PartSize (set_generated a) = at_PartSize a" "at_FileSize (set_generated a) = at_FileSize a"
  "at_UploadType (set_generated a) = at_UploadType a" "at_ValidUntil (set_generated a) = at_ValidUntil a"
  "at_Version (set_generated a) = at_Version a"
  "at_PartCount (set_generated a) = gen_part_count (at_UploadType a) (at_FileSize a) (at_PartSize a)"
  by (simp_all add: set_generated_def)

end
