(* ===== verification/Filestore_Queries.thy ===== *)
theory Filestore_Queries
  imports Filestore_Schema
begin

text \<open>
  The SQL statements of src/internal/database/filestore (the Go constants that sqlc made from
  src/internal/database/db_queries), as functions on \<open>db\<close>.

  A statement gives back its rows or its error, and the tables after it; a failed statement leaves
  every table as it was, but identity values and random draws it used are gone. Rows are inserted in
  the order of the unnested arrays; no caller depends on that order.

  \<^item> \<open>upsert_loop\<close> is \<open>INSERT ... SELECT ... ON CONFLICT (sha256, lot_id) WHERE upload_state =
    'pending' DO UPDATE ... RETURNING\<close>, shared by the two upload statements: \<open>propose\<close> builds the row
    to insert from an input row, \<open>on_conflict\<close> is the \<open>SET\<close> list.
    The contract of the loop is in \<open>Filestore_Laws\<close>.
\<close>

section \<open>SQL values\<close>

definition sql_blank :: "char \<Rightarrow> bool" where
  "sql_blank c \<longleftrightarrow> c \<in> {CHR '' '', char_of (9 :: nat), char_of (10 :: nat), char_of (13 :: nat)}"

text \<open>
  \<open>decode(s, 'hex')\<close>: pairs of digits, blanks between pairs skipped, an error for anything else.
\<close>

definition bad_hex_digit :: "char \<Rightarrow> err" where
  "bad_hex_digit c = pg_err ''22023'' (''invalid hexadecimal digit: '' @ quoted [c]) ''''"

definition odd_hex :: err where
  "odd_hex = pg_err ''22023'' ''invalid hexadecimal data: odd number of digits'' ''''"

fun sql_decode_hex :: "string \<Rightarrow> err + bytes" where
  "sql_decode_hex [] = Inr []"
| "sql_decode_hex [c] = (if sql_blank c then Inr []
     else case hex_val c of None \<Rightarrow> Inl (bad_hex_digit c) | Some h \<Rightarrow> Inl odd_hex)"
| "sql_decode_hex (c # d # s) = (if sql_blank c then sql_decode_hex (d # s)
     else case hex_val c of
       None \<Rightarrow> Inl (bad_hex_digit c)
     | Some h \<Rightarrow> (case hex_val d of
         None \<Rightarrow> Inl (bad_hex_digit d)
       | Some l \<Rightarrow> (case sql_decode_hex s of Inl e \<Rightarrow> Inl e | Inr bs \<Rightarrow> Inr (hex_byte h l # bs))))"

text \<open>\<open>s::char(64)\<close>, read as text: at most 64 characters, without the trailing blanks.\<close>

definition cast_char64 :: "string \<Rightarrow> string" where
  "cast_char64 s = rev (dropWhile (\<lambda>c. c = CHR '' '') (rev (take_runes 64 s)))"

text \<open>An explicit cast to \<open>varchar(n)\<close> truncates; an assignment refuses what does not fit, unless only
  blanks are lost.\<close>

definition cast_varchar :: "nat \<Rightarrow> string \<Rightarrow> string" where
  "cast_varchar n s = take_runes n s"

definition assign_varchar :: "nat \<Rightarrow> string \<Rightarrow> err + string" where
  "assign_varchar n s =
     (if rune_count s \<le> n then Inr s
      else if (\<forall>c \<in> set (drop (length (take_runes n s)) s). c = CHR '' '') then Inr (take_runes n s)
      else Inl (string_too_long n))"

text \<open>\<open>unnest\<close> of several arrays gives as many rows as the longest has, padded with nulls.\<close>

definition pad :: "nat \<Rightarrow> 'a list \<Rightarrow> 'a option list" where
  "pad n xs = map Some xs @ replicate (n - length xs) None"

text \<open>\<open>ARRAY(SELECT generate_series(1, n, 1))::smallint[]\<close>\<close>

definition parts_array :: "int option \<Rightarrow> err + int16 list" where
  "parts_array n =
     (case n of
        None \<Rightarrow> Inr []
      | Some k \<Rightarrow> if 32767 < k then Inl smallint_out_of_range
                  else Inr (map (\<lambda>i. word_of_int i) [1..k]))"

section \<open>The trigger bump_row_version\<close>

definition bump_row_version ::
  "ImageBlobUploadAttempt \<Rightarrow> ImageBlobUploadAttempt \<Rightarrow> err + ImageBlobUploadAttempt" where
  "bump_row_version new old =
     (if at_Version new \<noteq> at_Version old then Inl version_not_updatable
      else if new = old then Inr new
      else Inr (new\<lparr>at_Version := at_Version old + 1\<rparr>))"

text \<open>
  An update of a row: the \<open>SET\<close> list, the trigger (which runs before the generated column is
  computed and sees null there), then the generated column.
\<close>

definition update_row ::
  "(ImageBlobUploadAttempt \<Rightarrow> ImageBlobUploadAttempt) \<Rightarrow> ImageBlobUploadAttempt \<Rightarrow> err + ImageBlobUploadAttempt" where
  "update_row set_list old =
     (case bump_row_version ((set_list old)\<lparr>at_PartCount := None\<rparr>) old of
        Inl e \<Rightarrow> Inl e
      | Inr new \<Rightarrow> Inr (set_generated new))"

section \<open>INSERT ... ON CONFLICT ... DO UPDATE\<close>

text \<open>
  \<open>us_rows\<close> are the rows the statement touched, each with its old version (null if inserted).
\<close>

record upsert_state =
  us_attempts :: "ImageBlobUploadAttempt list"
  us_seq :: int
  us_uuid :: nat
  us_rows :: "(ImageBlobUploadAttempt option \<times> ImageBlobUploadAttempt) list"

definition find_pending :: "bytes \<times> uuid \<Rightarrow> ImageBlobUploadAttempt list \<Rightarrow> ImageBlobUploadAttempt option" where
  "find_pending k as = find (\<lambda>a. is_pending a \<and> pending_key a = k) as"

definition replace_row :: "ImageBlobUploadAttempt \<Rightarrow> ImageBlobUploadAttempt list \<Rightarrow> ImageBlobUploadAttempt list" where
  "replace_row new as = map (\<lambda>a. if at_ID a = at_ID new then new else a) as"

definition ids_of :: "(ImageBlobUploadAttempt option \<times> ImageBlobUploadAttempt) list \<Rightarrow> int set" where
  "ids_of rows = (\<lambda>r. at_ID (snd r)) ` set rows"

fun upsert_loop ::
  "(nat \<Rightarrow> int \<Rightarrow> 'i \<Rightarrow> err + ImageBlobUploadAttempt) \<Rightarrow>
   (ImageBlobUploadAttempt \<Rightarrow> ImageBlobUploadAttempt) \<Rightarrow>
   'i list \<Rightarrow> upsert_state \<Rightarrow> err option \<times> upsert_state" where
  "upsert_loop propose on_conflict [] us = (None, us)"
| "upsert_loop propose on_conflict (x # xs) us =
     (let us' = us\<lparr>us_seq := us_seq us + 1, us_uuid := us_uuid us + 1\<rparr>
      in case propose (us_uuid us) (us_seq us) x of
           Inl e \<Rightarrow> (Some e, us')
         | Inr row \<Rightarrow>
             (case find_pending (pending_key row) (us_attempts us) of
                None \<Rightarrow>
                  upsert_loop propose on_conflict xs
                    (us'\<lparr>us_attempts := us_attempts us @ [row], us_rows := us_rows us @ [(None, row)]\<rparr>)
              | Some old \<Rightarrow>
                  if at_ID old \<in> ids_of (us_rows us) then (Some second_update, us')
                  else (case update_row on_conflict old of
                      Inl e \<Rightarrow> (Some e, us')
                    | Inr new \<Rightarrow>
                        upsert_loop propose on_conflict xs
                          (us'\<lparr>us_attempts := replace_row new (us_attempts us),
                             us_rows := us_rows us @ [(Some old, new)]\<rparr>))))"

text \<open>
  The statement: the loop, the \<open>RETURNING\<close> list of each row (\<open>returning\<close>), then the check of the
  foreign key to \<open>lots\<close>.
\<close>

definition upsert_start :: "db \<Rightarrow> upsert_state" where
  "upsert_start d = \<lparr>us_attempts = attempts d, us_seq = attempt_seq d, us_uuid = uuid_ctr d, us_rows = []\<rparr>"

fun returning_rows :: "(ImageBlobUploadAttempt option \<Rightarrow> ImageBlobUploadAttempt \<Rightarrow> err + 'r) \<Rightarrow>
   (ImageBlobUploadAttempt option \<times> ImageBlobUploadAttempt) list \<Rightarrow> err + 'r list" where
  "returning_rows ret [] = Inr []"
| "returning_rows ret ((old, new) # rs) =
     (case ret old new of
        Inl e \<Rightarrow> Inl e
      | Inr r \<Rightarrow> (case returning_rows ret rs of Inl e \<Rightarrow> Inl e | Inr rs' \<Rightarrow> Inr (r # rs')))"

definition upsert_statement ::
  "(nat \<Rightarrow> int \<Rightarrow> 'i \<Rightarrow> err + ImageBlobUploadAttempt) \<Rightarrow>
   (ImageBlobUploadAttempt \<Rightarrow> ImageBlobUploadAttempt) \<Rightarrow>
   (ImageBlobUploadAttempt option \<Rightarrow> ImageBlobUploadAttempt \<Rightarrow> err + 'r) \<Rightarrow>
   'i list \<Rightarrow> (db, err, 'r list) prog" where
  "upsert_statement propose on_conflict ret xs = (\<lambda>d.
     let (e, us) = upsert_loop propose on_conflict xs (upsert_start d);
         failed = d\<lparr>attempt_seq := us_seq us, uuid_ctr := us_uuid us\<rparr>
     in case e of
          Some e \<Rightarrow> (Fail e, failed)
        | None \<Rightarrow>
            (case returning_rows ret (us_rows us) of
               Inl e \<Rightarrow> (Fail e, failed)
             | Inr rows \<Rightarrow>
                 if \<exists>(old, new) \<in> set (us_rows us). at_LotID new \<notin> lot_ids d
                 then (Fail (fk_violation ''image_blob_upload_attempts'' attempts_lot_fkey), failed)
                 else (Ret rows, failed\<lparr>attempts := us_attempts us\<rparr>)))"

section \<open>InsertSinglePartUpload\<close>

record InsertSinglePartUploadParams =
  sp_UploadType :: upload_type
  sp_LotID :: uuid
  sp_Username :: string
  sp_Sha256s :: "string list"
  sp_FileSizes :: "int32 list"
  sp_ContentTypes :: "string list"
  sp_FilesNames :: "string list"

record InsertSinglePartUploadRow =
  sr_Sha256 :: string
  sr_StorageKey :: uuid
  sr_IsInserted :: bool

type_synonym single_input = "string option \<times> int32 option \<times> string option \<times> string option"

definition single_inputs :: "InsertSinglePartUploadParams \<Rightarrow> single_input list" where
  "single_inputs p =
     (let n = max (length (sp_Sha256s p)) (max (length (sp_FileSizes p))
                (max (length (sp_ContentTypes p)) (length (sp_FilesNames p))))
      in zip (pad n (sp_Sha256s p)) (zip (pad n (sp_FileSizes p))
           (zip (pad n (sp_ContentTypes p)) (pad n (sp_FilesNames p)))))"

text \<open>A null in a \<open>NOT NULL\<close> column.\<close>

definition required :: "string \<Rightarrow> 'a option \<Rightarrow> err + 'a" where
  "required col v = (case v of
      None \<Rightarrow> Inl (not_null_violation ''image_blob_upload_attempts'' col) | Some x \<Rightarrow> Inr x)"

definition assign_optional :: "nat \<Rightarrow> string option \<Rightarrow> err + string option" where
  "assign_optional n v = (case v of
      None \<Rightarrow> Inr None
    | Some s \<Rightarrow> (case assign_varchar n s of Inl e \<Rightarrow> Inl e | Inr t \<Rightarrow> Inr (Some t)))"

definition decode_optional :: "string option \<Rightarrow> err + bytes option" where
  "decode_optional v = (case v of
      None \<Rightarrow> Inr None
    | Some s \<Rightarrow> (case sql_decode_hex (cast_char64 s) of Inl e \<Rightarrow> Inl e | Inr b \<Rightarrow> Inr (Some b)))"

definition bind_sum :: "'e + 'a \<Rightarrow> ('a \<Rightarrow> 'e + 'b) \<Rightarrow> 'e + 'b" where
  "bind_sum m f = (case m of Inl e \<Rightarrow> Inl e | Inr a \<Rightarrow> f a)"

text \<open>The row to insert, with the defaults of the columns the statement does not name.\<close>

definition single_propose ::
  "sql_env \<Rightarrow> InsertSinglePartUploadParams \<Rightarrow> nat \<Rightarrow> int \<Rightarrow> single_input \<Rightarrow> err + ImageBlobUploadAttempt" where
  "single_propose env p draw seq = (\<lambda>(sha, fsize, ctype, fname).
     bind_sum (decode_optional sha) (\<lambda>sha_bytes.
     bind_sum (assign_optional 250 fname) (\<lambda>file_name.
     bind_sum (assign_varchar 128 (sp_Username p)) (\<lambda>username.
     bind_sum (required ''sha256'' sha_bytes) (\<lambda>sha256.
     bind_sum (required ''file_size'' fsize) (\<lambda>file_size.
     bind_sum (required ''content_type'' ctype) (\<lambda>content_type.
       Inr (set_generated \<lparr>at_ID = seq, at_Sha256 = sha256, at_FileSize = sint file_size,
         at_ContentType = content_type, at_UploadType = sp_UploadType p, at_UploadID = None,
         at_PartSize = None, at_PartCount = None, at_LotID = sp_LotID p, at_FileName = file_name,
         at_StorageKey = gen_random_uuid env draw, at_Username = username, at_UploadState = Pending,
         at_Version = 0, at_ValidUntil = Some (txn_now env + five_days), at_Verified = Some False\<rparr>))))))))"

text \<open>\<open>SET storage_key = image_blob_upload_attempts.storage_key\<close>\<close>

definition single_on_conflict :: "ImageBlobUploadAttempt \<Rightarrow> ImageBlobUploadAttempt" where
  "single_on_conflict old = old\<lparr>at_StorageKey := at_StorageKey old\<rparr>"

definition single_returning ::
  "ImageBlobUploadAttempt option \<Rightarrow> ImageBlobUploadAttempt \<Rightarrow> err + InsertSinglePartUploadRow" where
  "single_returning old new =
     Inr \<lparr>sr_Sha256 = hex_encode (at_Sha256 new), sr_StorageKey = at_StorageKey new, sr_IsInserted = (old = None)\<rparr>"

definition sql_InsertSinglePartUpload ::
  "sql_env \<Rightarrow> InsertSinglePartUploadParams \<Rightarrow> (db, err, InsertSinglePartUploadRow list) prog" where
  "sql_InsertSinglePartUpload env p =
     upsert_statement (single_propose env p) single_on_conflict single_returning (single_inputs p)"

section \<open>InsertAndValidateMultiPartUpload\<close>

record InsertAndValidateMultiPartUploadParams =
  mp_UploadType :: upload_type
  mp_PartSize :: int
  mp_LotID :: uuid
  mp_Username :: string
  mp_Sha256s :: "string list"
  mp_FileSizes :: "int32 list"
  mp_ContentTypes :: "string list"
  mp_UploadIds :: "string list"
  mp_FileNames :: "string list"
  mp_StorageKeys :: "uuid list"

record InsertAndValidateMultiPartUploadRow =
  mr_PartSize :: "int option"
  mr_ImageBlobUploadAttemptID :: int
  mr_Sha256 :: string
  mr_StorageKey :: uuid
  mr_UploadID :: "string option"
  mr_Parts :: "int16 list"
  mr_IsInserted :: bool
  mr_IsValid :: bool

type_synonym multi_input =
  "string option \<times> int32 option \<times> string option \<times> string option \<times> string option \<times> uuid option"

definition multi_inputs :: "InsertAndValidateMultiPartUploadParams \<Rightarrow> multi_input list" where
  "multi_inputs p =
     (let n = max (length (mp_Sha256s p)) (max (length (mp_FileSizes p)) (max (length (mp_ContentTypes p))
                (max (length (mp_UploadIds p)) (max (length (mp_FileNames p)) (length (mp_StorageKeys p))))))
      in zip (pad n (mp_Sha256s p)) (zip (pad n (mp_FileSizes p)) (zip (pad n (mp_ContentTypes p))
           (zip (pad n (mp_UploadIds p)) (zip (pad n (mp_FileNames p)) (pad n (mp_StorageKeys p)))))))"

definition multi_propose ::
  "sql_env \<Rightarrow> InsertAndValidateMultiPartUploadParams \<Rightarrow> nat \<Rightarrow> int \<Rightarrow> multi_input \<Rightarrow> err + ImageBlobUploadAttempt" where
  "multi_propose env p draw seq = (\<lambda>(sha, fsize, ctype, upload_id, fname, skey).
     bind_sum (decode_optional sha) (\<lambda>sha_bytes.
     bind_sum (required ''sha256'' sha_bytes) (\<lambda>sha256.
     bind_sum (required ''file_size'' fsize) (\<lambda>file_size.
     bind_sum (required ''content_type'' ctype) (\<lambda>content_type.
     bind_sum (required ''storage_key'' skey) (\<lambda>storage_key.
       Inr (set_generated \<lparr>at_ID = seq, at_Sha256 = sha256, at_FileSize = sint file_size,
         at_ContentType = content_type, at_UploadType = mp_UploadType p, at_UploadID = upload_id,
         at_PartSize = Some (mp_PartSize p), at_PartCount = None, at_LotID = mp_LotID p,
         at_FileName = map_option (cast_varchar 250) fname, at_StorageKey = storage_key,
         at_Username = cast_varchar 128 (mp_Username p), at_UploadState = Pending, at_Version = 0,
         at_ValidUntil = Some (txn_now env + five_days), at_Verified = Some False\<rparr>)))))))"

definition still_valid :: "sql_env \<Rightarrow> ImageBlobUploadAttempt \<Rightarrow> bool" where
  "still_valid env a = (case at_ValidUntil a of None \<Rightarrow> False | Some t \<Rightarrow> txn_now env \<le> t)"

definition multi_on_conflict ::
  "sql_env \<Rightarrow> InsertAndValidateMultiPartUploadParams \<Rightarrow> ImageBlobUploadAttempt \<Rightarrow> ImageBlobUploadAttempt" where
  "multi_on_conflict env p old = old\<lparr>
     at_PartSize := (if still_valid env old then at_PartSize old else Some (mp_PartSize p)),
     at_ValidUntil := (if still_valid env old then at_ValidUntil old else Some (txn_now env + five_days))\<rparr>"

definition multi_returning ::
  "sql_env \<Rightarrow> ImageBlobUploadAttempt option \<Rightarrow> ImageBlobUploadAttempt \<Rightarrow> err + InsertAndValidateMultiPartUploadRow" where
  "multi_returning env old new =
     bind_sum (parts_array (at_PartCount new)) (\<lambda>parts.
       Inr \<lparr>mr_PartSize = at_PartSize new, mr_ImageBlobUploadAttemptID = at_ID new,
         mr_Sha256 = hex_encode (at_Sha256 new), mr_StorageKey = at_StorageKey new,
         mr_UploadID = at_UploadID new, mr_Parts = parts, mr_IsInserted = (old = None),
         mr_IsValid = (case old of None \<Rightarrow> False | Some o' \<Rightarrow> still_valid env o')\<rparr>)"

definition sql_InsertAndValidateMultiPartUpload ::
  "sql_env \<Rightarrow> InsertAndValidateMultiPartUploadParams \<Rightarrow> (db, err, InsertAndValidateMultiPartUploadRow list) prog" where
  "sql_InsertAndValidateMultiPartUpload env p =
     upsert_statement (multi_propose env p) (multi_on_conflict env p) (multi_returning env) (multi_inputs p)"

section \<open>InsertIdenticalImageBlobsToLotImages\<close>

record InsertIdenticalImageBlobsToLotImagesParams =
  ip_LotID :: uuid
  ip_Sha256s :: "string list"
  ip_FileNames :: "string list"

record InsertIdenticalImageBlobsToLotImagesRow =
  ir_LotImageID :: int
  ir_FileName :: string
  ir_ImageBlobID :: int
  ir_Sha256 :: string

definition identical_inputs :: "InsertIdenticalImageBlobsToLotImagesParams \<Rightarrow> (string option \<times> string option) list" where
  "identical_inputs p =
     (let n = max (length (ip_Sha256s p)) (length (ip_FileNames p))
      in zip (pad n (ip_Sha256s p)) (pad n (ip_FileNames p)))"

text \<open>The completed blob with a hash; \<open>image_blobs.sha256\<close> is unique, so there is at most one.\<close>

definition completed_blob :: "db \<Rightarrow> bytes \<Rightarrow> ImageBlob option" where
  "completed_blob d sha = find (\<lambda>b. ib_Sha256 b = sha \<and> ib_IsUploadCompleted b) (image_blobs d)"

text \<open>
  The rows that the data-modifying \<open>WITH\<close> clause inserts, one for each input that joins a completed
  blob, together with what the outer \<open>SELECT\<close> reads of them. Every input hash is decoded.
\<close>

fun insert_identical ::
  "db \<Rightarrow> uuid \<Rightarrow> (string option \<times> string option) list \<Rightarrow> int \<Rightarrow>
   (err + (LotImage \<times> InsertIdenticalImageBlobsToLotImagesRow) list) \<times> int" where
  "insert_identical d lot [] seq = (Inr [], seq)"
| "insert_identical d lot ((sha, name) # xs) seq =
     (case decode_optional sha of
        Inl e \<Rightarrow> (Inl e, seq)
      | Inr sha_bytes \<Rightarrow>
          (case Option.bind sha_bytes (completed_blob d) of
             None \<Rightarrow> insert_identical d lot xs seq
           | Some b \<Rightarrow>
               (case name of
                  None \<Rightarrow> (Inl (not_null_violation ''lot_images'' ''file_name''), seq + 1)
                | Some nm \<Rightarrow>
                    (let file_name = cast_varchar 250 nm;
                         img = \<lparr>li_LotImageID = seq, li_LotID = lot, li_ImageBlobID = ib_ImageBlobID b, li_FileName = file_name\<rparr>;
                         row = \<lparr>ir_LotImageID = seq, ir_FileName = file_name, ir_ImageBlobID = ib_ImageBlobID b,
                                ir_Sha256 = hex_encode (ib_Sha256 b)\<rparr>
                     in case insert_identical d lot xs (seq + 1) of
                          (Inl e, seq') \<Rightarrow> (Inl e, seq')
                        | (Inr rs, seq') \<Rightarrow> (Inr ((img, row) # rs), seq')))))"

definition sql_InsertIdenticalImageBlobsToLotImages ::
  "InsertIdenticalImageBlobsToLotImagesParams \<Rightarrow> (db, err, InsertIdenticalImageBlobsToLotImagesRow list) prog" where
  "sql_InsertIdenticalImageBlobsToLotImages p = (\<lambda>d.
     let (res, seq) = insert_identical d (ip_LotID p) (identical_inputs p) (lot_image_seq d);
         failed = d\<lparr>lot_image_seq := seq\<rparr>
     in case res of
          Inl e \<Rightarrow> (Fail e, failed)
        | Inr rs \<Rightarrow>
            if rs \<noteq> [] \<and> ip_LotID p \<notin> lot_ids d
            then (Fail (fk_violation ''lot_images'' lot_images_lot_fkey), failed)
            else (Ret (map snd rs), failed\<lparr>lot_images := lot_images d @ map fst rs\<rparr>))"

section \<open>GetMultiPartUploadItem, CheckIdenticalBlobs, CreateLot\<close>

record GetMultiPartUploadItemRow =
  gr_UploadID :: "string option"
  gr_StorageKey :: uuid
  gr_PartCount :: "int option"

definition sql_GetMultiPartUploadItem :: "int \<Rightarrow> (db, err, GetMultiPartUploadItemRow) prog" where
  "sql_GetMultiPartUploadItem multipartAttemptID = (\<lambda>d.
     case find (\<lambda>a. at_ID a = multipartAttemptID) (attempts d) of
       None \<Rightarrow> (Fail (Leaf ErrNoRows), d)
     | Some a \<Rightarrow> (Ret \<lparr>gr_UploadID = at_UploadID a, gr_StorageKey = at_StorageKey a, gr_PartCount = at_PartCount a\<rparr>, d))"

definition sql_CheckIdenticalBlobs :: "(db, err, (int \<times> bytes) list) prog" where
  "sql_CheckIdenticalBlobs = (\<lambda>d.
     (Ret (map (\<lambda>b. (ib_ImageBlobID b, ib_Sha256 b)) (filter ib_IsUploadCompleted (image_blobs d))), d))"

record CreateLotParams =
  cl_Title :: string
  cl_Description :: string
  cl_Category :: "string option"
  cl_BidOpeningPrice :: "int32 option"

definition lots_pkey :: string where
  "lots_pkey = ''lots_pkey''"

definition sql_CreateLot :: "sql_env \<Rightarrow> CreateLotParams \<Rightarrow> (db, err, uuid) prog" where
  "sql_CreateLot env p = (\<lambda>d.
     let drawn = d\<lparr>uuid_ctr := uuid_ctr d + 1\<rparr>;
         new_id = gen_random_uuid env (uuid_ctr d)
     in case bind_sum (assign_varchar 260 (cl_Title p)) (\<lambda>title.
             bind_sum (assign_varchar 450 (cl_Description p)) (\<lambda>descr.
             bind_sum (assign_optional 260 (cl_Category p)) (\<lambda>category.
               Inr \<lparr>lot_ID = new_id, lot_Title = title, lot_Description = descr,
                 lot_Category = category, lot_BidOpeningPrice = cl_BidOpeningPrice p\<rparr>))) of
          Inl e \<Rightarrow> (Fail e, drawn)
        | Inr lot \<Rightarrow>
            if new_id \<in> lot_ids d then (Fail (unique_violation lots_pkey), drawn)
            else (Ret new_id, drawn\<lparr>lots := lots d @ [lot]\<rparr>))"

section \<open>The methods of Queries\<close>

text \<open>
  A query method sends its statement over the connection. \<open>fault\<close> is the error of the connection or
  of the context when the statement does not reach the server; otherwise the statement runs.
\<close>

definition run_query :: "err option \<Rightarrow> (db, err, 'r) prog \<Rightarrow> (db, err, 'r) prog" where
  "run_query fault stmt = (case fault of Some e \<Rightarrow> liftp (Fail e) | None \<Rightarrow> stmt)"

datatype query = QInsertIdentical | QInsertSingle | QInsertMulti | QGetItem | QCheckIdentical | QCreateLot

type_synonym faults = "query \<Rightarrow> err option"

definition InsertSinglePartUpload ::
  "faults \<Rightarrow> sql_env \<Rightarrow> InsertSinglePartUploadParams \<Rightarrow> (db, err, InsertSinglePartUploadRow list) prog" where
  "InsertSinglePartUpload fault env arg = run_query (fault QInsertSingle) (sql_InsertSinglePartUpload env arg)"

definition InsertAndValidateMultiPartUpload ::
  "faults \<Rightarrow> sql_env \<Rightarrow> InsertAndValidateMultiPartUploadParams \<Rightarrow> (db, err, InsertAndValidateMultiPartUploadRow list) prog" where
  "InsertAndValidateMultiPartUpload fault env arg =
     run_query (fault QInsertMulti) (sql_InsertAndValidateMultiPartUpload env arg)"

definition InsertIdenticalImageBlobsToLotImages ::
  "faults \<Rightarrow> InsertIdenticalImageBlobsToLotImagesParams \<Rightarrow> (db, err, InsertIdenticalImageBlobsToLotImagesRow list) prog" where
  "InsertIdenticalImageBlobsToLotImages fault arg =
     run_query (fault QInsertIdentical) (sql_InsertIdenticalImageBlobsToLotImages arg)"

definition GetMultiPartUploadItem :: "faults \<Rightarrow> int \<Rightarrow> (db, err, GetMultiPartUploadItemRow) prog" where
  "GetMultiPartUploadItem fault multipartAttemptID =
     run_query (fault QGetItem) (sql_GetMultiPartUploadItem multipartAttemptID)"

definition CheckIdenticalBlobs :: "faults \<Rightarrow> (db, err, (int \<times> bytes) list) prog" where
  "CheckIdenticalBlobs fault = run_query (fault QCheckIdentical) sql_CheckIdenticalBlobs"

definition CreateLot :: "faults \<Rightarrow> sql_env \<Rightarrow> CreateLotParams \<Rightarrow> (db, err, uuid) prog" where
  "CreateLot fault env arg = run_query (fault QCreateLot) (sql_CreateLot env arg)"

end
