(* ===== verification/Filestore_Laws.thy ===== *)
theory Filestore_Laws
  imports Filestore_Queries
begin

text \<open>
  What the statements of \<open>Filestore_Queries\<close> promise.

  \<^item> the interface \<open>upsert\<close>: its assumptions are what the two upload statements have in common, its
    lemmas are the contract of the loop (well-formedness, one row per input, which rows are new,
    which rows stay as they were, when it succeeds);
  \<^item> its interpretations \<open>single_upsert\<close> and \<open>multi_upsert\<close> on the two statements;
  \<^item> preservation of \<open>db_wf\<close> by every statement.
\<close>

section \<open>Rows and keys\<close>

lemma find_pending_SomeD:
  "find_pending k as = Some a \<Longrightarrow> a \<in> set as \<and> is_pending a \<and> pending_key a = k"
  by (auto simp: find_pending_def find_Some_iff)

lemma find_pending_None_iff:
  "find_pending k as = None \<longleftrightarrow> (\<forall>a \<in> set as. is_pending a \<longrightarrow> pending_key a \<noteq> k)"
  by (auto simp: find_pending_def find_None_iff)

lemma attempts_wf_same_id: "attempts_wf as n \<Longrightarrow> a \<in> set as \<Longrightarrow> b \<in> set as \<Longrightarrow> at_ID a = at_ID b \<Longrightarrow> a = b"
  by (auto simp: attempts_wf_def distinct_map inj_on_def)

lemma attempts_wf_same_key:
  "attempts_wf as n \<Longrightarrow> a \<in> set as \<Longrightarrow> b \<in> set as \<Longrightarrow> is_pending a \<Longrightarrow> is_pending b \<Longrightarrow>
   pending_key a = pending_key b \<Longrightarrow> a = b"
  by (auto simp: attempts_wf_def distinct_map inj_on_def)

lemma find_pending_eq:
  assumes "attempts_wf as n" and "a \<in> set as" and "is_pending a"
  shows "find_pending (pending_key a) as = Some a"
proof (cases "find_pending (pending_key a) as")
  case None
  with assms show ?thesis by (auto simp: find_pending_None_iff)
next
  case (Some b)
  with assms show ?thesis by (auto dest!: find_pending_SomeD intro: attempts_wf_same_key)
qed

definition generated_ok :: "ImageBlobUploadAttempt \<Rightarrow> bool" where
  "generated_ok a \<longleftrightarrow> at_PartCount a = gen_part_count (at_UploadType a) (at_FileSize a) (at_PartSize a)"

lemma attempts_wf_insert:
  assumes "attempts_wf as n" and "at_ID row = n" and "is_pending row" and "generated_ok row"
    and "find_pending (pending_key row) as = None"
  shows "attempts_wf (as @ [row]) (n + 1)"
  using assms by (fastforce simp: attempts_wf_def find_pending_None_iff generated_ok_def)

definition same_identity :: "ImageBlobUploadAttempt \<Rightarrow> ImageBlobUploadAttempt \<Rightarrow> bool" where
  "same_identity old new \<longleftrightarrow>
     at_ID new = at_ID old \<and> at_Sha256 new = at_Sha256 old \<and> at_LotID new = at_LotID old \<and>
     at_UploadState new = at_UploadState old \<and> at_StorageKey new = at_StorageKey old \<and>
     at_UploadID new = at_UploadID old \<and> at_UploadType new = at_UploadType old \<and>
     at_FileSize new = at_FileSize old"

lemma same_identityD:
  assumes "same_identity old new"
  shows "at_ID new = at_ID old" and "pending_key new = pending_key old"
    and "is_pending new \<longleftrightarrow> is_pending old"
  using assms by (simp_all add: same_identity_def pending_key_def is_pending_def)

lemma in_replace_row: "a \<in> set (replace_row new as) \<longleftrightarrow>
    (a = new \<and> at_ID new \<in> at_ID ` set as) \<or> (a \<in> set as \<and> at_ID a \<noteq> at_ID new)"
  by (auto simp: replace_row_def split: if_splits intro: rev_image_eqI)

lemma map_replace_row:
  assumes "\<And>a. a \<in> set as \<Longrightarrow> at_ID a = at_ID new \<Longrightarrow> f a = f new"
  shows "map f (replace_row new as) = map f as"
  using assms by (auto simp: replace_row_def)

lemma filter_replace_row:
  assumes "\<And>a. a \<in> set as \<Longrightarrow> at_ID a = at_ID new \<Longrightarrow> f a = f new \<and> (P a \<longleftrightarrow> P new)"
  shows "map f (filter P (replace_row new as)) = map f (filter P as)"
  using assms by (induction as) (auto simp: replace_row_def)

lemma attempts_wf_replace:
  assumes wf: "attempts_wf as n" and old: "old \<in> set as" and same: "same_identity old new"
    and gen: "generated_ok new"
  shows "attempts_wf (replace_row new as) n"
proof -
  have eq: "a = old" if "a \<in> set as" "at_ID a = at_ID new" for a
    using attempts_wf_same_id [OF wf that(1) old] that(2) same by (simp add: same_identityD)
  have "map at_ID (replace_row new as) = map at_ID as"
    by (rule map_replace_row) simp
  moreover have "map pending_key (filter is_pending (replace_row new as)) = map pending_key (filter is_pending as)"
    by (rule filter_replace_row) (auto dest!: eq simp: same_identityD [OF same])
  ultimately show ?thesis
    using wf gen old by (auto simp: attempts_wf_def generated_ok_def in_replace_row same_identityD [OF same])
qed

lemma ids_of_simps [simp]:
  "ids_of [] = {}" "ids_of (rs @ rs') = ids_of rs \<union> ids_of rs'" "ids_of (r # rs) = insert (at_ID (snd r)) (ids_of rs)"
  by (auto simp: ids_of_def)

lemma ids_ofI: "r \<in> set rs \<Longrightarrow> at_ID (snd r) \<in> ids_of rs"
  by (simp add: ids_of_def)

section \<open>The contract of an upsert\<close>

locale upsert =
  fixes propose :: "nat \<Rightarrow> int \<Rightarrow> 'i \<Rightarrow> err + ImageBlobUploadAttempt"
    and on_conflict :: "ImageBlobUploadAttempt \<Rightarrow> ImageBlobUploadAttempt"
    and key :: "'i \<Rightarrow> bytes \<times> uuid"
  assumes propose_row:
      "propose u i x = Inr a \<Longrightarrow> at_ID a = i \<and> is_pending a \<and> generated_ok a \<and> pending_key a = key x"
    and conflict_keeps: "same_identity a (on_conflict a)"
    and conflict_version: "at_Version (on_conflict a) = at_Version a"
begin

lemma update_row_total: "\<exists>new. update_row on_conflict old = Inr new"
  by (simp add: update_row_def bump_row_version_def conflict_version)

lemma update_row_eq:
  assumes "update_row on_conflict old = Inr new"
  obtains v where "new = set_generated ((on_conflict old)\<lparr>at_PartCount := None, at_Version := v\<rparr>)"
proof -
  let ?c = "on_conflict old"
  have "at_Version (?c\<lparr>at_PartCount := None\<rparr>) = at_Version old" by (simp add: conflict_version)
  then have "new = set_generated (?c\<lparr>at_PartCount := None\<rparr>) \<or>
      new = set_generated (?c\<lparr>at_PartCount := None, at_Version := at_Version old + 1\<rparr>)"
    using assms unfolding update_row_def bump_row_version_def by (simp split: if_splits)
  moreover have "?c\<lparr>at_PartCount := None\<rparr> = ?c\<lparr>at_PartCount := None, at_Version := at_Version ?c\<rparr>"
    by simp
  ultimately show thesis using that by metis
qed

lemma update_row_same:
  assumes "update_row on_conflict old = Inr new"
  shows "same_identity old new" and "generated_ok new" and "at_PartSize new = at_PartSize (on_conflict old)"
    and "at_ValidUntil new = at_ValidUntil (on_conflict old)"
proof -
  obtain v where "new = set_generated ((on_conflict old)\<lparr>at_PartCount := None, at_Version := v\<rparr>)"
    using assms by (rule update_row_eq)
  then show "same_identity old new" and "generated_ok new" and "at_PartSize new = at_PartSize (on_conflict old)"
    and "at_ValidUntil new = at_ValidUntil (on_conflict old)"
    using conflict_keeps [of old] by (simp_all add: same_identity_def generated_ok_def)
qed

text \<open>How a row of the result relates to its input and to the tables before and after.\<close>

definition row_ok :: "ImageBlobUploadAttempt list \<Rightarrow> 'i \<Rightarrow> ImageBlobUploadAttempt option \<times> ImageBlobUploadAttempt \<Rightarrow> bool" where
  "row_ok start x r \<longleftrightarrow> is_pending (snd r) \<and> pending_key (snd r) = key x \<and>
     (case fst r of
        None \<Rightarrow> find_pending (key x) start = None \<and> (\<exists>u i. propose u i x = Inr (snd r))
      | Some old \<Rightarrow> find_pending (key x) start = Some old \<and> update_row on_conflict old = Inr (snd r))"

text \<open>
  The invariant of the loop that started from the rows \<open>start\<close>, with next identity \<open>n0\<close>.
\<close>

definition loop_inv :: "ImageBlobUploadAttempt list \<Rightarrow> upsert_state \<Rightarrow> bool" where
  "loop_inv start us \<longleftrightarrow>
     attempts_wf (us_attempts us) (us_seq us) \<and>
     (\<forall>r \<in> set (us_rows us). snd r \<in> set (us_attempts us) \<and> is_pending (snd r)) \<and>
     (\<forall>a \<in> set (us_attempts us). at_ID a \<in> ids_of (us_rows us) \<or> a \<in> set start) \<and>
     (\<forall>a \<in> set start. at_ID a \<in> ids_of (us_rows us) \<or> a \<in> set (us_attempts us)) \<and>
     (\<forall>a \<in> set start. \<exists>a' \<in> set (us_attempts us). same_identity a a')"

lemma loop_invI:
  assumes "attempts_wf (us_attempts us) (us_seq us)"
    and "\<And>r. r \<in> set (us_rows us) \<Longrightarrow> snd r \<in> set (us_attempts us) \<and> is_pending (snd r)"
    and "\<And>a. a \<in> set (us_attempts us) \<Longrightarrow> at_ID a \<in> ids_of (us_rows us) \<or> a \<in> set start"
    and "\<And>a. a \<in> set start \<Longrightarrow> at_ID a \<in> ids_of (us_rows us) \<or> a \<in> set (us_attempts us)"
    and "\<And>a. a \<in> set start \<Longrightarrow> \<exists>a' \<in> set (us_attempts us). same_identity a a'"
  shows "loop_inv start us"
  unfolding loop_inv_def using assms by (intro conjI ballI) simp_all

lemma loop_invD:
  assumes "loop_inv start us"
  shows "attempts_wf (us_attempts us) (us_seq us)"
    and "r \<in> set (us_rows us) \<Longrightarrow> snd r \<in> set (us_attempts us) \<and> is_pending (snd r)"
    and "a \<in> set (us_attempts us) \<Longrightarrow> at_ID a \<in> ids_of (us_rows us) \<or> a \<in> set start"
    and "a \<in> set start \<Longrightarrow> at_ID a \<in> ids_of (us_rows us) \<or> a \<in> set (us_attempts us)"
    and "a \<in> set start \<Longrightarrow> \<exists>a' \<in> set (us_attempts us). same_identity a a'"
  using assms unfolding loop_inv_def by simp_all

lemma loop_inv_start: "attempts_wf (attempts d) (attempt_seq d) \<Longrightarrow> loop_inv (attempts d) (upsert_start d)"
  by (auto simp: loop_inv_def upsert_start_def same_identity_def)

lemma loop_inv_find_start:
  assumes inv: "loop_inv start us" and wf: "attempts_wf start n"
    and none: "find_pending k (us_attempts us) = None"
  shows "find_pending k start = None"
  unfolding find_pending_None_iff
proof (intro ballI impI)
  fix a assume "a \<in> set start" and "is_pending a"
  with inv obtain a' where "a' \<in> set (us_attempts us)" and s: "same_identity a a'"
    by (auto simp: loop_inv_def)
  moreover from s \<open>is_pending a\<close> have "is_pending a'" by (simp add: same_identityD)
  ultimately have "pending_key a' \<noteq> k" using none by (simp add: find_pending_None_iff)
  with s show "pending_key a \<noteq> k" by (simp add: same_identityD)
qed

lemma loop_inv_insert:
  assumes inv: "loop_inv start us" and row: "propose u (us_seq us) x = Inr row"
    and none: "find_pending (pending_key row) (us_attempts us) = None"
  shows "loop_inv start (us\<lparr>us_seq := us_seq us + 1, us_uuid := v,
           us_attempts := us_attempts us @ [row], us_rows := us_rows us @ [(None, row)]\<rparr>)"
proof -
  from propose_row [OF row] have "at_ID row = us_seq us" "is_pending row" "generated_ok row" by auto
  with inv none have "attempts_wf (us_attempts us @ [row]) (us_seq us + 1)"
    by (intro attempts_wf_insert) (auto simp: loop_inv_def)
  then show ?thesis
  proof (intro loop_invI, goal_cases)
    case (2 r) then show ?case using \<open>is_pending row\<close> loop_invD(2) [OF inv, of r] by auto
  next
    case (3 a) then show ?case using loop_invD(3) [OF inv, of a] by auto
  next
    case (4 a) then show ?case using loop_invD(4) [OF inv, of a] by auto
  next
    case (5 a) then show ?case using loop_invD(5) [OF inv, of a] by auto
  qed simp
qed

lemma loop_inv_update:
  assumes inv: "loop_inv start us" and old: "find_pending k (us_attempts us) = Some old"
    and untouched: "at_ID old \<notin> ids_of (us_rows us)"
    and new: "update_row on_conflict old = Inr new"
  shows "loop_inv start (us\<lparr>us_seq := us_seq us + 1, us_uuid := v,
           us_attempts := replace_row new (us_attempts us), us_rows := us_rows us @ [(Some old, new)]\<rparr>)"
proof -
  have old_in: "old \<in> set (us_attempts us)" and pend: "is_pending old"
    using old by (auto dest: find_pending_SomeD)
  have same: "same_identity old new" and gen: "generated_ok new"
    using update_row_same [OF new] by auto
  note id = same_identityD [OF same]
  have wf: "attempts_wf (us_attempts us) (us_seq us)" using inv by (simp add: loop_inv_def)
  have "attempts_wf (replace_row new (us_attempts us)) (us_seq us)"
    using wf old_in same gen by (rule attempts_wf_replace)
  then have wf': "attempts_wf (replace_row new (us_attempts us)) (us_seq us + 1)"
    by (auto simp: attempts_wf_def)
  have new_in: "new \<in> set (replace_row new (us_attempts us))"
    using old_in id by (auto simp: in_replace_row)
  have keep: "\<exists>a' \<in> set (replace_row new (us_attempts us)). same_identity a a'"
    if a: "a \<in> set start" for a
  proof -
    from inv a obtain b where b: "b \<in> set (us_attempts us)" and ab: "same_identity a b"
      by (auto simp: loop_inv_def)
    show ?thesis
    proof (cases "b = old")
      case True
      with ab same have "same_identity a new" by (simp add: same_identity_def)
      with new_in show ?thesis by blast
    next
      case False
      with attempts_wf_same_id [OF wf b old_in] id b have "b \<in> set (replace_row new (us_attempts us))"
        by (auto simp: in_replace_row)
      with ab show ?thesis by blast
    qed
  qed
  have rows: "snd r \<in> set (replace_row new (us_attempts us))" if "r \<in> set (us_rows us)" for r
    using loop_invD(2) [OF inv that] untouched id(1) ids_ofI [OF that] by (auto simp: in_replace_row)
  have others: "at_ID a = at_ID new \<or> a \<in> set (replace_row new (us_attempts us))"
    if "a \<in> set (us_attempts us)" for a
    using that by (auto simp: in_replace_row)
  show ?thesis
  proof (rule loop_invI, goal_cases)
    case 1 show ?case using wf' by simp
  next
    case (2 r) then show ?case using rows [of r] new_in pend id(3) loop_invD(2) [OF inv, of r] by auto
  next
    case (3 a) then show ?case using loop_invD(3) [OF inv, of a] by (auto simp: in_replace_row)
  next
    case (4 a) then show ?case using loop_invD(4) [OF inv, of a] others by auto
  next
    case (5 a) then show ?case using keep by simp
  qed
qed

lemma loop_inv_advance:
  "loop_inv start us \<Longrightarrow> loop_inv start (us\<lparr>us_seq := us_seq us + 1, us_uuid := v\<rparr>)"
  by (auto simp: loop_inv_def attempts_wf_def)

text \<open>The whole loop: the invariant, whatever the outcome, and one good row per input on success.\<close>

lemma upsert_loop_inv:
  assumes "attempts_wf start n" and "loop_inv start us"
    and "upsert_loop propose on_conflict xs us = (r, us')"
  shows "loop_inv start us' \<and> us_seq us \<le> us_seq us' \<and>
     (r = None \<longrightarrow> (\<exists>rs. us_rows us' = us_rows us @ rs \<and> list_all2 (row_ok start) xs rs))"
  using assms(2-)
proof (induction xs arbitrary: us)
  case Nil
  then show ?case by auto
next
  case (Cons x xs)
  let ?us = "us\<lparr>us_seq := us_seq us + 1, us_uuid := us_uuid us + 1\<rparr>"
  show ?case
  proof (cases "propose (us_uuid us) (us_seq us) x")
    case (Inl e)
    with Cons.prems show ?thesis by (auto intro: loop_inv_advance)
  next
    case (Inr row)
    note row = this and key = propose_row [OF this]
    show ?thesis
    proof (cases "find_pending (pending_key row) (us_attempts us)")
      case None
      let ?next = "?us\<lparr>us_attempts := us_attempts us @ [row], us_rows := us_rows us @ [(None, row)]\<rparr>"
      have "loop_inv start ?next"
        using loop_inv_insert [OF Cons.prems(1) row None, of "us_uuid us + 1"] by simp
      moreover have "upsert_loop propose on_conflict xs ?next = (r, us')"
        using Cons.prems(2) row None by simp
      ultimately have IH: "loop_inv start us' \<and> us_seq ?next \<le> us_seq us' \<and>
          (r = None \<longrightarrow> (\<exists>rs. us_rows us' = us_rows ?next @ rs \<and> list_all2 (row_ok start) xs rs))"
        by (rule Cons.IH)
      have "row_ok start x (None, row)"
        using key row loop_inv_find_start [OF Cons.prems(1) assms(1) None] by (auto simp: row_ok_def)
      with IH show ?thesis by auto
    next
      case (Some old)
      show ?thesis
      proof (cases "at_ID old \<in> ids_of (us_rows us)")
        case True
        with Cons.prems row Some show ?thesis by (auto intro: loop_inv_advance)
      next
        case False
        obtain new where new: "update_row on_conflict old = Inr new" using update_row_total by blast
        let ?next = "?us\<lparr>us_attempts := replace_row new (us_attempts us), us_rows := us_rows us @ [(Some old, new)]\<rparr>"
        have "loop_inv start ?next"
          using loop_inv_update [OF Cons.prems(1) Some False new, of "us_uuid us + 1"] by simp
        moreover have "upsert_loop propose on_conflict xs ?next = (r, us')"
          using Cons.prems(2) row Some False new by simp
        ultimately have IH: "loop_inv start us' \<and> us_seq ?next \<le> us_seq us' \<and>
            (r = None \<longrightarrow> (\<exists>rs. us_rows us' = us_rows ?next @ rs \<and> list_all2 (row_ok start) xs rs))"
          by (rule Cons.IH)
        have old': "old \<in> set (us_attempts us)" "is_pending old" "pending_key old = pending_key row"
          using Some by (auto dest: find_pending_SomeD)
        with Cons.prems(1) False have "old \<in> set start" by (auto simp: loop_inv_def)
        with assms(1) old' key have "find_pending (key x) start = Some old"
          by (metis find_pending_eq)
        then have "row_ok start x (Some old, new)"
          using key new old' same_identityD [OF update_row_same(1) [OF new]] by (auto simp: row_ok_def)
        with IH show ?thesis by auto
      qed
    qed
  qed
qed

end

section \<open>The contract of the statement\<close>

lemma returning_rows_Inr_iff:
  "returning_rows ret rows = Inr rs \<longleftrightarrow> list_all2 (\<lambda>row r. ret (fst row) (snd row) = Inr r) rows rs"
proof (induction rows arbitrary: rs)
  case (Cons row rows)
  obtain old new where row: "row = (old, new)" by (cases row)
  show ?case
  proof (cases rs)
    case (Cons r rs')
    have "returning_rows ret (row # rows) = Inr (r # rs') \<longleftrightarrow>
        ret old new = Inr r \<and> returning_rows ret rows = Inr rs'"
      by (auto simp: row split: sum.splits)
    with Cons.IH Cons row show ?thesis by simp
  qed (simp add: row split: sum.splits)
qed auto

lemma returning_rows_all: "(\<And>old new. (old, new) \<in> set rows \<Longrightarrow> ret old new = Inr (g old new)) \<Longrightarrow>
    returning_rows ret rows = Inr (map (\<lambda>(old, new). g old new) rows)"
  by (induction rows) auto

lemma returning_rows_ex:
  "(\<And>row. row \<in> set rows \<Longrightarrow> \<exists>r. ret (fst row) (snd row) = Inr r) \<Longrightarrow> \<exists>rs. returning_rows ret rows = Inr rs"
proof (induction rows)
  case (Cons row rows)
  obtain old new where "row = (old, new)" by (cases row)
  moreover from Cons.prems [of row] this obtain r where "ret old new = Inr r" by auto
  moreover from Cons obtain rs where "returning_rows ret rows = Inr rs" by auto
  ultimately show ?case by simp
qed simp

text \<open>Tables an upsert of attempts does not write.\<close>

definition same_other_tables :: "db \<Rightarrow> db \<Rightarrow> bool" where
  "same_other_tables d d' \<longleftrightarrow> lots d' = lots d \<and> image_blobs d' = image_blobs d \<and>
     lot_images d' = lot_images d \<and> lot_image_seq d' = lot_image_seq d"

lemma same_other_tables_lot_ids: "same_other_tables d d' \<Longrightarrow> lot_ids d' = lot_ids d"
  by (simp add: same_other_tables_def lot_ids_def)

lemma db_wf_attempts:
  assumes "db_wf d" and "same_other_tables d d'"
    and "attempts_wf (attempts d') (attempt_seq d')" and "\<forall>a \<in> set (attempts d'). at_LotID a \<in> lot_ids d"
  shows "db_wf d'"
  using assms by (simp add: db_wf_def same_other_tables_def lot_ids_def)

lemma attempts_wf_mono: "attempts_wf as n \<Longrightarrow> n \<le> m \<Longrightarrow> attempts_wf as m"
  by (auto simp: attempts_wf_def)

context upsert
begin

text \<open>The outcome of the statement in terms of its loop.\<close>

lemma upsert_statement_cases:
  assumes "upsert_statement propose on_conflict ret xs d = (r, d')"
  obtains (failed) e seq ctr where "r = Fail e" "d' = d\<lparr>attempt_seq := seq, uuid_ctr := ctr\<rparr>"
      "\<exists>o' us. upsert_loop propose on_conflict xs (upsert_start d) = (o', us) \<and> seq = us_seq us"
  | (returned) rs us where "r = Ret rs" "upsert_loop propose on_conflict xs (upsert_start d) = (None, us)"
      "d' = d\<lparr>attempts := us_attempts us, attempt_seq := us_seq us, uuid_ctr := us_uuid us\<rparr>"
      "list_all2 (\<lambda>row r. ret (fst row) (snd row) = Inr r) (us_rows us) rs"
      "\<forall>row \<in> set (us_rows us). at_LotID (snd row) \<in> lot_ids d"
proof -
  obtain o' us where loop: "upsert_loop propose on_conflict xs (upsert_start d) = (o', us)"
    by (cases "upsert_loop propose on_conflict xs (upsert_start d)")
  let ?failed = "d\<lparr>attempt_seq := us_seq us, uuid_ctr := us_uuid us\<rparr>"
  note eq = assms [unfolded upsert_statement_def loop Let_def prod.case]
  show thesis
  proof (cases "\<exists>e. r = Fail e")
    case True
    then obtain e where "r = Fail e" by blast
    with eq have "d' = ?failed" by (auto split: option.splits sum.splits if_splits)
    with \<open>r = Fail e\<close> loop show thesis using failed by blast
  next
    case False
    with eq obtain rs where "o' = None" and rs: "returning_rows ret (us_rows us) = Inr rs" and "r = Ret rs"
      and lots: "\<not> (\<exists>(old, new) \<in> set (us_rows us). at_LotID new \<notin> lot_ids d)"
      and d': "d' = ?failed\<lparr>attempts := us_attempts us\<rparr>"
      by (auto split: option.splits sum.splits if_splits)
    show thesis
    proof (rule returned)
      show "r = Ret rs" and "upsert_loop propose on_conflict xs (upsert_start d) = (None, us)"
        using \<open>r = Ret rs\<close> \<open>o' = None\<close> loop by simp_all
      show "d' = d\<lparr>attempts := us_attempts us, attempt_seq := us_seq us, uuid_ctr := us_uuid us\<rparr>"
        using d' by simp
      show "list_all2 (\<lambda>row r. ret (fst row) (snd row) = Inr r) (us_rows us) rs"
        using rs by (simp add: returning_rows_Inr_iff)
      show "\<forall>row \<in> set (us_rows us). at_LotID (snd row) \<in> lot_ids d"
        using lots by (auto split: prod.splits)
    qed
  qed
qed

lemma upsert_statement_frame:
  assumes "upsert_statement propose on_conflict ret xs d = (r, d')"
  shows "same_other_tables d d'"
  using assms by (cases rule: upsert_statement_cases) (simp_all add: same_other_tables_def)

lemma upsert_statement_failed_frame:
  assumes "upsert_statement propose on_conflict ret xs d = (Fail e, d')"
  shows "attempts d' = attempts d"
  using assms by (cases rule: upsert_statement_cases) simp_all

lemma upsert_statement_no_panic: "upsert_statement propose on_conflict ret xs d \<noteq> (Panic p, d')"
proof
  assume "upsert_statement propose on_conflict ret xs d = (Panic p, d')"
  then show False by (cases rule: upsert_statement_cases) simp_all
qed

lemma upsert_statement_wf:
  assumes wf: "db_wf d" and stmt: "upsert_statement propose on_conflict ret xs d = (r, d')"
  shows "db_wf d'"
proof -
  have awf: "attempts_wf (attempts d) (attempt_seq d)" using wf by (simp add: db_wf_def)
  note inv = upsert_loop_inv [OF awf loop_inv_start [OF awf]]
  from stmt show ?thesis
  proof (cases rule: upsert_statement_cases)
    case (failed e seq ctr)
    with inv have "attempt_seq d \<le> seq" by (fastforce simp: upsert_start_def)
    with failed wf awf show ?thesis
      by (intro db_wf_attempts [OF wf])
        (auto simp: same_other_tables_def db_wf_def intro: attempts_wf_mono)
  next
    case (returned rs us)
    have li: "loop_inv (attempts d) us" using inv returned(2) by blast
    have "at_LotID a \<in> lot_ids d" if a: "a \<in> set (us_attempts us)" for a
    proof (cases "a \<in> set (attempts d)")
      case True
      with wf show ?thesis by (simp add: db_wf_def)
    next
      case False
      with loop_invD(3) [OF li a] obtain row where row: "row \<in> set (us_rows us)" "at_ID a = at_ID (snd row)"
        by (auto simp: ids_of_def)
      with a loop_invD(2) [OF li row(1)] attempts_wf_same_id [OF loop_invD(1) [OF li]] have "a = snd row"
        by blast
      with row returned(5) show ?thesis by blast
    qed
    with returned loop_invD(1) [OF li] show ?thesis
      by (intro db_wf_attempts [OF wf]) (simp_all add: same_other_tables_def)
  qed
qed

text \<open>
  What a successful statement gives back: a row for each input, in order, made from the pending
  attempt that holds the input's key afterwards; the attempts it did not touch are still there.
\<close>

lemma upsert_statement_Ret:
  assumes awf: "attempts_wf (attempts d) (attempt_seq d)"
    and stmt: "upsert_statement propose on_conflict ret xs d = (Ret rs, d')"
  obtains rows where "list_all2 (row_ok (attempts d)) xs rows"
    and "list_all2 (\<lambda>row r. ret (fst row) (snd row) = Inr r) rows rs"
    and "\<forall>row \<in> set rows. find_pending (pending_key (snd row)) (attempts d') = Some (snd row)"
    and "\<forall>row \<in> set rows. at_LotID (snd row) \<in> lot_ids d"
    and "attempts_wf (attempts d') (attempt_seq d')"
    and "\<forall>a \<in> set (attempts d). at_ID a \<notin> ids_of rows \<longrightarrow> a \<in> set (attempts d')"
    and "\<forall>a \<in> set (attempts d'). at_ID a \<notin> ids_of rows \<longrightarrow> a \<in> set (attempts d)"
    and "\<forall>a \<in> set (attempts d). \<exists>a' \<in> set (attempts d'). same_identity a a'"
    and "\<forall>row \<in> set rows. snd row \<in> set (attempts d')"
  using stmt
proof (cases rule: upsert_statement_cases)
  case (returned rs' us)
  note inv = upsert_loop_inv [OF awf loop_inv_start [OF awf] returned(2)]
  then have li: "loop_inv (attempts d) us" by blast
  from inv have rows: "list_all2 (row_ok (attempts d)) xs (us_rows us)" by (auto simp: upsert_start_def)
  show thesis
  proof (rule that)
    show "list_all2 (row_ok (attempts d)) xs (us_rows us)" by (rule rows)
    show "list_all2 (\<lambda>row r. ret (fst row) (snd row) = Inr r) (us_rows us) rs" using returned by simp
    show "\<forall>row \<in> set (us_rows us). find_pending (pending_key (snd row)) (attempts d') = Some (snd row)"
      using loop_invD(2) [OF li] loop_invD(1) [OF li] returned(3) by (auto intro!: find_pending_eq)
    show "\<forall>row \<in> set (us_rows us). at_LotID (snd row) \<in> lot_ids d" by (rule returned(5))
    show "attempts_wf (attempts d') (attempt_seq d')" using loop_invD(1) [OF li] returned(3) by simp
    show "\<forall>a \<in> set (attempts d). at_ID a \<notin> ids_of (us_rows us) \<longrightarrow> a \<in> set (attempts d')"
      using loop_invD(4) [OF li] returned(3) by auto
    show "\<forall>a \<in> set (attempts d'). at_ID a \<notin> ids_of (us_rows us) \<longrightarrow> a \<in> set (attempts d)"
      using loop_invD(3) [OF li] returned(3) by auto
    show "\<forall>a \<in> set (attempts d). \<exists>a' \<in> set (attempts d'). same_identity a a'"
      using loop_invD(5) [OF li] returned(3) by auto
    show "\<forall>row \<in> set (us_rows us). snd row \<in> set (attempts d')"
      using loop_invD(2) [OF li] returned(3) by auto
  qed
qed simp

text \<open>No attempt is lost or loses its identity, and the pending attempts of other keys stay as they are.\<close>

lemma upsert_statement_identity:
  assumes awf: "attempts_wf (attempts d) (attempt_seq d)"
    and stmt: "upsert_statement propose on_conflict ret xs d = (r, d')" and a: "a \<in> set (attempts d)"
  shows "\<exists>a' \<in> set (attempts d'). same_identity a a'"
proof (cases r)
  case (Ret rs)
  obtain rows :: "(ImageBlobUploadAttempt option \<times> ImageBlobUploadAttempt) list"
    where "\<forall>a \<in> set (attempts d). \<exists>a' \<in> set (attempts d'). same_identity a a'"
    by (rule upsert_statement_Ret [OF awf stmt [unfolded Ret]])
  with a show ?thesis by blast
next
  case (Fail e)
  with upsert_statement_failed_frame stmt a have "a \<in> set (attempts d')" by fastforce
  moreover have "same_identity a a" by (simp add: same_identity_def)
  ultimately show ?thesis by blast
next
  case (Panic p)
  with upsert_statement_no_panic stmt show ?thesis by blast
qed

lemma upsert_statement_other_keys:
  assumes awf: "attempts_wf (attempts d) (attempt_seq d)"
    and stmt: "upsert_statement propose on_conflict ret xs d = (Ret rs, d')" and k: "k \<notin> key ` set xs"
  shows "find_pending k (attempts d') = find_pending k (attempts d)"
proof -
  obtain rows where xr: "list_all2 (row_ok (attempts d)) xs rows"
    and awf': "attempts_wf (attempts d') (attempt_seq d')"
    and kept: "\<forall>a \<in> set (attempts d). at_ID a \<notin> ids_of rows \<longrightarrow> a \<in> set (attempts d')"
    and old: "\<forall>a \<in> set (attempts d'). at_ID a \<notin> ids_of rows \<longrightarrow> a \<in> set (attempts d)"
    and ident: "\<forall>a \<in> set (attempts d). \<exists>a' \<in> set (attempts d'). same_identity a a'"
    and inn: "\<forall>row \<in> set rows. snd row \<in> set (attempts d')"
    by (rule upsert_statement_Ret [OF awf stmt])
  have touched: "pending_key a \<noteq> k" if a: "a \<in> set (attempts d')" "at_ID a \<in> ids_of rows" for a
  proof -
    from a(2) obtain row where row: "row \<in> set rows" "at_ID a = at_ID (snd row)" by (auto simp: ids_of_def)
    with attempts_wf_same_id [OF awf' a(1)] inn have "a = snd row" by blast
    moreover from row(1) xr obtain x where "x \<in> set xs" "row_ok (attempts d) x row"
      by (metis in_set_conv_nth list_all2_conv_all_nth)
    ultimately show ?thesis using k by (auto simp: row_ok_def)
  qed
  show ?thesis
  proof (cases "find_pending k (attempts d')")
    case None
    have "find_pending k (attempts d) = None"
      unfolding find_pending_None_iff
    proof (intro ballI impI)
      fix a assume a: "a \<in> set (attempts d)" "is_pending a"
      with ident obtain a' where "a' \<in> set (attempts d')" "same_identity a a'" by blast
      with None a show "pending_key a \<noteq> k" by (auto simp: find_pending_None_iff same_identityD)
    qed
    with None show ?thesis by simp
  next
    case (Some a)
    then have a: "a \<in> set (attempts d')" "is_pending a" "pending_key a = k" by (auto dest: find_pending_SomeD)
    with touched old have "a \<in> set (attempts d)" by blast
    with find_pending_eq [OF awf _ a(2)] a Some show ?thesis by simp
  qed
qed

text \<open>The statement succeeds when every row can be built, no key comes twice and every lot is known.\<close>

lemma upsert_loop_succeeds:
  assumes "attempts_wf start n" and "loop_inv start us"
    and "\<And>x u i. x \<in> set xs \<Longrightarrow> \<exists>row. propose u i x = Inr row" and "distinct (map key xs)"
    and "\<And>row. row \<in> set (us_rows us) \<Longrightarrow> pending_key (snd row) \<notin> key ` set xs"
  shows "\<exists>us'. upsert_loop propose on_conflict xs us = (None, us')"
  using assms(2-)
proof (induction xs arbitrary: us)
  case (Cons x xs)
  let ?us = "us\<lparr>us_seq := us_seq us + 1, us_uuid := us_uuid us + 1\<rparr>"
  obtain row where row: "propose (us_uuid us) (us_seq us) x = Inr row"
    using Cons.prems(2) [of x] by auto
  note key = propose_row [OF row]
  have apart: "pending_key (snd r) \<noteq> key y" if "r \<in> set (us_rows us)" and "y \<in> set xs" for r y
    using Cons.prems(4) [OF that(1)] that(2) by auto
  show ?case
  proof (cases "find_pending (pending_key row) (us_attempts us)")
    case None
    let ?next = "?us\<lparr>us_attempts := us_attempts us @ [row], us_rows := us_rows us @ [(None, row)]\<rparr>"
    have "\<exists>us'. upsert_loop propose on_conflict xs ?next = (None, us')"
    proof (rule Cons.IH)
      show "loop_inv start ?next"
        using loop_inv_insert [OF Cons.prems(1) row None, of "us_uuid us + 1"] by simp
    qed (use Cons.prems(2,3) key apart in auto)
    with row None show ?thesis by simp
  next
    case (Some old)
    then have old: "old \<in> set (us_attempts us)" "pending_key old = key x"
      using key by (auto dest: find_pending_SomeD)
    have untouched: "at_ID old \<notin> ids_of (us_rows us)"
    proof
      assume "at_ID old \<in> ids_of (us_rows us)"
      then obtain r where r: "r \<in> set (us_rows us)" "at_ID old = at_ID (snd r)" by (auto simp: ids_of_def)
      with old(1) loop_invD(2) [OF Cons.prems(1) r(1)]
        attempts_wf_same_id [OF loop_invD(1) [OF Cons.prems(1)]] have "old = snd r" by blast
      with Cons.prems(4) [OF r(1)] old(2) show False by simp
    qed
    obtain new where new: "update_row on_conflict old = Inr new" using update_row_total by blast
    let ?next = "?us\<lparr>us_attempts := replace_row new (us_attempts us), us_rows := us_rows us @ [(Some old, new)]\<rparr>"
    have "\<exists>us'. upsert_loop propose on_conflict xs ?next = (None, us')"
    proof (rule Cons.IH)
      show "loop_inv start ?next"
        using loop_inv_update [OF Cons.prems(1) Some untouched new, of "us_uuid us + 1"] by simp
    qed (use Cons.prems(2,3) key old apart same_identityD(2) [OF update_row_same(1) [OF new]] in auto)
    with row Some untouched new show ?thesis by simp
  qed
qed simp

text \<open>When every row can be built and no key comes twice, the lot decides.\<close>

lemma upsert_statement_answer:
  assumes awf: "attempts_wf (attempts d) (attempt_seq d)"
    and "\<And>x u i. x \<in> set xs \<Longrightarrow> \<exists>row. propose u i x = Inr row" and "distinct (map key xs)"
    and ret: "\<And>x row. x \<in> set xs \<Longrightarrow> row_ok (attempts d) x row \<Longrightarrow> \<exists>r. ret (fst row) (snd row) = Inr r"
    and lot: "\<And>x. x \<in> set xs \<Longrightarrow> snd (key x) = lot"
  shows "\<exists>rs d'. upsert_statement propose on_conflict ret xs d =
    (if xs = [] \<or> lot \<in> lot_ids d then Ret rs else Fail (fk_violation ''image_blob_upload_attempts'' attempts_lot_fkey), d')"
proof -
  obtain us where loop: "upsert_loop propose on_conflict xs (upsert_start d) = (None, us)"
    using upsert_loop_succeeds [OF awf loop_inv_start [OF awf] assms(2,3)] by (auto simp: upsert_start_def)
  then have rows: "list_all2 (row_ok (attempts d)) xs (us_rows us)"
    using upsert_loop_inv [OF awf loop_inv_start [OF awf] loop] by (auto simp: upsert_start_def)
  have each: "\<exists>x \<in> set xs. row_ok (attempts d) x row" if "row \<in> set (us_rows us)" for row
    using rows that by (metis in_set_conv_nth list_all2_conv_all_nth)
  have "\<exists>rs. returning_rows ret (us_rows us) = Inr rs"
    by (rule returning_rows_ex) (use each ret in blast)
  then obtain rs where rs: "returning_rows ret (us_rows us) = Inr rs" by blast
  have lots: "at_LotID (snd row) = lot" if row: "row \<in> set (us_rows us)" for row
  proof -
    from each [OF row] obtain x where x: "x \<in> set xs" "pending_key (snd row) = key x"
      by (auto simp: row_ok_def)
    with lot [OF x(1)] show ?thesis by (metis pending_key_def snd_conv)
  qed
  have "us_rows us = [] \<longleftrightarrow> xs = []" using rows by (auto simp: list_all2_conv_all_nth)
  moreover have "(\<exists>(old, new) \<in> set (us_rows us). at_LotID new \<notin> lot_ids d) \<longleftrightarrow> (\<exists>row \<in> set (us_rows us). lot \<notin> lot_ids d)"
    unfolding case_prod_beta by (rule bex_cong [OF refl]) (simp add: lots)
  moreover have "(\<exists>row \<in> set (us_rows us). lot \<notin> lot_ids d) \<longleftrightarrow> us_rows us \<noteq> [] \<and> lot \<notin> lot_ids d"
    by (cases "us_rows us") auto
  ultimately have "(\<exists>(old, new) \<in> set (us_rows us). at_LotID new \<notin> lot_ids d) \<longleftrightarrow> xs \<noteq> [] \<and> lot \<notin> lot_ids d"
    by (simp only:)
  with loop rs show ?thesis by (cases "xs = [] \<or> lot \<in> lot_ids d") (auto simp: upsert_statement_def)
qed

end

end
