(* ===== verification/Filestore_Statements.thy ===== *)
theory Filestore_Statements
  imports Filestore_Laws "HOL-Library.Sublist"
begin

text \<open>
  The two upload statements as instances of the interface \<open>upsert\<close>, what a caller reads off their
  rows, and the preservation of \<open>db_wf\<close> by every statement and query method.

  \<open>sha_text s\<close> says that \<open>s\<close> is a SHA-256 in hexadecimal (64 digits, either case); \<open>lower_sha s\<close> that
  it is written as the database writes it back, in lower case.
\<close>

section \<open>Hashes\<close>

definition sha_text :: "string \<Rightarrow> bool" where
  "sha_text s \<longleftrightarrow> length s = 64 \<and> (\<forall>c \<in> set s. hex_val c \<noteq> None)"

definition lower_sha :: "string \<Rightarrow> bool" where
  "lower_sha s \<longleftrightarrow> length s = 64 \<and> lower_hex s"

text \<open>The bytes of a hash.\<close>

definition sha_bytes :: "string \<Rightarrow> bytes" where
  "sha_bytes s = (case hex_decode s of Inl e \<Rightarrow> [] | Inr b \<Rightarrow> b)"

lemma lower_sha_text: "lower_sha s \<Longrightarrow> sha_text s"
  by (simp add: lower_sha_def sha_text_def lower_hex_def)

lemma hex_val_not_blank: "hex_val c \<noteq> None \<Longrightarrow> \<not> sql_blank c"
  by (auto simp: sql_blank_def hex_val_def)

lemma sql_decode_hex_ok: "hex_decode s = Inr bs \<Longrightarrow> sql_decode_hex s = Inr bs"
proof (induction s arbitrary: bs rule: hex_decode.induct)
  case (3 c d s)
  then obtain h l bs' where "hex_val c = Some h" "hex_val d = Some l" "hex_decode s = Inr bs'"
    and "bs = hex_byte h l # bs'" by (auto split: option.splits sum.splits)
  with "3.IH" hex_val_not_blank [of c] show ?case by auto
qed (auto split: option.splits)

lemma cast_char64_sha: "sha_text s \<Longrightarrow> cast_char64 s = s"
proof -
  assume s: "sha_text s"
  have t: "take_runes 64 s = s"
    by (rule take_runes_all) (use s rune_count_le_length [of s] in \<open>simp add: sha_text_def\<close>)
  have "\<forall>c \<in> set s. c \<noteq> CHR '' ''" using s by (auto simp: sha_text_def hex_val_def)
  then have "dropWhile (\<lambda>c. c = CHR '' '') (rev s) = rev s"
    by (cases "rev s") (auto simp: dropWhile_eq_self_iff)
  with t show ?thesis by (simp add: cast_char64_def)
qed

lemma sha_text_decode: "sha_text s \<Longrightarrow> hex_decode s = Inr (sha_bytes s)"
  using hex_decode_ok [of s] by (auto simp: sha_text_def sha_bytes_def)

lemma decode_optional_sha: "sha_text s \<Longrightarrow> decode_optional (Some s) = Inr (Some (sha_bytes s))"
  by (simp add: decode_optional_def cast_char64_sha sql_decode_hex_ok [OF sha_text_decode])

lemma hex_encode_sha_bytes: "sha_text s \<Longrightarrow> hex_encode (sha_bytes s) = map ascii_lower s"
  by (rule hex_encode_decode) (rule sha_text_decode)

lemma hex_encode_lower_sha: "lower_sha s \<Longrightarrow> hex_encode (sha_bytes s) = s"
  by (simp add: hex_encode_sha_bytes lower_sha_text lower_sha_def lower_hex_def map_idI)

lemma sha_bytes_inj: "lower_sha s \<Longrightarrow> lower_sha t \<Longrightarrow> sha_bytes s = sha_bytes t \<Longrightarrow> s = t"
  by (metis hex_encode_lower_sha)

lemma length_sha_bytes: "sha_text s \<Longrightarrow> length (sha_bytes s) = 32"
  using hex_decode_length [OF sha_text_decode] by (simp add: sha_text_def)

section \<open>The instances of the upsert contract\<close>

definition input_sha :: "string option \<Rightarrow> bytes" where
  "input_sha sha = (case decode_optional sha of Inr (Some b) \<Rightarrow> b | _ \<Rightarrow> [])"

definition single_key :: "InsertSinglePartUploadParams \<Rightarrow> single_input \<Rightarrow> bytes \<times> uuid" where
  "single_key p = (\<lambda>(sha, _). (input_sha sha, sp_LotID p))"

definition multi_key :: "InsertAndValidateMultiPartUploadParams \<Rightarrow> multi_input \<Rightarrow> bytes \<times> uuid" where
  "multi_key p = (\<lambda>(sha, _). (input_sha sha, mp_LotID p))"

lemma bind_sum_Inr_iff [simp]: "bind_sum m f = Inr b \<longleftrightarrow> (\<exists>a. m = Inr a \<and> f a = Inr b)"
  by (cases m) (auto simp: bind_sum_def)

lemma bind_sum_simps [simp]: "bind_sum (Inr a) f = f a" "bind_sum (Inl e) f = Inl e"
  by (simp_all add: bind_sum_def)

lemma required_Inr_iff [simp]: "required col v = Inr x \<longleftrightarrow> v = Some x"
  by (cases v) (auto simp: required_def)

lemma single_propose_Inr:
  assumes "single_propose env p draw i x = Inr a"
  shows "at_ID a = i \<and> is_pending a \<and> generated_ok a \<and> pending_key a = single_key p x \<and>
    at_StorageKey a = gen_random_uuid env draw \<and> at_UploadID a = None \<and> at_PartSize a = None \<and>
    at_UploadType a = sp_UploadType p"
proof -
  obtain sha fsize ctype fname where x: "x = (sha, fsize, ctype, fname)" by (cases x) auto
  show ?thesis
    using assms unfolding x
    by (auto simp: single_propose_def generated_ok_def is_pending_def pending_key_def single_key_def input_sha_def)
qed

lemma multi_propose_Inr:
  assumes "multi_propose env p draw i (sha, fsize, ctype, upload_id, fname, skey) = Inr a"
  shows "at_ID a = i \<and> is_pending a \<and> generated_ok a \<and>
    pending_key a = multi_key p (sha, fsize, ctype, upload_id, fname, skey) \<and>
    Some (at_StorageKey a) = skey \<and> at_UploadID a = upload_id \<and> at_PartSize a = Some (mp_PartSize p) \<and>
    at_UploadType a = mp_UploadType p \<and> Some (at_FileSize a) = map_option sint fsize \<and>
    at_ValidUntil a = Some (txn_now env + five_days)"
  using assms
  by (auto simp: multi_propose_def generated_ok_def is_pending_def pending_key_def multi_key_def input_sha_def)

interpretation single_upsert: upsert "single_propose env p" single_on_conflict "single_key p" for env p
proof (unfold_locales, goal_cases)
  case (1 u i x a) then show ?case using single_propose_Inr by blast
next
  case (2 a) show ?case by (simp add: single_on_conflict_def same_identity_def)
next
  case (3 a) show ?case by (simp add: single_on_conflict_def)
qed

interpretation multi_upsert: upsert "multi_propose env p" "multi_on_conflict env p" "multi_key p" for env p
proof (unfold_locales, goal_cases)
  case (1 u i x a)
  obtain sha fsize ctype upload_id fname skey where "x = (sha, fsize, ctype, upload_id, fname, skey)"
    by (cases x) auto
  with 1 multi_propose_Inr show ?case by blast
next
  case (2 a) show ?case by (simp add: multi_on_conflict_def same_identity_def)
next
  case (3 a) show ?case by (simp add: multi_on_conflict_def)
qed

section \<open>Preservation of db_wf\<close>

lemma run_query_apply: "run_query fault stmt d = (case fault of Some e \<Rightarrow> (Fail e, d) | None \<Rightarrow> stmt d)"
  by (simp add: run_query_def split: option.splits)

lemma keeps_run_query [keeps_intros]: "keeps I stmt \<Longrightarrow> keeps I (run_query fault stmt)"
  by (cases fault) (auto simp: run_query_def intro: keeps_liftp)

lemma single_wf [keeps_intros]: "keeps db_wf (sql_InsertSinglePartUpload env p)"
  unfolding sql_InsertSinglePartUpload_def
  by (rule keepsI) (metis single_upsert.upsert_statement_wf prod.collapse)

lemma multi_wf [keeps_intros]: "keeps db_wf (sql_InsertAndValidateMultiPartUpload env p)"
  unfolding sql_InsertAndValidateMultiPartUpload_def
  by (rule keepsI) (metis multi_upsert.upsert_statement_wf prod.collapse)

lemma get_item_wf [keeps_intros]: "keeps I (sql_GetMultiPartUploadItem k)"
  by (rule keepsI) (simp add: sql_GetMultiPartUploadItem_def split: option.splits)

lemma check_identical_wf [keeps_intros]: "keeps I sql_CheckIdenticalBlobs"
  by (rule keepsI) (simp add: sql_CheckIdenticalBlobs_def)

lemma create_lot_wf [keeps_intros]: "keeps db_wf (sql_CreateLot env p)"
proof (rule keepsI)
  fix d assume "db_wf d"
  moreover have "lot_ids (d\<lparr>uuid_ctr := n, lots := lots d @ ls\<rparr>) = lot_ids d \<union> lot_ID ` set ls" for n ls
    by (auto simp: lot_ids_def)
  ultimately show "db_wf (snd (sql_CreateLot env p d))"
    by (auto simp: sql_CreateLot_def Let_def db_wf_def lot_ids_def split: sum.splits)
qed

lemma completed_blob_SomeD: "completed_blob d sha = Some b \<Longrightarrow> b \<in> set (image_blobs d) \<and> ib_Sha256 b = sha \<and> ib_IsUploadCompleted b"
  by (auto simp: completed_blob_def find_Some_iff)

lemma insert_identical_rows:
  assumes "insert_identical d lot xs seq = (res, seq')"
  shows "seq \<le> seq' \<and> (\<forall>rs. res = Inr rs \<longrightarrow> distinct (map (li_LotImageID \<circ> fst) rs) \<and>
    (\<forall>(img, row) \<in> set rs. seq \<le> li_LotImageID img \<and> li_LotImageID img < seq' \<and> li_LotID img = lot \<and>
       li_ImageBlobID img \<in> ib_ImageBlobID ` set (image_blobs d)))"
  using assms
proof (induction xs arbitrary: seq res seq')
  case (Cons x xs)
  obtain sha name where x: "x = (sha, name)" by (cases x)
  show ?case
  proof (cases "decode_optional sha")
    case (Inr sb)
    show ?thesis
    proof (cases "Option.bind sb (completed_blob d)")
      case None
      with Inr Cons x show ?thesis by simp
    next
      case (Some b)
      then have b: "b \<in> set (image_blobs d)" by (cases sb) (auto dest: completed_blob_SomeD)
      show ?thesis
      proof (cases name)
        case None
        with Some Inr Cons.prems x show ?thesis by auto
      next
        case name: (Some nm)
        obtain r1 s1 where rest: "insert_identical d lot xs (seq + 1) = (r1, s1)"
          by (cases "insert_identical d lot xs (seq + 1)")
        note IH = Cons.IH [OF rest]
        show ?thesis
        proof (cases r1)
          case (Inl e)
          with IH rest name Some Inr Cons.prems x show ?thesis by (auto simp: Let_def)
        next
          case r1: (Inr rs1)
          with IH have le: "seq + 1 \<le> s1" and dist: "distinct (map (li_LotImageID \<circ> fst) rs1)"
            and all: "\<forall>(img, row) \<in> set rs1. seq + 1 \<le> li_LotImageID img \<and> li_LotImageID img < s1 \<and>
              li_LotID img = lot \<and> li_ImageBlobID img \<in> ib_ImageBlobID ` set (image_blobs d)"
            by (auto simp: comp_def)
          from all have "seq \<notin> (li_LotImageID \<circ> fst) ` set rs1" by fastforce
          with dist have dist': "distinct (seq # map (li_LotImageID \<circ> fst) rs1)" by simp
          from r1 rest name Some Inr Cons.prems x
          obtain img row where res: "res = Inr ((img, row) # rs1)" and s1: "seq' = s1"
            and img: "li_LotImageID img = seq" "li_LotID img = lot" "li_ImageBlobID img = ib_ImageBlobID b"
            by (auto simp: Let_def)
          have "distinct (map (li_LotImageID \<circ> fst) ((img, row) # rs1))" using dist' img by simp
          moreover have "\<forall>(img, row) \<in> set ((img, row) # rs1). seq \<le> li_LotImageID img \<and> li_LotImageID img < seq' \<and>
              li_LotID img = lot \<and> li_ImageBlobID img \<in> ib_ImageBlobID ` set (image_blobs d)"
            using all img b le s1 by fastforce
          ultimately show ?thesis using le s1 res by (auto simp: comp_def)
        qed
      qed
    qed
  qed (use Cons x in auto)
qed simp

lemma identical_wf [keeps_intros]: "keeps db_wf (sql_InsertIdenticalImageBlobsToLotImages p)"
proof (rule keepsI)
  fix d assume wf: "db_wf d"
  obtain res seq where ins: "insert_identical d (ip_LotID p) (identical_inputs p) (lot_image_seq d) = (res, seq)"
    by (cases "insert_identical d (ip_LotID p) (identical_inputs p) (lot_image_seq d)")
  note rows = insert_identical_rows [OF ins]
  have adv: "db_wf (d\<lparr>lot_image_seq := seq\<rparr>)" using wf rows by (force simp: db_wf_def lot_ids_def)
  show "db_wf (snd (sql_InsertIdenticalImageBlobsToLotImages p d))"
  proof (cases res)
    case (Inl e)
    with adv ins show ?thesis by (simp add: sql_InsertIdenticalImageBlobsToLotImages_def)
  next
    case (Inr rs)
    with rows have le: "lot_image_seq d \<le> seq" and dist: "distinct (map (li_LotImageID \<circ> fst) rs)"
      and all: "\<forall>(img, row) \<in> set rs. lot_image_seq d \<le> li_LotImageID img \<and> li_LotImageID img < seq \<and>
        li_LotID img = ip_LotID p \<and> li_ImageBlobID img \<in> ib_ImageBlobID ` set (image_blobs d)"
      by (auto simp: comp_def)
    from wf have old: "\<forall>i \<in> set (lot_images d). li_LotImageID i < lot_image_seq d" by (simp add: db_wf_def)
    have "li_LotImageID ` set (lot_images d) \<inter> (li_LotImageID \<circ> fst) ` set rs = {}"
      using old all by fastforce
    with dist wf have dist': "distinct (map li_LotImageID (lot_images d @ map fst rs))"
      by (auto simp: db_wf_def)
    have "db_wf (d\<lparr>lot_image_seq := seq, lot_images := lot_images d @ map fst rs\<rparr>)"
      if "rs = [] \<or> ip_LotID p \<in> lot_ids d"
      using that wf dist' all old le unfolding db_wf_def lot_ids_def by fastforce
    with adv ins Inr show ?thesis
      by (auto simp: sql_InsertIdenticalImageBlobsToLotImages_def Let_def)
  qed
qed

section \<open>Sequences only grow\<close>

definition seqs_le :: "db \<Rightarrow> db \<Rightarrow> bool" where
  "seqs_le d0 d \<longleftrightarrow> lot_image_seq d0 \<le> lot_image_seq d \<and> attempt_seq d0 \<le> attempt_seq d"

lemma seqs_le_refl [simp]: "seqs_le d d"
  by (simp add: seqs_le_def)

lemma upsert_loop_seq: "upsert_loop propose on_conflict xs us = (r, us') \<Longrightarrow> us_seq us \<le> us_seq us'"
  by (induction xs arbitrary: us) (fastforce simp: Let_def split: sum.splits option.splits if_splits)+

lemma upsert_statement_seqs [keeps_intros]: "keeps (seqs_le d0) (upsert_statement propose on_conflict ret xs)"
proof (rule keepsI)
  fix d assume le: "seqs_le d0 d"
  obtain o' us where loop: "upsert_loop propose on_conflict xs (upsert_start d) = (o', us)"
    by (cases "upsert_loop propose on_conflict xs (upsert_start d)")
  then have "attempt_seq d \<le> us_seq us" using upsert_loop_seq by (fastforce simp: upsert_start_def)
  with le loop show "seqs_le d0 (snd (upsert_statement propose on_conflict ret xs d))"
    by (auto simp: upsert_statement_def seqs_le_def Let_def split: option.splits sum.splits)
qed

lemma single_seqs [keeps_intros]: "keeps (seqs_le d0) (sql_InsertSinglePartUpload env p)"
  unfolding sql_InsertSinglePartUpload_def by (rule upsert_statement_seqs)

lemma multi_seqs [keeps_intros]: "keeps (seqs_le d0) (sql_InsertAndValidateMultiPartUpload env p)"
  unfolding sql_InsertAndValidateMultiPartUpload_def by (rule upsert_statement_seqs)

lemma identical_seqs [keeps_intros]: "keeps (seqs_le d0) (sql_InsertIdenticalImageBlobsToLotImages p)"
proof (rule keepsI)
  fix d assume le: "seqs_le d0 d"
  obtain res seq where ins: "insert_identical d (ip_LotID p) (identical_inputs p) (lot_image_seq d) = (res, seq)"
    by (cases "insert_identical d (ip_LotID p) (identical_inputs p) (lot_image_seq d)")
  with insert_identical_rows [OF ins] le
  show "seqs_le d0 (snd (sql_InsertIdenticalImageBlobsToLotImages p d))"
    by (auto simp: sql_InsertIdenticalImageBlobsToLotImages_def seqs_le_def Let_def split: sum.splits)
qed

lemma keeps_conj [keeps_intros]: "keeps I m \<Longrightarrow> keeps J m \<Longrightarrow> keeps (\<lambda>s. I s \<and> J s) m"
  by (simp add: keeps_def)

section \<open>Nothing is lost\<close>

text \<open>
  \<open>history d0 d\<close>: a database that began as \<open>d0\<close> can have become \<open>d\<close>. Lots and lot images are only
  added, blobs are left alone (another service completes them), and every upload attempt keeps its identity: its
  key, its storage key and its upload id.
\<close>

definition history :: "db \<Rightarrow> db \<Rightarrow> bool" where
  "history d0 d \<longleftrightarrow> image_blobs d = image_blobs d0 \<and> prefix (lots d0) (lots d) \<and>
     prefix (lot_images d0) (lot_images d) \<and>
     (\<forall>a \<in> set (attempts d0). \<exists>a' \<in> set (attempts d). same_identity a a')"

lemma same_identity_refl [simp]: "same_identity a a"
  by (simp add: same_identity_def)

lemma same_identity_self [intro]: "a \<in> set as \<Longrightarrow> \<exists>x \<in> set as. same_identity a x"
  using same_identity_refl by blast

lemma same_identity_trans: "same_identity a b \<Longrightarrow> same_identity b c \<Longrightarrow> same_identity a c"
  by (simp add: same_identity_def)

lemma history_refl [simp]: "history d d"
  by (auto simp: history_def)

lemma history_trans: "history d0 d1 \<Longrightarrow> history d1 d2 \<Longrightarrow> history d0 d2"
  unfolding history_def by (metis prefix_order.trans same_identity_trans)

text \<open>What holds of the database during a request that began at \<open>d0\<close>.\<close>

definition grown :: "db \<Rightarrow> db \<Rightarrow> bool" where
  "grown d0 d \<longleftrightarrow> db_wf d \<and> seqs_le d0 d \<and> history d0 d"

lemma grown_refl: "db_wf d \<Longrightarrow> grown d d"
  by (simp add: grown_def)

lemma seqs_le_trans: "seqs_le d0 d1 \<Longrightarrow> seqs_le d1 d2 \<Longrightarrow> seqs_le d0 d2"
  by (simp add: seqs_le_def)

lemma grown_trans: "grown d0 d1 \<Longrightarrow> grown d1 d2 \<Longrightarrow> grown d0 d2"
  using history_trans seqs_le_trans by (auto simp: grown_def)

text \<open>A pending attempt stays the pending attempt of its key.\<close>

lemma grown_pending:
  assumes "grown d d'" and "find_pending k (attempts d) = Some a"
  shows "\<exists>a'. find_pending k (attempts d') = Some a' \<and> same_identity a a'"
proof -
  from find_pending_SomeD [OF assms(2)] have a: "a \<in> set (attempts d)" "is_pending a" "pending_key a = k" by auto
  with assms(1) obtain a' where a': "a' \<in> set (attempts d')" and same: "same_identity a a'"
    by (auto simp: grown_def history_def)
  from a same have "is_pending a'" "pending_key a' = k" by (simp_all add: same_identityD)
  with find_pending_eq [of "attempts d'" "attempt_seq d'" a'] a' same assms(1) show ?thesis
    by (auto simp: grown_def db_wf_def)
qed

lemma keeps_grownI:
  assumes "keeps db_wf m" and "\<And>d0. keeps (seqs_le d0) m" and "\<And>d. db_wf d \<Longrightarrow> history d (snd (m d))"
  shows "keeps (grown d0) m"
proof (rule keepsI)
  fix d assume g: "grown d0 d"
  have "grown d (snd (m d))" using g assms [unfolded keeps_def] by (simp add: grown_def)
  with g show "grown d0 (snd (m d))" by (rule grown_trans)
qed

context upsert
begin

lemma upsert_statement_history: "db_wf d \<Longrightarrow> history d (snd (upsert_statement propose on_conflict ret xs d))"
proof -
  assume wf: "db_wf d"
  obtain r d' where stmt: "upsert_statement propose on_conflict ret xs d = (r, d')" by fastforce
  have "attempts_wf (attempts d) (attempt_seq d)" using wf by (simp add: db_wf_def)
  from upsert_statement_identity [OF this stmt] upsert_statement_frame [OF stmt] stmt show ?thesis
    by (simp add: history_def same_other_tables_def)
qed

end

lemma single_grown [keeps_intros]: "keeps (grown d0) (sql_InsertSinglePartUpload env p)"
  by (rule keeps_grownI [OF single_wf single_seqs])
    (simp add: sql_InsertSinglePartUpload_def single_upsert.upsert_statement_history)

lemma multi_grown [keeps_intros]: "keeps (grown d0) (sql_InsertAndValidateMultiPartUpload env p)"
  by (rule keeps_grownI [OF multi_wf multi_seqs])
    (simp add: sql_InsertAndValidateMultiPartUpload_def multi_upsert.upsert_statement_history)

lemma identical_grown [keeps_intros]: "keeps (grown d0) (sql_InsertIdenticalImageBlobsToLotImages p)"
proof (rule keeps_grownI [OF identical_wf identical_seqs])
  fix d
  show "history d (snd (sql_InsertIdenticalImageBlobsToLotImages p d))"
    by (auto simp: sql_InsertIdenticalImageBlobsToLotImages_def Let_def history_def split: prod.splits sum.splits)
qed

lemma create_lot_grown [keeps_intros]: "keeps (grown d0) (sql_CreateLot env p)"
proof (rule keeps_grownI [OF create_lot_wf])
  show "keeps (seqs_le d0) (sql_CreateLot env p)" for d0
    by (rule keepsI) (auto simp: sql_CreateLot_def Let_def seqs_le_def split: sum.splits)
  show "history d (snd (sql_CreateLot env p d))" for d
    by (auto simp: sql_CreateLot_def Let_def history_def split: sum.splits)
qed

section \<open>The query methods\<close>

lemmas query_defs = InsertSinglePartUpload_def InsertAndValidateMultiPartUpload_def
  InsertIdenticalImageBlobsToLotImages_def GetMultiPartUploadItem_def CheckIdenticalBlobs_def CreateLot_def

lemma query_keeps_grown [keeps_intros]:
  "keeps (grown d0) (InsertSinglePartUpload fault env sp)"
  "keeps (grown d0) (InsertAndValidateMultiPartUpload fault env mp)"
  "keeps (grown d0) (InsertIdenticalImageBlobsToLotImages fault ip)"
  "keeps (grown d0) (CreateLot fault env cl)"
  unfolding query_defs by (rule keeps_intros, rule single_grown multi_grown identical_grown create_lot_grown)+

lemma read_queries_keep [keeps_intros]:
  "keeps I (GetMultiPartUploadItem fault k)" "keeps I (CheckIdenticalBlobs fault)"
  unfolding query_defs by (rule keeps_intros, rule get_item_wf check_identical_wf)+

end
