(* ===== verification/Lot_Messages.thy ===== *)
theory Lot_Messages
  imports Go_Uuid
begin

text \<open>
  The protobuf messages of src/rpc/gen/lot_image/v1/lot_image.pb.go and src/rpc/gen/lot/v1/lot.pb.go.

  The schema uses explicit presence, so a scalar field is a pointer: \<open>None\<close> is an absent field. A
  message is used through a pointer too, \<open>None\<close> being nil; repeated messages are lists of pointers, a
  map field is a map from keys to pointers, and the oneof of \<open>PresignedUploadUrl\<close> is a datatype
  (\<open>None\<close> when no case is set). A getter works on a nil receiver and on an absent field.

  The predicates at the end are the \<open>buf.validate\<close> rules of src/rpc/proto, with the meaning that
  protovalidate documents: a rule other than \<open>required\<close> is checked only when the field is set, and
  string lengths count code points.
\<close>

section \<open>Messages\<close>

type_synonym 'a ptr = "'a option"

record HeaderValues =
  hv_Values :: "string list"

record Request =
  rq_Url :: "string ptr"
  rq_Method :: "string ptr"
  rq_SignedHeader :: "(string \<rightharpoonup> HeaderValues ptr)"

record ImageFile =
  if_Sha256 :: "string ptr"
  if_FileName :: "string ptr"
  if_ClientFileId :: "int32 ptr"
  if_FileSize :: "uint64 ptr"

record PartEtag =
  pe_Etag :: "string ptr"
  pe_Part :: "uint32 ptr"

record MultiPresignedHTTPRequest =
  mh_Request :: "Request ptr"
  mh_Part :: "int32 ptr"

record SinglePresignedUploadUrl =
  su_Request :: "Request ptr"

record MultiPresignedUploadUrl =
  mu_MultiParts :: "MultiPresignedHTTPRequest ptr list"
  mu_PartSize :: "goint ptr"
  mu_MultipartAttemptId :: "goint ptr"
  mu_UploadedEtags :: "PartEtag ptr list"

datatype isPresignedUploadUrl_PresignedUrl =
    PresignedUploadUrl_Single "SinglePresignedUploadUrl ptr"
  | PresignedUploadUrl_Multi "MultiPresignedUploadUrl ptr"

record PresignedUploadUrl =
  pu_PresignedUrl :: "isPresignedUploadUrl_PresignedUrl ptr"

record PresignedFile =
  pf_UploadFile :: "ImageFile ptr"
  pf_PresignedUploadUrl :: "PresignedUploadUrl ptr"

record PresignFileResult =
  fr_DuplicateFiles :: "ImageFile ptr list"
  fr_AlreadyUploadedFiles :: "ImageFile ptr list"
  fr_PresignedFiles :: "PresignedFile ptr list"

record GeneratePresignedUrlRequest =
  gq_LotImages :: "ImageFile ptr list"
  gq_LotId :: "string ptr"

record GeneratePresignedUrlResponse =
  gs_Success :: "bool ptr"
  gs_Message :: "string ptr"
  gs_PresignResult :: "PresignFileResult ptr"

record CompleteMultiPartUploadRequest =
  cq_MultipartAttemptId :: "goint ptr"
  cq_PartEtags :: "PartEtag ptr list"

record CompleteMultiPartUploadResponse =
  cs_Success :: "bool ptr"
  cs_Message :: "string ptr"

record LotMsg =
  lm_LotTitle :: "string ptr"
  lm_Description :: "string ptr"
  lm_Category :: "string ptr"
  lm_BidOpeningPrice :: "int32 ptr"

record CreateLotRequest =
  kq_Lot :: "LotMsg ptr"

record CreateLotResponse =
  ks_Success :: "bool ptr"
  ks_Message :: "string ptr"
  ks_LotId :: "string ptr"

section \<open>Getters\<close>

definition get_value :: "'v \<Rightarrow> ('m \<Rightarrow> 'v) \<Rightarrow> 'm ptr \<Rightarrow> 'v" where
  "get_value zero field x = (case x of None \<Rightarrow> zero | Some m \<Rightarrow> field m)"

definition get_scalar :: "'v \<Rightarrow> ('m \<Rightarrow> 'v ptr) \<Rightarrow> 'm ptr \<Rightarrow> 'v" where
  "get_scalar zero field x = (case x of
      None \<Rightarrow> zero
    | Some m \<Rightarrow> (case field m of None \<Rightarrow> zero | Some v \<Rightarrow> v))"

definition HeaderValues_GetValues :: "HeaderValues ptr \<Rightarrow> string list" where
  "HeaderValues_GetValues = get_value [] hv_Values"

definition Request_GetUrl :: "Request ptr \<Rightarrow> string" where
  "Request_GetUrl = get_scalar '''' rq_Url"

definition Request_GetMethod :: "Request ptr \<Rightarrow> string" where
  "Request_GetMethod = get_scalar '''' rq_Method"

definition Request_GetSignedHeader :: "Request ptr \<Rightarrow> (string \<rightharpoonup> HeaderValues ptr)" where
  "Request_GetSignedHeader = get_value Map.empty rq_SignedHeader"

definition ImageFile_GetSha256 :: "ImageFile ptr \<Rightarrow> string" where
  "ImageFile_GetSha256 = get_scalar '''' if_Sha256"

definition ImageFile_GetFileName :: "ImageFile ptr \<Rightarrow> string" where
  "ImageFile_GetFileName = get_scalar '''' if_FileName"

definition ImageFile_GetClientFileId :: "ImageFile ptr \<Rightarrow> int32" where
  "ImageFile_GetClientFileId = get_scalar 0 if_ClientFileId"

definition ImageFile_GetFileSize :: "ImageFile ptr \<Rightarrow> uint64" where
  "ImageFile_GetFileSize = get_scalar 0 if_FileSize"

definition PartEtag_GetEtag :: "PartEtag ptr \<Rightarrow> string" where
  "PartEtag_GetEtag = get_scalar '''' pe_Etag"

definition PartEtag_GetPart :: "PartEtag ptr \<Rightarrow> uint32" where
  "PartEtag_GetPart = get_scalar 0 pe_Part"

definition MultiPresignedHTTPRequest_GetRequest :: "MultiPresignedHTTPRequest ptr \<Rightarrow> Request ptr" where
  "MultiPresignedHTTPRequest_GetRequest = get_value None mh_Request"

definition MultiPresignedHTTPRequest_GetPart :: "MultiPresignedHTTPRequest ptr \<Rightarrow> int32" where
  "MultiPresignedHTTPRequest_GetPart = get_scalar 0 mh_Part"

definition SinglePresignedUploadUrl_GetRequest :: "SinglePresignedUploadUrl ptr \<Rightarrow> Request ptr" where
  "SinglePresignedUploadUrl_GetRequest = get_value None su_Request"

definition MultiPresignedUploadUrl_GetMultiParts :: "MultiPresignedUploadUrl ptr \<Rightarrow> MultiPresignedHTTPRequest ptr list" where
  "MultiPresignedUploadUrl_GetMultiParts = get_value [] mu_MultiParts"

definition MultiPresignedUploadUrl_GetPartSize :: "MultiPresignedUploadUrl ptr \<Rightarrow> goint" where
  "MultiPresignedUploadUrl_GetPartSize = get_scalar 0 mu_PartSize"

definition MultiPresignedUploadUrl_GetMultipartAttemptId :: "MultiPresignedUploadUrl ptr \<Rightarrow> goint" where
  "MultiPresignedUploadUrl_GetMultipartAttemptId = get_scalar 0 mu_MultipartAttemptId"

definition MultiPresignedUploadUrl_GetUploadedEtags :: "MultiPresignedUploadUrl ptr \<Rightarrow> PartEtag ptr list" where
  "MultiPresignedUploadUrl_GetUploadedEtags = get_value [] mu_UploadedEtags"

definition PresignedUploadUrl_GetPresignedUrl :: "PresignedUploadUrl ptr \<Rightarrow> isPresignedUploadUrl_PresignedUrl ptr" where
  "PresignedUploadUrl_GetPresignedUrl = get_value None pu_PresignedUrl"

definition PresignedFile_GetUploadFile :: "PresignedFile ptr \<Rightarrow> ImageFile ptr" where
  "PresignedFile_GetUploadFile = get_value None pf_UploadFile"

definition PresignedFile_GetPresignedUploadUrl :: "PresignedFile ptr \<Rightarrow> PresignedUploadUrl ptr" where
  "PresignedFile_GetPresignedUploadUrl = get_value None pf_PresignedUploadUrl"

definition PresignFileResult_GetDuplicateFiles :: "PresignFileResult ptr \<Rightarrow> ImageFile ptr list" where
  "PresignFileResult_GetDuplicateFiles = get_value [] fr_DuplicateFiles"

definition PresignFileResult_GetAlreadyUploadedFiles :: "PresignFileResult ptr \<Rightarrow> ImageFile ptr list" where
  "PresignFileResult_GetAlreadyUploadedFiles = get_value [] fr_AlreadyUploadedFiles"

definition PresignFileResult_GetPresignedFiles :: "PresignFileResult ptr \<Rightarrow> PresignedFile ptr list" where
  "PresignFileResult_GetPresignedFiles = get_value [] fr_PresignedFiles"

definition GeneratePresignedUrlRequest_GetLotImages :: "GeneratePresignedUrlRequest ptr \<Rightarrow> ImageFile ptr list" where
  "GeneratePresignedUrlRequest_GetLotImages = get_value [] gq_LotImages"

definition GeneratePresignedUrlRequest_GetLotId :: "GeneratePresignedUrlRequest ptr \<Rightarrow> string" where
  "GeneratePresignedUrlRequest_GetLotId = get_scalar '''' gq_LotId"

definition GeneratePresignedUrlResponse_GetSuccess :: "GeneratePresignedUrlResponse ptr \<Rightarrow> bool" where
  "GeneratePresignedUrlResponse_GetSuccess = get_scalar False gs_Success"

definition GeneratePresignedUrlResponse_GetMessage :: "GeneratePresignedUrlResponse ptr \<Rightarrow> string" where
  "GeneratePresignedUrlResponse_GetMessage = get_scalar '''' gs_Message"

definition GeneratePresignedUrlResponse_GetPresignResult :: "GeneratePresignedUrlResponse ptr \<Rightarrow> PresignFileResult ptr" where
  "GeneratePresignedUrlResponse_GetPresignResult = get_value None gs_PresignResult"

definition CompleteMultiPartUploadRequest_GetMultipartAttemptId :: "CompleteMultiPartUploadRequest ptr \<Rightarrow> goint" where
  "CompleteMultiPartUploadRequest_GetMultipartAttemptId = get_scalar 0 cq_MultipartAttemptId"

definition CompleteMultiPartUploadRequest_GetPartEtags :: "CompleteMultiPartUploadRequest ptr \<Rightarrow> PartEtag ptr list" where
  "CompleteMultiPartUploadRequest_GetPartEtags = get_value [] cq_PartEtags"

definition CompleteMultiPartUploadResponse_GetSuccess :: "CompleteMultiPartUploadResponse ptr \<Rightarrow> bool" where
  "CompleteMultiPartUploadResponse_GetSuccess = get_scalar False cs_Success"

definition CompleteMultiPartUploadResponse_GetMessage :: "CompleteMultiPartUploadResponse ptr \<Rightarrow> string" where
  "CompleteMultiPartUploadResponse_GetMessage = get_scalar '''' cs_Message"

definition LotMsg_GetLotTitle :: "LotMsg ptr \<Rightarrow> string" where
  "LotMsg_GetLotTitle = get_scalar '''' lm_LotTitle"

definition LotMsg_GetDescription :: "LotMsg ptr \<Rightarrow> string" where
  "LotMsg_GetDescription = get_scalar '''' lm_Description"

definition LotMsg_GetCategory :: "LotMsg ptr \<Rightarrow> string" where
  "LotMsg_GetCategory = get_scalar '''' lm_Category"

definition LotMsg_GetBidOpeningPrice :: "LotMsg ptr \<Rightarrow> int32" where
  "LotMsg_GetBidOpeningPrice = get_scalar 0 lm_BidOpeningPrice"

definition CreateLotRequest_GetLot :: "CreateLotRequest ptr \<Rightarrow> LotMsg ptr" where
  "CreateLotRequest_GetLot = get_value None kq_Lot"

definition CreateLotResponse_GetSuccess :: "CreateLotResponse ptr \<Rightarrow> bool" where
  "CreateLotResponse_GetSuccess = get_scalar False ks_Success"

definition CreateLotResponse_GetMessage :: "CreateLotResponse ptr \<Rightarrow> string" where
  "CreateLotResponse_GetMessage = get_scalar '''' ks_Message"

definition CreateLotResponse_GetLotId :: "CreateLotResponse ptr \<Rightarrow> string" where
  "CreateLotResponse_GetLotId = get_scalar '''' ks_LotId"

definition PresignedUploadUrl_GetSingle :: "PresignedUploadUrl ptr \<Rightarrow> SinglePresignedUploadUrl ptr" where
  "PresignedUploadUrl_GetSingle x = (case x of
      None \<Rightarrow> None
    | Some m \<Rightarrow> (case pu_PresignedUrl m of Some (PresignedUploadUrl_Single s) \<Rightarrow> s | _ \<Rightarrow> None))"

definition PresignedUploadUrl_GetMulti :: "PresignedUploadUrl ptr \<Rightarrow> MultiPresignedUploadUrl ptr" where
  "PresignedUploadUrl_GetMulti x = (case x of
      None \<Rightarrow> None
    | Some m \<Rightarrow> (case pu_PresignedUrl m of Some (PresignedUploadUrl_Multi u) \<Rightarrow> u | _ \<Rightarrow> None))"

section \<open>Validation rules\<close>

definition ImageFile_rules :: "ImageFile \<Rightarrow> bool" where
  "ImageFile_rules m \<longleftrightarrow>
     (case if_Sha256 m of None \<Rightarrow> False | Some s \<Rightarrow> rune_count s = 64) \<and>
     (case if_FileName m of None \<Rightarrow> False | Some s \<Rightarrow> 3 \<le> rune_count s \<and> rune_count s \<le> 250) \<and>
     (case if_FileSize m of None \<Rightarrow> True | Some n \<Rightarrow> unat n \<le> 6442450944)"

definition GeneratePresignedUrlRequest_rules :: "GeneratePresignedUrlRequest \<Rightarrow> bool" where
  "GeneratePresignedUrlRequest_rules m \<longleftrightarrow> list_all (\<lambda>p. case p of None \<Rightarrow> True | Some i \<Rightarrow> ImageFile_rules i) (gq_LotImages m)"

definition PartEtag_rules :: "PartEtag \<Rightarrow> bool" where
  "PartEtag_rules m \<longleftrightarrow> (case pe_Part m of None \<Rightarrow> True | Some n \<Rightarrow> 1 \<le> unat n \<and> unat n \<le> 10000)"

definition CompleteMultiPartUploadRequest_rules :: "CompleteMultiPartUploadRequest \<Rightarrow> bool" where
  "CompleteMultiPartUploadRequest_rules m \<longleftrightarrow> list_all (\<lambda>p. case p of None \<Rightarrow> True | Some e \<Rightarrow> PartEtag_rules e) (cq_PartEtags m)"

definition LotMsg_rules :: "LotMsg \<Rightarrow> bool" where
  "LotMsg_rules m \<longleftrightarrow>
     (case lm_LotTitle m of None \<Rightarrow> False | Some s \<Rightarrow> 1 \<le> rune_count s) \<and>
     (case lm_Description m of None \<Rightarrow> False | Some s \<Rightarrow> 1 \<le> rune_count s) \<and>
     (case lm_Category m of None \<Rightarrow> False | Some s \<Rightarrow> 1 \<le> rune_count s)"

definition CreateLotRequest_rules :: "CreateLotRequest \<Rightarrow> bool" where
  "CreateLotRequest_rules m \<longleftrightarrow> (case kq_Lot m of None \<Rightarrow> True | Some l \<Rightarrow> LotMsg_rules l)"

end
