(* ===== verification/Server_World.thy ===== *)
theory Server_World
  imports Filestore_Statements Lot_Messages
begin

text \<open>
  What a request handler can read and write: the database over the server's connection, the object
  store, and the process's random source; and the outside calls it makes, as parameters.

  \<^item> \<open>world\<close>: the tables, the state \<open>'s\<close> of the object store, the number of reads of the random source.
  \<^item> \<open>env\<close>: the answers of the outside: the faults of the connection, the clock of the transaction, the
    outcome of \<open>Begin\<close> and \<open>Commit\<close>, the random bytes, the order in which \<open>range\<close> visits a map (given its keys), and
    the S3 client (github.com/aws/aws-sdk-go-v2). An S3 call gives back an output or an error; a
    string or number of an output is a pointer.
  \<^item> \<open>in_tx\<close>: \<open>Begin\<close>, the body, \<open>Commit\<close>, with the deferred \<open>Rollback\<close>: a failure or a panic of the
    body gives the tables back as they were; identity values and random draws stay used.
\<close>

section \<open>The object store\<close>

record PresignedHTTPRequest =
  ph_URL :: string
  ph_Method :: string
  ph_SignedHeader :: "string \<rightharpoonup> string list"

record s3_Part =
  s3p_ETag :: "string ptr"
  s3p_PartNumber :: "int32 ptr"

record CompletedPart =
  cp_ETag :: "string ptr"
  cp_PartNumber :: "int32 ptr"

text \<open>The input of \<open>PresignPutObject\<close>, with the options of the presigner.\<close>

record PutObjectInput =
  po_Bucket :: string
  po_Key :: string
  po_ChecksumAlgorithm :: string
  po_ChecksumSHA256 :: string
  po_Expires :: int
  po_DisableHeaderHoisting :: bool

record UploadPartInput =
  up_Bucket :: string
  up_Key :: string
  up_PartNumber :: int32
  up_UploadId :: string
  up_Expires :: int

record ListPartsInput =
  lp_Bucket :: string
  lp_Key :: string
  lp_UploadId :: "string ptr"

record CompleteMultipartUploadInput =
  cm_Bucket :: string
  cm_Key :: string
  cm_UploadId :: "string ptr"
  cm_Parts :: "CompletedPart list"

type_synonym ('s, 'a) s3_call = "'s \<Rightarrow> (err + 'a) \<times> 's"

record 's s3_api =
  CreateMultipartUpload :: "string \<Rightarrow> string \<Rightarrow> ('s, string ptr) s3_call"
  ListParts :: "ListPartsInput \<Rightarrow> ('s, s3_Part list) s3_call"
  CompleteMultipartUpload :: "CompleteMultipartUploadInput \<Rightarrow> ('s, unit) s3_call"
  PresignPutObject :: "PutObjectInput \<Rightarrow> ('s, PresignedHTTPRequest) s3_call"
  PresignUploadPart :: "UploadPartInput \<Rightarrow> ('s, PresignedHTTPRequest) s3_call"

section \<open>World and environment\<close>

record 's world =
  w_db :: db
  w_s3 :: 's
  w_rand :: nat

text \<open>
  What becomes of a \<open>Commit\<close>: it succeeds; it fails with the transaction undone; or the connection is
  lost after the server has committed, and the client sees an error all the same.
\<close>

datatype commit_outcome = CommitOk | CommitFailed err | CommitLost err

record 's env =
  e_faults :: faults
  e_sql :: sql_env
  e_begin :: "err option"
  e_commit :: commit_outcome
  e_rand :: "nat \<Rightarrow> err + bytes"
  e_range :: "string list \<Rightarrow> string list"
  e_s3 :: "'s s3_api"

type_synonym ('s, 'a) action = "('s world, err, 'a) prog"

definition on_db :: "(db, err, 'a) prog \<Rightarrow> ('s, 'a) action" where
  "on_db m = (\<lambda>w. case m (w_db w) of (r, d) \<Rightarrow> (r, w\<lparr>w_db := d\<rparr>))"

definition on_s3 :: "('s, 'a) s3_call \<Rightarrow> ('s, 'a) action" where
  "on_s3 c = (\<lambda>w. case c (w_s3 w) of (r, t) \<Rightarrow> (of_sum r, w\<lparr>w_s3 := t\<rparr>))"

text \<open>\<open>uuid.NewRandom\<close>: 16 bytes from the random source, or its error.\<close>

definition NewRandom :: "'s env \<Rightarrow> ('s, uuid) action" where
  "NewRandom env = (\<lambda>w.
     (case e_rand env (w_rand w) of Inl e \<Rightarrow> Fail e | Inr r \<Rightarrow> Ret (uuid_of_random r),
      w\<lparr>w_rand := w_rand w + 1\<rparr>))"

section \<open>Transactions\<close>

text \<open>Rolling back from \<open>d\<close> to \<open>d0\<close>: sequences and random draws do not go back.\<close>

definition rolled_back :: "db \<Rightarrow> db \<Rightarrow> db" where
  "rolled_back d0 d = d0\<lparr>lot_image_seq := lot_image_seq d, attempt_seq := attempt_seq d, uuid_ctr := uuid_ctr d\<rparr>"

definition rollback_to :: "db \<Rightarrow> 's world \<Rightarrow> 's world" where
  "rollback_to d0 w = w\<lparr>w_db := rolled_back d0 (w_db w)\<rparr>"

definition in_tx ::
  "'s env \<Rightarrow> (err \<Rightarrow> err) \<Rightarrow> (err \<Rightarrow> err) \<Rightarrow> ('s, 'a) action \<Rightarrow> ('s, 'a) action" where
  "in_tx env begin_err commit_err body = (\<lambda>w.
     case e_begin env of
       Some e \<Rightarrow> (Fail (begin_err e), w)
     | None \<Rightarrow>
         (case body w of
            (Fail e, w') \<Rightarrow> (Fail e, rollback_to (w_db w) w')
          | (Panic p, w') \<Rightarrow> (Panic p, rollback_to (w_db w) w')
          | (Ret a, w') \<Rightarrow>
              (case e_commit env of
                 CommitOk \<Rightarrow> (Ret a, w')
               | CommitFailed e \<Rightarrow> (Fail (commit_err e), rollback_to (w_db w) w')
               | CommitLost e \<Rightarrow> (Fail (commit_err e), w'))))"

section \<open>Lemmas\<close>

lemma on_db_Ret_iff: "on_db m w = (Ret a, w') \<longleftrightarrow> (\<exists>d. m (w_db w) = (Ret a, d) \<and> w' = w\<lparr>w_db := d\<rparr>)"
  by (auto simp: on_db_def split: prod.splits)

lemma on_s3_Ret_iff: "on_s3 c w = (Ret a, w') \<longleftrightarrow> (\<exists>t. c (w_s3 w) = (Inr a, t) \<and> w' = w\<lparr>w_s3 := t\<rparr>)"
  by (auto simp: on_s3_def split: prod.splits)

lemma on_s3_not_Panic [simp]: "on_s3 c w \<noteq> (Panic p, w')"
  by (auto simp: on_s3_def split: prod.splits)

lemma keeps_on_db [keeps_intros]: "keeps I m \<Longrightarrow> keeps (\<lambda>w. I (w_db w)) (on_db m)"
  by (force simp: keeps_def on_db_def split: prod.splits)

lemma keeps_on_s3 [keeps_intros]: "keeps (\<lambda>w. I (w_db w)) (on_s3 c)"
  by (auto simp: keeps_def on_s3_def split: prod.splits)

lemma keeps_NewRandom [keeps_intros]: "keeps (\<lambda>w. I (w_db w)) (NewRandom env)"
  by (simp add: keeps_def NewRandom_def)

lemma NewRandom_Ret:
  "NewRandom env w = (Ret u, w') \<Longrightarrow> \<exists>r. e_rand env (w_rand w) = Inr r \<and> u = uuid_of_random r \<and> w' = w\<lparr>w_rand := w_rand w + 1\<rparr>"
  by (auto simp: NewRandom_def split: sum.splits)

lemma NewRandom_not_Panic [simp]: "NewRandom env w \<noteq> (Panic p, w')"
  by (auto simp: NewRandom_def split: sum.splits)

text \<open>The tables alone, without sequences.\<close>

definition same_tables :: "db \<Rightarrow> db \<Rightarrow> bool" where
  "same_tables d0 d \<longleftrightarrow> lots d = lots d0 \<and> image_blobs d = image_blobs d0 \<and> lot_images d = lot_images d0 \<and>
     attempts d = attempts d0"

lemma rolled_back_tables [simp]: "same_tables d0 (rolled_back d0 d)"
  by (simp add: same_tables_def rolled_back_def)

lemma same_tables_refl [simp]: "same_tables d d"
  by (simp add: same_tables_def)

lemma rolled_back_wf: "db_wf d0 \<Longrightarrow> seqs_le d0 d \<Longrightarrow> db_wf (rolled_back d0 d)"
  by (fastforce simp: db_wf_def seqs_le_def rolled_back_def lot_ids_def attempts_wf_def)

lemma w_db_rollback_to [simp]: "w_db (rollback_to d0 w) = rolled_back d0 (w_db w)"
  by (simp add: rollback_to_def)

text \<open>A transaction that does not return normally leaves the tables alone, unless its commit was lost.\<close>

lemma in_tx_atomic:
  assumes "in_tx env b c body w = (r, w')" and "\<And>a. r \<noteq> Ret a"
  shows "same_tables (w_db w) (w_db w') \<or> (\<exists>e a. e_commit env = CommitLost e \<and> body w = (Ret a, w'))"
  using assms
  by (auto simp: in_tx_def split: option.splits prod.splits outcome.splits commit_outcome.splits)

lemma in_tx_Ret_iff:
  "in_tx env b c body w = (Ret a, w') \<longleftrightarrow> e_begin env = None \<and> e_commit env = CommitOk \<and> body w = (Ret a, w')"
  by (auto simp: in_tx_def split: option.splits prod.splits outcome.splits commit_outcome.splits)

lemma in_tx_Panic: "in_tx env b c body w = (Panic p, w') \<Longrightarrow> \<exists>w''. body w = (Panic p, w'')"
  by (auto simp: in_tx_def split: option.splits prod.splits outcome.splits commit_outcome.splits)

lemma in_tx_grown:
  assumes wf: "db_wf (w_db w)" and body: "grown (w_db w) (w_db (snd (body w)))"
  shows "grown (w_db w) (w_db (snd (in_tx env b c body w)))"
proof -
  have roll: "grown (w_db w) (rolled_back (w_db w) (w_db (snd (body w))))"
    using rolled_back_wf [OF wf] body by (auto simp: grown_def seqs_le_def history_def rolled_back_def)
  show ?thesis
    using roll body grown_refl [OF wf]
    by (auto simp: in_tx_def split: option.splits prod.splits outcome.splits commit_outcome.splits)
qed

end
