(* ===== verification/Upload_Files.thy ===== *)
theory Upload_Files
  imports Server_World
begin

text \<open>
  The data and the pure functions of package imagestore (src/internal/imagestore): the records of
  image_upload.go, the batching and sorting of files, and the converters of image_store.go between
  protobuf messages and the package's own types.

  A converter that dereferences a field panics when the field is absent. \<open>bigint\<close> columns are
  integers; the driver reads them as \<open>int64\<close>, written here as a conversion where a message takes them.
\<close>

section \<open>Constants and records\<close>

definition multipartThreshold :: int where
  "multipartThreshold = 150 * 1024 * 1024"

definition partSize :: int where
  "partSize = 10 * 1024 * 1024"

text \<open>\<open>15 * time.Minute\<close>, in nanoseconds.\<close>

definition presignExpiry :: int where
  "presignExpiry = 15 * 60 * 1000000000"

record s3Storage =
  bucketName :: string

record uploadFile =
  uf_Sha256 :: string
  uf_FileName :: string
  uf_ClientFileId :: string
  uf_FileSize :: gouint

definition zero_uploadFile :: uploadFile where
  "zero_uploadFile = \<lparr>uf_Sha256 = '''', uf_FileName = '''', uf_ClientFileId = '''', uf_FileSize = 0\<rparr>"

record imageEtag =
  ie_etag :: string
  ie_partNumber :: int32

record multiPresignedRequest =
  mq_request :: "PresignedHTTPRequest ptr"
  mq_part :: int16

record multiPresignedUrl =
  mU_requests :: "multiPresignedRequest list"
  mU_multipartAttemptId :: int
  mU_partSize :: int
  mU_imageEtags :: "imageEtag list"

record singlePresignedUrl =
  sU_request :: "PresignedHTTPRequest ptr"

record presignedUploadUrl =
  pU_Single :: singlePresignedUrl
  pU_Multi :: multiPresignedUrl

record presignedFileUrl =
  pF_uploadFile :: uploadFile
  pF_presignedUploadUrl :: presignedUploadUrl

definition zero_multiPresignedUrl :: multiPresignedUrl where
  "zero_multiPresignedUrl = \<lparr>mU_requests = [], mU_multipartAttemptId = 0, mU_partSize = 0, mU_imageEtags = []\<rparr>"

definition single_url :: "uploadFile \<Rightarrow> singlePresignedUrl \<Rightarrow> presignedFileUrl" where
  "single_url f u = \<lparr>pF_uploadFile = f, pF_presignedUploadUrl = \<lparr>pU_Single = u, pU_Multi = zero_multiPresignedUrl\<rparr>\<rparr>"

definition multi_url :: "uploadFile \<Rightarrow> multiPresignedUrl \<Rightarrow> presignedFileUrl" where
  "multi_url f u = \<lparr>pF_uploadFile = f, pF_presignedUploadUrl = \<lparr>pU_Single = \<lparr>sU_request = None\<rparr>, pU_Multi = u\<rparr>\<rparr>"

record singleFileData =
  sd_singleFileUploads :: "uploadFile list"
  sd_Sha256s :: "string list"
  sd_Sizes :: "int32 list"
  sd_ContentTypes :: "string list"
  sd_Names :: "string list"

record multipartFileData =
  md_multiFileUploadMap :: "string \<rightharpoonup> uploadFile"
  md_Sha256s :: "string list"
  md_Sizes :: "int32 list"
  md_ContentTypes :: "string list"
  md_Names :: "string list"
  md_StorageKeys :: "uuid list"
  md_UploadIds :: "string list"

record extractFile =
  ex_singleFile :: singleFileData
  ex_multipartFile :: multipartFileData

record newMultipartGenerationData =
  ng_objectKey :: string
  ng_fileParts :: "int16 list"
  ng_uploadId :: string
  ng_storageKey :: string
  ng_sha256 :: string
  ng_partSize :: int
  ng_multipartAttemptId :: int

record uploadIdentity =
  ui_storageKey :: string
  ui_uploadId :: string

record uploadFileRequestResult =
  ur_duplicateFiles :: "uploadFile list"
  ur_alreadyUploadedFiles :: "uploadFile list"
  ur_presignedFileUrls :: "presignedFileUrl list"

section \<open>Batching\<close>

fun intent_loop :: "uploadFile list \<Rightarrow> (string \<rightharpoonup> bool) \<Rightarrow> uploadFile list \<Rightarrow> uploadFile list \<Rightarrow> uploadFile list \<times> uploadFile list" where
  "intent_loop [] isSeenFileMap files duplicateFiles = (files, duplicateFiles)"
| "intent_loop (v # vs) isSeenFileMap files duplicateFiles =
     (let seen' = isSeenFileMap(uf_Sha256 v \<mapsto> True)
      in if map_get False isSeenFileMap (uf_Sha256 v)
         then intent_loop vs seen' files (duplicateFiles @ [v])
         else intent_loop vs seen' (files @ [v]) duplicateFiles)"

definition intentBatchUpload :: "uploadFile list \<Rightarrow> uploadFile list \<times> uploadFile list" where
  "intentBatchUpload fileToUpload = intent_loop fileToUpload Map.empty [] []"

text \<open>The loop visits the keys of \<open>fileMap\<close> in the order \<open>ks\<close>.\<close>

fun separate_loop :: "(string \<rightharpoonup> uploadFile) \<Rightarrow> (string \<rightharpoonup> 'r) \<Rightarrow> string list \<Rightarrow> uploadFile list \<Rightarrow> uploadFile list \<Rightarrow>
    uploadFile list \<times> uploadFile list" where
  "separate_loop fileMap existingFileMap [] needToBe already = (needToBe, already)"
| "separate_loop fileMap existingFileMap (k # ks) needToBe already =
     (let file = map_get zero_uploadFile fileMap k
      in if existingFileMap (uf_Sha256 file) \<noteq> None
         then separate_loop fileMap existingFileMap ks needToBe (already @ [file])
         else separate_loop fileMap existingFileMap ks (needToBe @ [file]) already)"

definition separateUploadedAndNeedToBeUploadedFiles ::
  "(string \<rightharpoonup> uploadFile) \<Rightarrow> (string \<rightharpoonup> 'r) \<Rightarrow> string list \<Rightarrow> uploadFile list \<times> uploadFile list" where
  "separateUploadedAndNeedToBeUploadedFiles fileMap existingFileMap ks =
     separate_loop fileMap existingFileMap ks [] []"

section \<open>Sorting the rows of a multipart upsert\<close>

definition generation_data :: "InsertAndValidateMultiPartUploadRow \<Rightarrow> (err, newMultipartGenerationData) outcome" where
  "generation_data r =
     bindo (deref (mr_UploadID r)) (\<lambda>upload_id.
     bindo (deref (mr_PartSize r)) (\<lambda>part_size.
       Ret \<lparr>ng_objectKey = uuid_String (mr_StorageKey r), ng_fileParts = mr_Parts r, ng_uploadId = upload_id,
         ng_storageKey = uuid_String (mr_StorageKey r), ng_sha256 = mr_Sha256 r, ng_partSize = part_size,
         ng_multipartAttemptId = mr_ImageBlobUploadAttemptID r\<rparr>))"

fun segregate_loop :: "InsertAndValidateMultiPartUploadRow list \<Rightarrow> newMultipartGenerationData list \<Rightarrow>
    newMultipartGenerationData list \<Rightarrow> (err, newMultipartGenerationData list \<times> newMultipartGenerationData list) outcome" where
  "segregate_loop [] newMultiUploads resumableMultiUploads = Ret (newMultiUploads, resumableMultiUploads)"
| "segregate_loop (r # rs) newMultiUploads resumableMultiUploads =
     (if mr_IsInserted r \<or> (\<not> mr_IsInserted r \<and> \<not> mr_IsValid r)
      then bindo (generation_data r) (\<lambda>g. segregate_loop rs (newMultiUploads @ [g]) resumableMultiUploads)
      else if mr_IsValid r
      then bindo (generation_data r) (\<lambda>g. segregate_loop rs newMultiUploads (resumableMultiUploads @ [g]))
      else segregate_loop rs newMultiUploads resumableMultiUploads)"

definition segregateMultiUploadFiles ::
  "InsertAndValidateMultiPartUploadRow list \<Rightarrow>
   (err, newMultipartGenerationData list \<times> newMultipartGenerationData list) outcome" where
  "segregateMultiUploadFiles multiUploadResult = segregate_loop multiUploadResult [] []"

section \<open>Parts still missing\<close>

definition uploaded_etag :: "s3_Part \<Rightarrow> (err, imageEtag) outcome" where
  "uploaded_etag p =
     bindo (deref (s3p_ETag p)) (\<lambda>etag.
     bindo (deref (s3p_PartNumber p)) (\<lambda>n. Ret \<lparr>ie_etag = etag, ie_partNumber = n\<rparr>))"

definition missing_parts :: "imageEtag list \<Rightarrow> int16 list \<Rightarrow> int16 list" where
  "missing_parts uploaded allParts =
     (let uploadedPartsMap = map_build (\<lambda>t. int16_of_int32 (ie_partNumber t)) (\<lambda>_. ()) uploaded
      in filter (\<lambda>part. uploadedPartsMap part = None) allParts)"

section \<open>Checksums\<close>

definition hexToBase64 :: "string \<Rightarrow> (err, string) outcome" where
  "hexToBase64 hexString = (case hex_decode hexString of
      Inl e \<Rightarrow> Fail (Leaf (Hex e))
    | Inr hexByte \<Rightarrow> Ret (b64_encode hexByte))"

section \<open>Storage errors for the client\<close>

definition convertToFieldErr :: "StorageField list \<Rightarrow> field_error list" where
  "convertToFieldErr storageErrDetails =
     map (\<lambda>d. \<lparr>Field = sf_Subject d, Description = sf_Description d\<rparr>) storageErrDetails"

definition client_err :: "AppErr \<Rightarrow> err" where
  "client_err e = App (MarkAsClientErr e)"

text \<open>The reaction to a failed statement, the same in three functions but for its texts.\<close>

definition storage_failure :: "string \<Rightarrow> string \<Rightarrow> string \<Rightarrow> err \<Rightarrow> err" where
  "storage_failure operation what precondition_message e =
     (case DeriveIfStorageErrorMessage e of
        None \<Rightarrow> client_err (InternalServerError operation (Some (Errorf what (Some e) '''')) ''internal error'')
      | Some errFields \<Rightarrow> client_err (PreconditionFailedError operation
          \<lparr>ed_Fields = convertToFieldErr errFields, ed_Message = precondition_message\<rparr> (Some e)))"

section \<open>Converters\<close>

definition convertToUploadFile :: "ImageFile ptr \<Rightarrow> (err, uploadFile) outcome" where
  "convertToUploadFile imageFile =
     bindo (deref imageFile) (\<lambda>m.
     bindo (deref (if_Sha256 m)) (\<lambda>sha256.
     bindo (deref (if_FileName m)) (\<lambda>fileName.
     bindo (deref (if_ClientFileId m)) (\<lambda>clientFileId.
     bindo (deref (if_FileSize m)) (\<lambda>fileSize.
       Ret \<lparr>uf_Sha256 = sha256, uf_FileName = fileName, uf_ClientFileId = itoa (sint clientFileId),
         uf_FileSize = fileSize\<rparr>)))))"

definition convertToUploadFiles :: "ImageFile ptr list \<Rightarrow> (err, uploadFile list) outcome" where
  "convertToUploadFiles imageFiles = mapo convertToUploadFile imageFiles"

definition convertToImageFile :: "uploadFile \<Rightarrow> (err, ImageFile ptr) outcome" where
  "convertToImageFile file =
     (case atoi (uf_ClientFileId file) of
        Inl e \<Rightarrow> Fail (client_err (InternalServerError ''imagestore.convertToImageFile''
          (Some (Errorf (''cannot convert client file id '' @ uf_ClientFileId file @ '' to integer:'')
             (Some (Leaf (Num ''Atoi'' (uf_ClientFileId file) e))) '''')) ''internal error''))
      | Inr clientId \<Rightarrow> Ret (Some \<lparr>if_Sha256 = Some (uf_Sha256 file), if_FileName = Some (uf_FileName file),
          if_ClientFileId = Some (word_of_int clientId), if_FileSize = Some (uf_FileSize file)\<rparr>))"

definition convertToImageFiles :: "uploadFile list \<Rightarrow> (err, ImageFile ptr list) outcome" where
  "convertToImageFiles files = mapo convertToImageFile files"

definition convertToCompletedPart :: "PartEtag ptr list \<Rightarrow> (err, CompletedPart list) outcome" where
  "convertToCompletedPart wireFormatEtagParts =
     mapo (\<lambda>p. bindo (deref p) (\<lambda>etagPart. bindo (deref (pe_Part etagPart)) (\<lambda>part.
       Ret \<lparr>cp_ETag = pe_Etag etagPart, cp_PartNumber = Some part\<rparr>))) wireFormatEtagParts"

definition convertToUploadedEtags :: "imageEtag list \<Rightarrow> PartEtag ptr list" where
  "convertToUploadedEtags imageTags =
     map (\<lambda>tag. Some \<lparr>pe_Etag = Some (ie_etag tag), pe_Part = Some (ie_partNumber tag)\<rparr>) imageTags"

definition header_values :: "(string \<rightharpoonup> string list) \<Rightarrow> (string \<rightharpoonup> HeaderValues ptr)" where
  "header_values h = (\<lambda>key. map_option (\<lambda>values. Some \<lparr>hv_Values = values\<rparr>) (h key))"

definition convertToLotImageSinglePresignedHttpRequest :: "PresignedHTTPRequest ptr \<Rightarrow> (err, Request ptr) outcome" where
  "convertToLotImageSinglePresignedHttpRequest presignedRequest =
     bindo (deref presignedRequest) (\<lambda>r.
       Ret (Some \<lparr>rq_Url = Some (ph_URL r), rq_Method = Some (ph_Method r),
         rq_SignedHeader = header_values (ph_SignedHeader r)\<rparr>))"

definition convertToLotImageMultiPresignedHttpRequest ::
  "multiPresignedRequest \<Rightarrow> (err, MultiPresignedHTTPRequest ptr) outcome" where
  "convertToLotImageMultiPresignedHttpRequest m =
     bindo (deref (mq_request m)) (\<lambda>r.
       Ret (Some \<lparr>mh_Request = Some \<lparr>rq_Url = Some (ph_URL r), rq_Method = Some (ph_Method r),
           rq_SignedHeader = header_values (ph_SignedHeader r)\<rparr>,
         mh_Part = Some (int32_of_int16 (mq_part m))\<rparr>))"

definition convertToLotImageMultiPartPresignedHttpRequest ::
  "multiPresignedUrl \<Rightarrow> (err, MultiPresignedHTTPRequest ptr list) outcome" where
  "convertToLotImageMultiPartPresignedHttpRequest u =
     mapo convertToLotImageMultiPresignedHttpRequest (mU_requests u)"

definition convertToPresignedFile :: "presignedFileUrl \<Rightarrow> (err, PresignedFile ptr) outcome" where
  "convertToPresignedFile presignedUrl =
     bindo (convertToImageFile (pF_uploadFile presignedUrl)) (\<lambda>imageFile.
     let u = pF_presignedUploadUrl presignedUrl in
     bindo
       (if sU_request (pU_Single u) \<noteq> None
        then bindo (convertToLotImageSinglePresignedHttpRequest (sU_request (pU_Single u))) (\<lambda>r.
          Ret (PresignedUploadUrl_Single (Some \<lparr>su_Request = r\<rparr>)))
        else bindo (convertToLotImageMultiPartPresignedHttpRequest (pU_Multi u)) (\<lambda>parts.
          Ret (PresignedUploadUrl_Multi (Some \<lparr>mu_MultiParts = parts,
            mu_PartSize = Some (word_of_int (mU_partSize (pU_Multi u))),
            mu_MultipartAttemptId = Some (word_of_int (mU_multipartAttemptId (pU_Multi u))),
            mu_UploadedEtags = convertToUploadedEtags (mU_imageEtags (pU_Multi u))\<rparr>))))
       (\<lambda>url. Ret (Some \<lparr>pf_UploadFile = imageFile, pf_PresignedUploadUrl = Some \<lparr>pu_PresignedUrl = Some url\<rparr>\<rparr>)))"

definition convertToPresignedImageFiles :: "presignedFileUrl list \<Rightarrow> (err, PresignedFile ptr list) outcome" where
  "convertToPresignedImageFiles presignedUrls = mapo convertToPresignedFile presignedUrls"

end
