(* ===== verification/Image_Upload.thy ===== *)
theory Image_Upload
  imports Upload_Files
begin

text \<open>
  src/internal/imagestore/image_upload.go: the upload request, from the batch of files to the
  presigned URLs, and the completion of a multipart upload. Every function is a program over \<open>world\<close>,
  with its calls in the order of the source; \<open>on_error\<close> is the wrapping of an error before it is
  returned.
\<close>

section \<open>Object store calls\<close>

definition makeUUIDText :: "'s env \<Rightarrow> ('s, string) action" where
  "makeUUIDText env =
     bindp (on_error (NewRandom env) (\<lambda>e. App (InternalServerError ''fileupload.makeUUIDText''
              (Some (Errorf ''cannot generate uuid:'' (Some e) '''')) ''internal error'')))
       (\<lambda>u. liftp (Ret (uuid_String u)))"

definition generateMultiPartUploadId :: "'s env \<Rightarrow> s3Storage \<Rightarrow> string \<Rightarrow> ('s, string) action" where
  "generateMultiPartUploadId env st objectKey =
     bindp (on_error (on_s3 (CreateMultipartUpload (e_s3 env) (bucketName st) objectKey))
              (\<lambda>e. client_err (InternalServerError ''fileupload.generateMultiPartUploadId''
                 (Some (Errorf ''creation of multipart upload failed:'' (Some e) '''')) ''internal error'')))
       (\<lambda>multipartCreated. liftp (deref multipartCreated))"

definition generateSinglePresignedPutObjectUrl ::
  "'s env \<Rightarrow> s3Storage \<Rightarrow> string \<Rightarrow> string \<Rightarrow> ('s, singlePresignedUrl) action" where
  "generateSinglePresignedPutObjectUrl env st objectKey sha256 =
     bindp (on_error (liftp (hexToBase64 sha256))
              (\<lambda>e. client_err (InternalServerError ''fileupload.generateSinglePresignedPutObjectUrl''
                 (Some (Errorf (''conversion of hex to base64 version of sha256('' @ sha256 @ '') failed:'') (Some e) ''''))
                 ''internal error'')))
       (\<lambda>base64EncodedSha256.
     bindp (on_error (on_s3 (PresignPutObject (e_s3 env)
                \<lparr>po_Bucket = bucketName st, po_Key = objectKey, po_ChecksumAlgorithm = ''SHA256'',
                 po_ChecksumSHA256 = base64EncodedSha256, po_Expires = presignExpiry, po_DisableHeaderHoisting = True\<rparr>))
              (\<lambda>e. client_err (InternalServerError ''fileupload.generateSinglePresignedPutObjectUrl''
                 (Some (Errorf (''PresignPutObject failed, key is '' @ objectKey @ '',base64 encoded sha256 is '' @
                    base64EncodedSha256 @ '';'') (Some e) '''')) ''internal error'')))
       (\<lambda>presignResult. liftp (Ret \<lparr>sU_request = Some presignResult\<rparr>)))"

text \<open>One presigned part, the body of the loops of the next two functions.\<close>

definition presign_part ::
  "'s env \<Rightarrow> s3Storage \<Rightarrow> uploadIdentity \<Rightarrow> (err \<Rightarrow> err) \<Rightarrow> int16 \<Rightarrow> ('s, multiPresignedRequest) action" where
  "presign_part env st u wrap partNumber =
     bindp (on_error (on_s3 (PresignUploadPart (e_s3 env)
                \<lparr>up_Bucket = bucketName st, up_Key = ui_storageKey u, up_PartNumber = int32_of_int16 partNumber,
                 up_UploadId = ui_uploadId u, up_Expires = presignExpiry\<rparr>)) wrap)
       (\<lambda>r. liftp (Ret \<lparr>mq_request = Some r, mq_part = partNumber\<rparr>))"

definition generateNewMultiPartUploadUrls ::
  "'s env \<Rightarrow> s3Storage \<Rightarrow> uploadIdentity \<Rightarrow> int16 list \<Rightarrow> ('s, multiPresignedRequest list) action" where
  "generateNewMultiPartUploadUrls env st u fileParts =
     mapp (presign_part env st u
        (\<lambda>e. client_err (InternalServerError ''fileupload.generateNewMultiPartUploadUrls''
           (Some (Errorf ''creating mulipart upload url failed: '' (Some e) ''''))
           ''generation of multipart upload url failed''))) fileParts"

definition generateExistingMultiPartPresignedUrl ::
  "'s env \<Rightarrow> s3Storage \<Rightarrow> uploadIdentity \<Rightarrow> int16 list \<Rightarrow> ('s, multiPresignedRequest list) action" where
  "generateExistingMultiPartPresignedUrl env st u nonUploadedParts =
     mapp (presign_part env st u
        (\<lambda>e. client_err (InternalServerError ''fileupload.generateExistingMultiPartPresignedUrl''
           (Some (Errorf ''cannot create presigned url for resumable multipart upload:'' (Some e) ''''))
           ''internal error''))) nonUploadedParts"

definition listNotUploadedParts ::
  "'s env \<Rightarrow> s3Storage \<Rightarrow> uploadIdentity \<Rightarrow> int16 list \<Rightarrow> ('s, int16 list \<times> imageEtag list) action" where
  "listNotUploadedParts env st u allParts =
     bindp (on_error (on_s3 (ListParts (e_s3 env)
                \<lparr>lp_Bucket = bucketName st, lp_Key = ui_storageKey u, lp_UploadId = Some (ui_uploadId u)\<rparr>))
              (\<lambda>e. App (InternalServerError ''fileupload.listNotUploadedParts''
                 (Some (Errorf ''s3Client list parts api failed:'' (Some e) '''')) ''cannot find uploaded parts'')))
       (\<lambda>alreadyUploadedParts.
     bindp (liftp (mapo uploaded_etag alreadyUploadedParts))
       (\<lambda>uploadedPartsEtag. liftp (Ret (missing_parts uploadedPartsEtag allParts, uploadedPartsEtag))))"

definition generateResumeUploadUrls ::
  "'s env \<Rightarrow> s3Storage \<Rightarrow> uploadIdentity \<Rightarrow> int16 list \<Rightarrow> ('s, multiPresignedRequest list \<times> imageEtag list) action" where
  "generateResumeUploadUrls env st u allParts =
     bindp (on_error (listNotUploadedParts env st u allParts)
              (\<lambda>e. client_err (InternalServerError ''fileupload.generateResumeUploadUrls''
                 (Some (Errorf ''listing of non-uploaded parts failed:'' (Some e) '''')) ''internal error'')))
       (\<lambda>(nonUploadedParts, uploadedEtags).
     bindp (generateExistingMultiPartPresignedUrl env st u nonUploadedParts)
       (\<lambda>resumeMultiParts. liftp (Ret (resumeMultiParts, uploadedEtags))))"

section \<open>Sorting files by size\<close>

definition zero_extractFile :: extractFile where
  "zero_extractFile = \<lparr>ex_singleFile = \<lparr>sd_singleFileUploads = [], sd_Sha256s = [], sd_Sizes = [], sd_ContentTypes = [], sd_Names = []\<rparr>,
     ex_multipartFile = \<lparr>md_multiFileUploadMap = Map.empty, md_Sha256s = [], md_Sizes = [], md_ContentTypes = [],
       md_Names = [], md_StorageKeys = [], md_UploadIds = []\<rparr>\<rparr>"

definition add_single :: "uploadFile \<Rightarrow> singleFileData \<Rightarrow> singleFileData" where
  "add_single file s = \<lparr>sd_singleFileUploads = sd_singleFileUploads s @ [file],
     sd_Sha256s = sd_Sha256s s @ [uf_Sha256 file],
     sd_Sizes = sd_Sizes s @ [int32_of_uint (uf_FileSize file)],
     sd_ContentTypes = sd_ContentTypes s @ [''image/jpeg''],
     sd_Names = sd_Names s @ [uf_FileName file]\<rparr>"

definition add_multi :: "uploadFile \<Rightarrow> uuid \<Rightarrow> string \<Rightarrow> multipartFileData \<Rightarrow> multipartFileData" where
  "add_multi file storageKey uploadId m = \<lparr>md_multiFileUploadMap = (md_multiFileUploadMap m)(uf_Sha256 file \<mapsto> file),
     md_Sha256s = md_Sha256s m @ [uf_Sha256 file],
     md_Sizes = md_Sizes m @ [int32_of_uint (uf_FileSize file)],
     md_ContentTypes = md_ContentTypes m @ [''image/jpeg''],
     md_Names = md_Names m @ [uf_FileName file],
     md_StorageKeys = md_StorageKeys m @ [storageKey],
     md_UploadIds = md_UploadIds m @ [uploadId]\<rparr>"

fun extract_loop :: "'s env \<Rightarrow> s3Storage \<Rightarrow> uploadFile list \<Rightarrow> extractFile \<Rightarrow> ('s, extractFile) action" where
  "extract_loop env st [] acc = liftp (Ret acc)"
| "extract_loop env st (file # files) acc =
     (if uint (uf_FileSize file) < multipartThreshold
      then extract_loop env st files (acc\<lparr>ex_singleFile := add_single file (ex_singleFile acc)\<rparr>)
      else
        bindp (on_error (makeUUIDText env)
                 (\<lambda>e. client_err (InternalServerError ''fileupload.extractFileData''
                    (Some (Errorf ''cannot generate uuid:'' (Some e) '''')) ''internal error'')))
          (\<lambda>generatedUUID.
        bindp (liftp (uuid_MustParse generatedUUID)) (\<lambda>storageKey.
        bindp (generateMultiPartUploadId env st generatedUUID) (\<lambda>uploadId.
          extract_loop env st files
            (acc\<lparr>ex_multipartFile := add_multi file storageKey uploadId (ex_multipartFile acc)\<rparr>)))))"

definition extractFileData :: "'s env \<Rightarrow> s3Storage \<Rightarrow> uploadFile list \<Rightarrow> ('s, extractFile) action" where
  "extractFileData env st files = extract_loop env st files zero_extractFile"

section \<open>Single uploads\<close>

definition single_params :: "uuid \<Rightarrow> singleFileData \<Rightarrow> InsertSinglePartUploadParams" where
  "single_params lotId s = \<lparr>sp_UploadType = SingleUpload, sp_LotID = lotId, sp_Username = ''coackroach'',
     sp_Sha256s = sd_Sha256s s, sp_FileSizes = sd_Sizes s, sp_ContentTypes = sd_ContentTypes s,
     sp_FilesNames = sd_Names s\<rparr>"

definition createSinglePresignedFileUrl ::
  "'s env \<Rightarrow> s3Storage \<Rightarrow> uuid \<Rightarrow> singleFileData \<Rightarrow> ('s, presignedFileUrl list) action" where
  "createSinglePresignedFileUrl env st lotId s =
     bindp (on_error (on_db (InsertSinglePartUpload (e_faults env) (e_sql env) (single_params lotId s)))
              (storage_failure ''fileupload.createSinglePresignedFileUrl'' ''insertion of singlepart upload failed,''
                 ''storage error''))
       (\<lambda>insertedSinglePartFiles.
     let insertedSinglePartFilesMap = map_build sr_Sha256 sr_StorageKey insertedSinglePartFiles in
     mapp (\<lambda>file.
         bindp (generateSinglePresignedPutObjectUrl env st
                  (uuid_String (map_get uuid_Nil insertedSinglePartFilesMap (uf_Sha256 file))) (uf_Sha256 file))
           (\<lambda>u. liftp (Ret (single_url file u))))
       (sd_singleFileUploads s))"

section \<open>Multipart uploads\<close>

definition multi_params :: "uuid \<Rightarrow> multipartFileData \<Rightarrow> InsertAndValidateMultiPartUploadParams" where
  "multi_params lotId m = \<lparr>mp_UploadType = MultiUpload, mp_PartSize = partSize, mp_LotID = lotId,
     mp_Username = ''dummyUsername'', mp_Sha256s = md_Sha256s m, mp_FileSizes = md_Sizes m,
     mp_ContentTypes = md_ContentTypes m, mp_UploadIds = md_UploadIds m, mp_FileNames = md_Names m,
     mp_StorageKeys = md_StorageKeys m\<rparr>"

definition identity_of :: "newMultipartGenerationData \<Rightarrow> uploadIdentity" where
  "identity_of g = \<lparr>ui_storageKey = ng_storageKey g, ui_uploadId = ng_uploadId g\<rparr>"

definition generateUrlsForNewUploads ::
  "'s env \<Rightarrow> s3Storage \<Rightarrow> (string \<rightharpoonup> uploadFile) \<Rightarrow> newMultipartGenerationData list \<Rightarrow> ('s, presignedFileUrl list) action" where
  "generateUrlsForNewUploads env st multiFileUploadMap newMultiUploads =
     mapp (\<lambda>upload.
         bindp (generateNewMultiPartUploadUrls env st (identity_of upload) (ng_fileParts upload)) (\<lambda>newMultiParts.
         liftp (Ret (multi_url (map_get zero_uploadFile multiFileUploadMap (ng_sha256 upload))
           \<lparr>mU_requests = newMultiParts, mU_multipartAttemptId = ng_multipartAttemptId upload,
            mU_partSize = ng_partSize upload, mU_imageEtags = []\<rparr>))))
       newMultiUploads"

definition genrateUrlsForResumableUploads ::
  "'s env \<Rightarrow> s3Storage \<Rightarrow> (string \<rightharpoonup> uploadFile) \<Rightarrow> newMultipartGenerationData list \<Rightarrow> ('s, presignedFileUrl list) action" where
  "genrateUrlsForResumableUploads env st multiFileUploadMap resumableMultiUploads =
     mapp (\<lambda>upload.
         bindp (generateResumeUploadUrls env st (identity_of upload) (ng_fileParts upload)) (\<lambda>(resumeMultiParts, imageEtags).
         liftp (Ret (multi_url (map_get zero_uploadFile multiFileUploadMap (ng_sha256 upload))
           \<lparr>mU_requests = resumeMultiParts, mU_multipartAttemptId = ng_multipartAttemptId upload,
            mU_partSize = ng_partSize upload, mU_imageEtags = imageEtags\<rparr>))))
       resumableMultiUploads"

definition createMultipartPresignedFileUrl ::
  "'s env \<Rightarrow> s3Storage \<Rightarrow> uuid \<Rightarrow> multipartFileData \<Rightarrow> ('s, presignedFileUrl list) action" where
  "createMultipartPresignedFileUrl env st lotId m =
     bindp (on_error (on_db (InsertAndValidateMultiPartUpload (e_faults env) (e_sql env) (multi_params lotId m)))
              (storage_failure ''imagestore.createMultipartPresignedFileUrl''
                 ''insert and validation of multipart upload failed,'' ''unknown lotId''))
       (\<lambda>multiUploadResult.
     bindp (liftp (segregateMultiUploadFiles multiUploadResult)) (\<lambda>(newMultiUploads, resumableMultiUploads).
     bindp (generateUrlsForNewUploads env st (md_multiFileUploadMap m) newMultiUploads) (\<lambda>newPresignedUrls.
     bindp (genrateUrlsForResumableUploads env st (md_multiFileUploadMap m) resumableMultiUploads)
       (\<lambda>resumablePresignedUrls. liftp (Ret (newPresignedUrls @ resumablePresignedUrls))))))"

definition generateS3UploadUrl ::
  "'s env \<Rightarrow> s3Storage \<Rightarrow> uuid \<Rightarrow> uploadFile list \<Rightarrow> ('s, presignedFileUrl list) action" where
  "generateS3UploadUrl env st lotId files =
     bindp (extractFileData env st files) (\<lambda>extractData.
     bindp (if length (sd_Sha256s (ex_singleFile extractData)) > 0
            then createSinglePresignedFileUrl env st lotId (ex_singleFile extractData) else liftp (Ret []))
       (\<lambda>singlePresignedFileUrls.
     bindp (if length (md_Sha256s (ex_multipartFile extractData)) > 0
            then createMultipartPresignedFileUrl env st lotId (ex_multipartFile extractData) else liftp (Ret []))
       (\<lambda>multipartPresignedFileUrls. liftp (Ret (singlePresignedFileUrls @ multipartPresignedFileUrls)))))"

section \<open>The upload request\<close>

definition skipUploadForIdenticalImageBlobs ::
  "'s env \<Rightarrow> uploadFile list \<Rightarrow> uuid \<Rightarrow> ('s, uploadFile list \<times> uploadFile list) action" where
  "skipUploadForIdenticalImageBlobs env files lotId =
     (let sha256s = map uf_Sha256 files;
          fileMap = map_build uf_Sha256 id files
      in bindp (on_error (on_db (InsertIdenticalImageBlobsToLotImages (e_faults env)
                  \<lparr>ip_LotID = lotId, ip_Sha256s = sha256s, ip_FileNames = map uf_FileName files\<rparr>))
                (storage_failure ''imagestore.skipUploadForIdenticalImageBlobs''
                   ''insert identical image blob to log_images table failed:'' ''internal error''))
           (\<lambda>identicalBlobs.
              let existingFileMap = map_build ir_Sha256 id identicalBlobs
              in liftp (Ret (separateUploadedAndNeedToBeUploadedFiles fileMap existingFileMap
                   (e_range env (remdups sha256s))))))"

definition unknown_lot_id :: "uuid_error \<Rightarrow> err" where
  "unknown_lot_id e = client_err (InvalidArgumentError ''imageStore.initiateUpload''
     \<lparr>ed_Fields = [\<lparr>Field = ''lotId'', Description = ''lotId could not be parsed as uuid''\<rparr>],
      ed_Message = ''unknown lotId''\<rparr> (Some (Leaf (Uuid e))))"

definition begin_failure :: "err \<Rightarrow> err" where
  "begin_failure e = client_err (InternalServerError ''imageStore.initiateUpload''
     (Some (Errorf ''start of db transaction failed:'' (Some e) '''')) ''cannot start operation'')"

definition commit_failure :: "err \<Rightarrow> err" where
  "commit_failure e = client_err (InternalServerError ''imageStore.initiateUpload''
     (Some (Errorf ''cannot commit database transaction:'' (Some e) '''')) ''internal error'')"

definition upload_body ::
  "'s env \<Rightarrow> s3Storage \<Rightarrow> uuid \<Rightarrow> uploadFile list \<Rightarrow> ('s, uploadFile list \<times> presignedFileUrl list) action" where
  "upload_body env st lotId files =
     bindp (skipUploadForIdenticalImageBlobs env files lotId) (\<lambda>(needToBeUploadFiles, alreadyUploadedFiles).
     bindp (generateS3UploadUrl env st lotId needToBeUploadFiles) (\<lambda>presignedUrls.
       liftp (Ret (alreadyUploadedFiles, presignedUrls))))"

text \<open>The receiver is a pointer; its first use is \<open>imageStore.conn\<close>.\<close>

record ImageStore =
  is_s3Storage :: s3Storage

definition initiateUpload ::
  "'s env \<Rightarrow> ImageStore ptr \<Rightarrow> uploadFile list \<Rightarrow> string \<Rightarrow> ('s, uploadFileRequestResult) action" where
  "initiateUpload env imageStore fileToUpload lotId =
     (let (files, duplicateFiles) = intentBatchUpload fileToUpload
      in case uuid_Parse lotId of
           Inl e \<Rightarrow> liftp (Fail (unknown_lot_id e))
         | Inr lotIdUUID \<Rightarrow>
             bindp (liftp (deref imageStore)) (\<lambda>store.
             bindp (in_tx env begin_failure commit_failure (upload_body env (is_s3Storage store) lotIdUUID files))
               (\<lambda>(alreadyUploadedFiles, presignedUrls).
                 liftp (Ret \<lparr>ur_duplicateFiles = duplicateFiles, ur_alreadyUploadedFiles = alreadyUploadedFiles,
                   ur_presignedFileUrls = presignedUrls\<rparr>))))"

section \<open>Completing a multipart upload\<close>

text \<open>
  \<open>slices.SortFunc\<close> with the comparison \<open>int(*a.PartNumber) - int(*b.PartNumber)\<close> of two 32-bit numbers on 64 bits
  (\<open>part_cmp\<close>). It compares every element of a list of two or more, and a comparison panics on a nil part number. The
  library sorts by the comparison that it is given, and leaves open in which order it puts elements that compare equal:
  \<open>sort_func\<close> is any function that passes \<open>sort_ok\<close>.
\<close>

definition part_number :: "CompletedPart \<Rightarrow> int" where
  "part_number p = (case cp_PartNumber p of None \<Rightarrow> 0 | Some n \<Rightarrow> sint n)"

definition part_cmp :: "CompletedPart \<Rightarrow> CompletedPart \<Rightarrow> int" where
  "part_cmp a b = part_number a - part_number b"

type_synonym 'a sort_func = "('a \<Rightarrow> 'a \<Rightarrow> int) \<Rightarrow> 'a list \<Rightarrow> 'a list"

text \<open>For a comparison that orders by some key, the result is a permutation in ascending order.\<close>

definition sort_ok :: "'a sort_func \<Rightarrow> bool" where
  "sort_ok sort_func \<longleftrightarrow> (\<forall>cmp (key :: 'a \<Rightarrow> int) xs. (\<forall>a b. cmp a b < 0 \<longleftrightarrow> key a < key b) \<longrightarrow>
     mset (sort_func cmp xs) = mset xs \<and> sorted (map key (sort_func cmp xs)))"

definition SortFunc_parts :: "CompletedPart sort_func \<Rightarrow> CompletedPart list \<Rightarrow> (err, CompletedPart list) outcome" where
  "SortFunc_parts sort_func ps =
     (if length ps < 2 then Ret ps
      else if (\<exists>p \<in> set ps. cp_PartNumber p = None) then Panic nil_deref
      else Ret (sort_func part_cmp ps))"

lemma sort_ok_parts:
  "sort_ok sort_func \<Longrightarrow> mset (sort_func part_cmp ps) = mset ps \<and> sorted (map part_number (sort_func part_cmp ps))"
  unfolding sort_ok_def
  by (drule spec [of _ part_cmp], drule spec [of _ part_number], drule spec [of _ ps]) (simp add: part_cmp_def)

definition item_failure :: "int \<Rightarrow> err \<Rightarrow> err" where
  "item_failure multipartAttemptId e =
     (let operation = ''imagestore.completeMultiPartUpload''
      in if IsRowNotFound e
         then client_err (NotFoundError operation
           (Some (Errorf (''multipart attempt id '' @ itoa multipartAttemptId @ '' not found:'') (Some e) ''''))
           (''multipart attempt Id '' @ itoa multipartAttemptId @ '' could not be found''))
         else client_err (InternalServerError operation
           (Some (Errorf (''cannot get multipart attempt id '' @ itoa multipartAttemptId @ '':'') (Some e) ''''))
           ''internal error''))"

definition parts_missing :: "int \<Rightarrow> err" where
  "parts_missing multipartAttemptId = client_err (PreconditionFailedError ''imagestore.completeMultiPartUpload''
     \<lparr>ed_Fields = [\<lparr>Field = ''parts'', Description = ''All parts have not been uploaded for multipart Attempt Id '' @
         itoa multipartAttemptId @ ''. First Upload all the parts.''\<rparr>],
      ed_Message = ''Not all parts have been uploaded''\<rparr>
     (Some (Errorf (''all parts have not been uploaded for multipart attempt id '' @ itoa multipartAttemptId @ '':'') None '''')))"

text \<open>The error of \<open>CompleteMultipartUpload\<close> is built and dropped: the function then returns nil.\<close>

definition completeMultiPartUpload ::
  "'s env \<Rightarrow> CompletedPart sort_func \<Rightarrow> ImageStore ptr \<Rightarrow> int \<Rightarrow> string \<Rightarrow> CompletedPart list \<Rightarrow> ('s, unit) action" where
  "completeMultiPartUpload env sort_parts imageStore multipartAttemptId bucket etagParts =
     bindp (liftp (deref imageStore)) (\<lambda>store.
     bindp (on_error (on_db (GetMultiPartUploadItem (e_faults env) multipartAttemptId)) (item_failure multipartAttemptId))
       (\<lambda>multipartItem.
     bindp (liftp (SortFunc_parts sort_parts etagParts)) (\<lambda>sortedParts.
     bindp (on_error (on_s3 (ListParts (e_s3 env)
                \<lparr>lp_Bucket = bucket, lp_Key = uuid_String (gr_StorageKey multipartItem), lp_UploadId = gr_UploadID multipartItem\<rparr>))
              (\<lambda>e. client_err (InternalServerError ''imagestore.completeMultiPartUpload''
                 (Some (Errorf (''cannot get uploaded image parts of key '' @ uuid_String (gr_StorageKey multipartItem) @
                    '' and bucket '' @ bucket @ '':'') (Some e) '''')) ''internal error'')))
       (\<lambda>parts.
     bindp (liftp (deref (gr_PartCount multipartItem))) (\<lambda>partCount.
     if int (length parts) \<noteq> partCount then liftp (Fail (parts_missing multipartAttemptId))
     else (\<lambda>w. case on_s3 (CompleteMultipartUpload (e_s3 env)
                \<lparr>cm_Bucket = bucket, cm_Key = uuid_String (gr_StorageKey multipartItem),
                 cm_UploadId = gr_UploadID multipartItem, cm_Parts = sortedParts\<rparr>) w of
              (Panic p, w') \<Rightarrow> (Panic p, w')
            | (_, w') \<Rightarrow> (Ret (), w')))))))"

end
