(* ===== verification/Interceptors.thy ===== *)
theory Interceptors
  imports App_Error
begin

text \<open>
  Package valid (src/internal/valid/interceptor.go): the two unary interceptors and the translation
  of the program's errors to gRPC statuses, with the chaining of interceptors that
  \<open>grpc.ChainUnaryInterceptor\<close> does (vendored google.golang.org/grpc/server.go).

  The library calls are arguments: \<open>validator\<close> is the \<open>protovalidate\<close> validator (nil when its
  construction failed), \<open>any_new\<close> is \<open>anypb.New\<close>. A handler is a program over the world; it gives
  back the response (\<open>None\<close> is a nil response) or an error.

  The interface \<open>status_sink\<close> states what the rest of the server relies on: an error goes in, a
  gRPC status comes out, and no error is lost.
\<close>

section \<open>Handlers and interceptors\<close>

datatype 'm any_req = ProtoMessage 'm | OtherRequest

type_synonym ('s, 'q, 'r) handler = "'q \<Rightarrow> ('s, err, 'r option) prog"

type_synonym ('s, 'q, 'r) interceptor = "'q \<Rightarrow> ('s, 'q, 'r) handler \<Rightarrow> ('s, err, 'r option) prog"

text \<open>\<open>return nil, e\<close>: a nil error means a nil response.\<close>

fun return_err :: "err option \<Rightarrow> ('s, err, 'r option) prog" where
  "return_err None = liftp (Ret None)"
| "return_err (Some e) = liftp (Fail e)"

text \<open>\<open>getChainUnaryHandler\<close>, on the interceptors after the current one.\<close>

fun getChainUnaryHandler ::
  "('s, 'q, 'r) interceptor list \<Rightarrow> ('s, 'q, 'r) handler \<Rightarrow> ('s, 'q, 'r) handler" where
  "getChainUnaryHandler [] finalHandler = finalHandler"
| "getChainUnaryHandler (i # is) finalHandler = (\<lambda>req. i req (getChainUnaryHandler is finalHandler))"

section \<open>Validation\<close>

record violation =
  vi_Field :: string
  vi_Message :: string

datatype validation = Valid | ValidationError "violation list" | ValidatorFailure err

definition violations_detail :: "violation list \<Rightarrow> detail" where
  "violations_detail vs =
     BadRequest (map (\<lambda>v. \<lparr>fv_Field = vi_Field v, fv_Description = vi_Message v\<rparr>) vs)"

definition Validate ::
  "(detail \<Rightarrow> err option) \<Rightarrow> ('m \<Rightarrow> validation) option \<Rightarrow> ('s, 'm any_req, 'r) interceptor" where
  "Validate any_new validator req handler =
     (case req of
        OtherRequest \<Rightarrow> return_err (status_Error Internal ''unexpected request type'')
      | ProtoMessage msg \<Rightarrow>
          (case validator of
             None \<Rightarrow> liftp (Panic nil_deref)
           | Some v \<Rightarrow>
               (case v msg of
                  Valid \<Rightarrow> handler req
                | ValidatorFailure e \<Rightarrow> return_err (status_Error Internal ''validation failed'')
                | ValidationError viols \<Rightarrow>
                    (case WithDetails any_new (status_New InvalidArgument ''invalid request'')
                            (violations_detail viols) of
                       Inl detailsErr \<Rightarrow> return_err (status_Error Internal ''invalid request and internal error'')
                     | Inr st \<Rightarrow> return_err (status_Err st)))))"

section \<open>From application errors to statuses\<close>

definition codeInvalidArgumentTranslation :: "(detail \<Rightarrow> err option) \<Rightarrow> AppErr \<Rightarrow> err option" where
  "codeInvalidArgumentTranslation any_new e =
     (let br = BadRequest (map (\<lambda>f. \<lparr>fv_Field = Field f, fv_Description = Description f\<rparr>) (Fields e))
      in case WithDetails any_new (status_New InvalidArgument (Message e)) br of
           Inl detailsErr \<Rightarrow> status_Error Internal ''invalid request and internal error''
         | Inr st \<Rightarrow> status_Err st)"

definition codeStorageConflictTranslation :: "(detail \<Rightarrow> err option) \<Rightarrow> AppErr \<Rightarrow> err option" where
  "codeStorageConflictTranslation any_new e =
     (let preCond = PreconditionFailure (map (\<lambda>f. \<lparr>pv_Subject = Field f, pv_Description = Description f\<rparr>) (Fields e))
      in case WithDetails any_new (status_New FailedPrecondition (Message e)) preCond of
           Inl detailsErr \<Rightarrow> status_Error Internal ''precondition failed and internal error''
         | Inr st \<Rightarrow> status_Err st)"

definition codeInternalServerErrorTranslation :: "AppErr \<Rightarrow> err option" where
  "codeInternalServerErrorTranslation e = status_Error Internal (Message e)"

definition codeUnknownErrTranslation :: "AppErr \<Rightarrow> err option" where
  "codeUnknownErrTranslation e = status_Error Unknown (Message e)"

definition codeNotFoundTranslation :: "AppErr \<Rightarrow> err option" where
  "codeNotFoundTranslation e = status_Error NotFound (Message e)"

definition appErrToGRPCTranslation :: "(detail \<Rightarrow> err option) \<Rightarrow> (err_code \<rightharpoonup> (AppErr \<Rightarrow> err option))" where
  "appErrToGRPCTranslation any_new =
     [CodeInvalidArgument \<mapsto> codeInvalidArgumentTranslation any_new,
      CodeStorageConflict \<mapsto> codeStorageConflictTranslation any_new,
      CodeInternalServerError \<mapsto> codeInternalServerErrorTranslation,
      CodeUnknownError \<mapsto> codeUnknownErrTranslation,
      CodeNotFound \<mapsto> codeNotFoundTranslation]"

definition convertToGRPCErr :: "(detail \<Rightarrow> err option) \<Rightarrow> AppErr \<Rightarrow> err option" where
  "convertToGRPCErr any_new e =
     (case appErrToGRPCTranslation any_new (Code e) of
        None \<Rightarrow> codeInternalServerErrorTranslation
          (InternalServerError ''valid.convertToGRPCErr'' (Some (App e)) ''grpcTranslation code failed'')
      | Some translationFn \<Rightarrow> translationFn e)"

definition createErr :: "err \<Rightarrow> AppErr" where
  "createErr e =
     (let (resultErr, ok) = CreateClientErr (Some e)
      in if \<not> ok then CatchAllUnknownServerError ''valid.prioritySearchErrorCode'' (Some e) ''unknown error''
         else resultErr)"

definition toGRPCError :: "(detail \<Rightarrow> err option) \<Rightarrow> err option \<Rightarrow> err option" where
  "toGRPCError any_new err_opt =
     (case err_opt of
        None \<Rightarrow> None
      | Some e \<Rightarrow>
          if status_FromError_ok (Some e) then Some e
          else if errors_Is e CtxDeadlineExceeded then status_Error DeadlineExceeded ''deadline exceeded''
          else if errors_Is e CtxCanceled then status_Error Canceled ''request cancelled''
          else convertToGRPCErr any_new (createErr e))"

definition map_failure :: "(err option \<Rightarrow> err option) \<Rightarrow> ('s, err, 'r option) prog \<Rightarrow> ('s, err, 'r option) prog" where
  "map_failure sink m = (\<lambda>s. case m s of
      (Ret r, s') \<Rightarrow> (Ret r, s')
    | (Fail e, s') \<Rightarrow> return_err (sink (Some e)) s'
    | (Panic p, s') \<Rightarrow> (Panic p, s'))"

definition ErrorResponseInterceptor :: "(detail \<Rightarrow> err option) \<Rightarrow> ('s, 'q, 'r) interceptor" where
  "ErrorResponseInterceptor any_new req handler = map_failure (toGRPCError any_new) (handler req)"

section \<open>The interface of the error translation\<close>

locale status_sink =
  fixes sink :: "err option \<Rightarrow> err option"
  assumes sink_None: "sink None = None"
    and sink_Some: "sink (Some e) \<noteq> None"
    and sink_status: "sink (Some e) = Some e' \<Longrightarrow> status_FromError_ok (Some e')"
begin

lemma sink_status_ex: "\<exists>e'. sink (Some e) = Some e' \<and> status_FromError_ok (Some e')"
  using sink_Some [of e] sink_status [of e] by auto

text \<open>A failure of the handler is always answered with a status; the world is the handler's.\<close>

lemma map_failure_Fail:
  assumes "m s = (Fail e, t)"
  shows "\<exists>e'. map_failure sink m s = (Fail e', t) \<and> status_FromError_ok (Some e')"
proof -
  obtain e' where "sink (Some e) = Some e'" and "status_FromError_ok (Some e')"
    using sink_status_ex by blast
  with assms show ?thesis by (simp add: map_failure_def)
qed

lemma map_failure_Ret_iff: "map_failure sink m s = (Ret r, t) \<longleftrightarrow> m s = (Ret r, t)"
proof (cases "m s")
  case (Pair x t')
  show ?thesis
  proof (cases x)
    case (Fail e)
    with Pair have "m s = (Fail e, t')" by simp
    with map_failure_Fail show ?thesis by fastforce
  qed (auto simp: map_failure_def Pair)
qed

lemma map_failure_Fail_status: "map_failure sink m s = (Fail e', t) \<Longrightarrow> status_FromError_ok (Some e')"
proof -
  assume a: "map_failure sink m s = (Fail e', t)"
  obtain x t' where ms: "m s = (x, t')" by (cases "m s")
  with a obtain e where "x = Fail e" by (cases x) (auto simp: map_failure_def)
  with ms map_failure_Fail a show ?thesis by fastforce
qed

lemma map_failure_world: "snd (map_failure sink m s) = snd (m s)"
proof (cases "m s")
  case (Pair x t')
  show ?thesis
  proof (cases x)
    case (Fail e)
    with Pair have "m s = (Fail e, t')" by simp
    with map_failure_Fail Pair show ?thesis by fastforce
  qed (auto simp: map_failure_def Pair)
qed

end

section \<open>The translation is such a sink\<close>

lemma status_Err_SomeD: "status_Err st = Some e \<Longrightarrow> e = Leaf (Status st)"
  by (auto simp: status_Err_def split: if_splits)

lemma status_FromError_ok_Status [simp]: "status_FromError_ok (Some (Leaf (Status st)))"
  by simp

lemma WithDetails_Inr: "WithDetails any_new st d = Inr st' \<Longrightarrow> st' = st\<lparr>st_Details := st_Details st @ [d]\<rparr>"
  by (auto simp: WithDetails_def split: if_splits option.splits)

lemma WithDetails_eq:
  "c \<noteq> OK \<Longrightarrow> WithDetails any_new (status_New c m) d =
     (case any_new d of Some e \<Rightarrow> Inl e | None \<Rightarrow> Inr \<lparr>st_Code = c, st_Message = m, st_Details = [d]\<rparr>)"
  by (auto simp: WithDetails_def status_New_def split: option.splits)

lemmas translation_defs = codeInvalidArgumentTranslation_def codeStorageConflictTranslation_def
  codeInternalServerErrorTranslation_def codeUnknownErrTranslation_def codeNotFoundTranslation_def

lemma convertToGRPCErr_cases:
  "convertToGRPCErr any_new e =
     (if Code e = CodeInvalidArgument then codeInvalidArgumentTranslation any_new e
      else if Code e = CodeStorageConflict then codeStorageConflictTranslation any_new e
      else if Code e = CodeInternalServerError then status_Error Internal (Message e)
      else if Code e = CodeUnknownError then status_Error Unknown (Message e)
      else if Code e = CodeNotFound then status_Error NotFound (Message e)
      else status_Error Internal '''')"
  by (simp add: convertToGRPCErr_def appErrToGRPCTranslation_def code_defs translation_defs
      InternalServerError_def)

lemma convertToGRPCErr_status: "\<exists>st. convertToGRPCErr any_new e = Some (Leaf (Status st)) \<and> st_Code st \<noteq> OK"
  by (auto simp: convertToGRPCErr_cases codeInvalidArgumentTranslation_def Let_def
      codeStorageConflictTranslation_def WithDetails_eq status_Error_eq status_Err_def
      split: option.splits)

lemma toGRPCError_Some: "\<exists>e'. toGRPCError any_new (Some e) = Some e' \<and> status_FromError_ok (Some e')"
proof -
  obtain st where "convertToGRPCErr any_new (createErr e) = Some (Leaf (Status st))"
    using convertToGRPCErr_status by blast
  then show ?thesis
    by (cases "status_FromError_ok (Some e)") (simp_all add: toGRPCError_def status_Error_eq)
qed

interpretation grpc_sink: status_sink "toGRPCError any_new" for any_new
proof (unfold_locales, goal_cases)
  case 1 show ?case by (simp add: toGRPCError_def)
next
  case (2 e) show ?case using toGRPCError_Some [of any_new e] by auto
next
  case (3 e e') then show ?case using toGRPCError_Some [of any_new e] by auto
qed

lemma createErr_marked: "\<not> merge a \<Longrightarrow> createErr (App (MarkAsClientErr a)) = MarkAsClientErr a"
  by (simp add: createErr_def CreateClientErr_marked)

text \<open>An error tree with no status and no context error in it goes through the application table.\<close>

definition plain_error :: "err \<Rightarrow> bool" where
  "plain_error e \<longleftrightarrow> errors_find as_status e = None \<and> \<not> errors_Is e CtxDeadlineExceeded \<and> \<not> errors_Is e CtxCanceled"

lemma toGRPCError_plain: "plain_error e \<Longrightarrow> toGRPCError any_new (Some e) = convertToGRPCErr any_new (createErr e)"
  by (simp add: toGRPCError_def plain_error_def)

lemma ErrorResponse_world: "snd (ErrorResponseInterceptor any_new req handler s) = snd (handler req s)"
  by (simp add: ErrorResponseInterceptor_def grpc_sink.map_failure_world)

end
