(* ===== verification/Image_Store.thy ===== *)
theory Image_Store
  imports Image_Upload Interceptors
begin

text \<open>
  The service methods of src/internal/imagestore/image_store.go and of src/internal/server/server.go,
  and the constructors of the two servers.
\<close>

section \<open>LotImageService\<close>

text \<open>The constant \<open>bucketName\<close> of image_store.go, also written out in \<open>CompleteMultiPartUpload\<close>.\<close>

definition access_point :: string where
  "access_point = ''arn:aws:s3:ap-south-1:433154991296:accesspoint/auction-lot-service-access-point''"

text \<open>\<open>config.LoadDefaultConfig\<close> fails or not.\<close>

definition newS3Storage :: "err option \<Rightarrow> string \<Rightarrow> err + s3Storage" where
  "newS3Storage load_config bucket = (case load_config of
      Some e \<Rightarrow> Inl (Errorf ''load aws config: '' (Some e) '''')
    | None \<Rightarrow> Inr \<lparr>bucketName = bucket\<rparr>)"

definition NewImageStore :: "err option \<Rightarrow> ImageStore ptr" where
  "NewImageStore load_config = (case newS3Storage load_config access_point of
      Inl e \<Rightarrow> None
    | Inr st \<Rightarrow> Some \<lparr>is_s3Storage = st\<rparr>)"

definition CompleteMultiPartUpload ::
  "'s env \<Rightarrow> CompletedPart sort_func \<Rightarrow> ImageStore ptr \<Rightarrow> CompleteMultiPartUploadRequest \<Rightarrow>
   ('s, CompleteMultiPartUploadResponse ptr) action" where
  "CompleteMultiPartUpload env sort_parts imageStore request =
     bindp (liftp (convertToCompletedPart (cq_PartEtags request))) (\<lambda>etagParts.
     bindp (liftp (deref (cq_MultipartAttemptId request))) (\<lambda>multipartAttemptId.
     bindp (completeMultiPartUpload env sort_parts imageStore (sint multipartAttemptId) access_point etagParts) (\<lambda>_.
       liftp (Ret (Some \<lparr>cs_Success = Some True, cs_Message = Some ''Upload Completed''\<rparr>)))))"

definition GeneratePresignedUrl ::
  "'s env \<Rightarrow> ImageStore ptr \<Rightarrow> GeneratePresignedUrlRequest \<Rightarrow> ('s, GeneratePresignedUrlResponse ptr) action" where
  "GeneratePresignedUrl env imageStore request =
     bindp (liftp (convertToUploadFiles (gq_LotImages request))) (\<lambda>files.
     bindp (liftp (deref (gq_LotId request))) (\<lambda>lotId.
     bindp (initiateUpload env imageStore files lotId) (\<lambda>result.
     bindp (liftp (convertToImageFiles (ur_duplicateFiles result))) (\<lambda>duplicateImageFiles.
     bindp (liftp (convertToImageFiles (ur_alreadyUploadedFiles result))) (\<lambda>alreadyUploadedImageFiles.
     bindp (liftp (convertToPresignedImageFiles (ur_presignedFileUrls result))) (\<lambda>presignedImageFiles.
       liftp (Ret (Some \<lparr>gs_Success = Some True, gs_Message = Some ''Presigned url created'',
         gs_PresignResult = Some \<lparr>fr_DuplicateFiles = duplicateImageFiles,
           fr_AlreadyUploadedFiles = alreadyUploadedImageFiles, fr_PresignedFiles = presignedImageFiles\<rparr>\<rparr>))))))))"

section \<open>LotService\<close>

text \<open>\<open>validate\<close> is the package function \<open>protovalidate.Validate\<close>.\<close>

definition create_lot_params :: "CreateLotRequest \<Rightarrow> (err, CreateLotParams) outcome" where
  "create_lot_params req =
     bindo (deref (kq_Lot req)) (\<lambda>lot.
     bindo (deref (lm_LotTitle lot)) (\<lambda>title.
     bindo (deref (lm_Description lot)) (\<lambda>description.
       Ret \<lparr>cl_Title = title, cl_Description = description, cl_Category = lm_Category lot,
         cl_BidOpeningPrice = lm_BidOpeningPrice lot\<rparr>)))"

definition LotServer_CreateLot ::
  "'s env \<Rightarrow> (CreateLotRequest \<Rightarrow> err option) \<Rightarrow> CreateLotRequest \<Rightarrow> ('s, CreateLotResponse ptr) action" where
  "LotServer_CreateLot env validate req =
     (case validate req of
        Some e \<Rightarrow> return_err (status_Error InvalidArgument ''invalid lot payload'')
      | None \<Rightarrow>
          bindp (liftp (create_lot_params req)) (\<lambda>params. (\<lambda>w.
            case on_db (CreateLot (e_faults env) (e_sql env) params) w of
              (Fail e, w') \<Rightarrow> return_err (status_Error Internal ''error creating lot'') w'
            | (Panic p, w') \<Rightarrow> (Panic p, w')
            | (Ret newId, w') \<Rightarrow> (Ret (Some \<lparr>ks_Success = Some True, ks_Message = Some ''Lot Created'',
                ks_LotId = Some (uuid_String newId)\<rparr>), w'))))"

end
