(* ===== verification/Rpc_Server.thy ===== *)
theory Rpc_Server
  imports Image_Store
begin

text \<open>
  The server process: src/cmd/api/main.go, the handlers, stubs and registrations of
  src/rpc/gen/lot/v1/lot_grpc.pb.go and src/rpc/gen/lot_image/v1/lot_image_grpc.pb.go, and the chain of the
  two interceptors.

  A request reaches a handler as \<open>dec\<close>: the decoded message, or the decoding error. The service
  methods are run on the world of \<open>Server_World\<close>; a panic in one of them is not recovered by any
  interceptor, so it ends the process.
\<close>

section \<open>Requests and responses\<close>

datatype rpc_message =
    MsgCreateLot CreateLotRequest
  | MsgGeneratePresignedUrl GeneratePresignedUrlRequest
  | MsgCompleteMultiPartUpload CompleteMultiPartUploadRequest

datatype rpc_response =
    RespCreateLot CreateLotResponse
  | RespGeneratePresignedUrl GeneratePresignedUrlResponse
  | RespCompleteMultiPartUpload CompleteMultiPartUploadResponse

type_synonym 's rpc_handler = "('s world, rpc_message any_req, rpc_response) handler"

type_synonym 's rpc_interceptor = "('s world, rpc_message any_req, rpc_response) interceptor"

type_synonym 's rpc_result = "('s, rpc_response option) action"

definition LotService_CreateLot_FullMethodName :: string where
  "LotService_CreateLot_FullMethodName = ''/lot.v1.LotService/CreateLot''"

definition LotImageService_GeneratePresignedUrl_FullMethodName :: string where
  "LotImageService_GeneratePresignedUrl_FullMethodName = ''/lot_image.v1.LotImageService/GeneratePresignedUrl''"

definition LotImageService_CompleteMultiPartUpload_FullMethodName :: string where
  "LotImageService_CompleteMultiPartUpload_FullMethodName = ''/lot_image.v1.LotImageService/CompleteMultiPartUpload''"

definition as_response :: "('r \<Rightarrow> rpc_response) \<Rightarrow> ('s, 'r ptr) action \<Rightarrow> 's rpc_result" where
  "as_response f m = bindp m (\<lambda>r. liftp (Ret (map_option f r)))"

section \<open>Handlers\<close>

definition bad_assertion :: string where
  "bad_assertion = ''interface conversion: interface {} has another dynamic type''"

definition LotService_CreateLot_Handler ::
  "(CreateLotRequest \<Rightarrow> ('s, CreateLotResponse ptr) action) \<Rightarrow> err + CreateLotRequest \<Rightarrow> 's rpc_interceptor option \<Rightarrow> 's rpc_result" where
  "LotService_CreateLot_Handler srv dec interceptor =
     (case dec of
        Inl e \<Rightarrow> liftp (Fail e)
      | Inr m \<Rightarrow>
          (case interceptor of
             None \<Rightarrow> as_response RespCreateLot (srv m)
           | Some i \<Rightarrow> i (ProtoMessage (MsgCreateLot m)) (\<lambda>req. case req of
                 ProtoMessage (MsgCreateLot m') \<Rightarrow> as_response RespCreateLot (srv m')
               | _ \<Rightarrow> liftp (Panic bad_assertion))))"

definition LotImageService_GeneratePresignedUrl_Handler ::
  "(GeneratePresignedUrlRequest \<Rightarrow> ('s, GeneratePresignedUrlResponse ptr) action) \<Rightarrow> err + GeneratePresignedUrlRequest \<Rightarrow>
   's rpc_interceptor option \<Rightarrow> 's rpc_result" where
  "LotImageService_GeneratePresignedUrl_Handler srv dec interceptor =
     (case dec of
        Inl e \<Rightarrow> liftp (Fail e)
      | Inr m \<Rightarrow>
          (case interceptor of
             None \<Rightarrow> as_response RespGeneratePresignedUrl (srv m)
           | Some i \<Rightarrow> i (ProtoMessage (MsgGeneratePresignedUrl m)) (\<lambda>req. case req of
                 ProtoMessage (MsgGeneratePresignedUrl m') \<Rightarrow> as_response RespGeneratePresignedUrl (srv m')
               | _ \<Rightarrow> liftp (Panic bad_assertion))))"

definition LotImageService_CompleteMultiPartUpload_Handler ::
  "(CompleteMultiPartUploadRequest \<Rightarrow> ('s, CompleteMultiPartUploadResponse ptr) action) \<Rightarrow>
   err + CompleteMultiPartUploadRequest \<Rightarrow> 's rpc_interceptor option \<Rightarrow> 's rpc_result" where
  "LotImageService_CompleteMultiPartUpload_Handler srv dec interceptor =
     (case dec of
        Inl e \<Rightarrow> liftp (Fail e)
      | Inr m \<Rightarrow>
          (case interceptor of
             None \<Rightarrow> as_response RespCompleteMultiPartUpload (srv m)
           | Some i \<Rightarrow> i (ProtoMessage (MsgCompleteMultiPartUpload m)) (\<lambda>req. case req of
                 ProtoMessage (MsgCompleteMultiPartUpload m') \<Rightarrow> as_response RespCompleteMultiPartUpload (srv m')
               | _ \<Rightarrow> liftp (Panic bad_assertion))))"

text \<open>The methods of the embedded \<open>Unimplemented...Server\<close> types.\<close>

definition unimplemented :: "string \<Rightarrow> ('s, 'r ptr) action" where
  "unimplemented name = return_err (status_Error Unimplemented (''method '' @ name @ '' not implemented''))"

definition UnimplementedLotServiceServer_CreateLot :: "CreateLotRequest \<Rightarrow> ('s, CreateLotResponse ptr) action" where
  "UnimplementedLotServiceServer_CreateLot req = unimplemented ''CreateLot''"

definition UnimplementedLotImageServiceServer_GeneratePresignedUrl ::
  "GeneratePresignedUrlRequest \<Rightarrow> ('s, GeneratePresignedUrlResponse ptr) action" where
  "UnimplementedLotImageServiceServer_GeneratePresignedUrl req = unimplemented ''GeneratePresignedUrl''"

definition UnimplementedLotImageServiceServer_CompleteMultiPartUpload ::
  "CompleteMultiPartUploadRequest \<Rightarrow> ('s, CompleteMultiPartUploadResponse ptr) action" where
  "UnimplementedLotImageServiceServer_CompleteMultiPartUpload req = unimplemented ''CompleteMultiPartUpload''"

section \<open>Client stubs\<close>

text \<open>\<open>invoke\<close> is the connection's \<open>Invoke\<close>: it fills the response or returns an error.\<close>

definition lotServiceClient_CreateLot ::
  "(string \<Rightarrow> CreateLotRequest \<Rightarrow> err + CreateLotResponse) \<Rightarrow> CreateLotRequest \<Rightarrow> (err, CreateLotResponse ptr) outcome" where
  "lotServiceClient_CreateLot invoke req = (case invoke LotService_CreateLot_FullMethodName req of
      Inl e \<Rightarrow> Fail e | Inr out \<Rightarrow> Ret (Some out))"

definition lotImageServiceClient_GeneratePresignedUrl ::
  "(string \<Rightarrow> GeneratePresignedUrlRequest \<Rightarrow> err + GeneratePresignedUrlResponse) \<Rightarrow> GeneratePresignedUrlRequest \<Rightarrow>
   (err, GeneratePresignedUrlResponse ptr) outcome" where
  "lotImageServiceClient_GeneratePresignedUrl invoke req =
     (case invoke LotImageService_GeneratePresignedUrl_FullMethodName req of Inl e \<Rightarrow> Fail e | Inr out \<Rightarrow> Ret (Some out))"

definition lotImageServiceClient_CompleteMultiPartUpload ::
  "(string \<Rightarrow> CompleteMultiPartUploadRequest \<Rightarrow> err + CompleteMultiPartUploadResponse) \<Rightarrow> CompleteMultiPartUploadRequest \<Rightarrow>
   (err, CompleteMultiPartUploadResponse ptr) outcome" where
  "lotImageServiceClient_CompleteMultiPartUpload invoke req =
     (case invoke LotImageService_CompleteMultiPartUpload_FullMethodName req of Inl e \<Rightarrow> Fail e | Inr out \<Rightarrow> Ret (Some out))"

section \<open>The process\<close>

text \<open>
  \<open>server\<close>: what the running process serves with. The validator is nil when its construction failed;
  the package function \<open>protovalidate.Validate\<close> uses a validator of its own.
\<close>

record server =
  sv_validator :: "(rpc_message \<Rightarrow> validation) option"
  sv_validate :: "CreateLotRequest \<Rightarrow> err option"
  sv_any_new :: "detail \<Rightarrow> err option"
  sv_imageStore :: "ImageStore ptr"
  sv_sort :: "CompletedPart sort_func"

text \<open>
  Registering a service calls \<open>testEmbeddedByValue\<close>, a method of the embedded struct: through a nil
  pointer it panics.
\<close>

definition RegisterLotImageServiceServer :: "ImageStore ptr \<Rightarrow> (err, ImageStore ptr) outcome" where
  "RegisterLotImageServiceServer srv = bindo (deref srv) (\<lambda>_. Ret srv)"

datatype process = Returned string | Exited nat | Crashed string | Serving server

definition Run :: "err option \<Rightarrow> err + (rpc_message \<Rightarrow> validation) \<Rightarrow> (CreateLotRequest \<Rightarrow> err option) \<Rightarrow>
    (detail \<Rightarrow> err option) \<Rightarrow> CompletedPart sort_func \<Rightarrow> ImageStore ptr \<Rightarrow> process" where
  "Run listen new_validator validate any_new sort_parts imageStore =
     (case listen of
        Some e \<Rightarrow> Returned ''Cannot run the grpc server''
      | None \<Rightarrow>
          (let protoValidate = (case new_validator of Inl e \<Rightarrow> None | Inr v \<Rightarrow> Some v)
           in case RegisterLotImageServiceServer imageStore of
                Ret srv \<Rightarrow> Serving \<lparr>sv_validator = protoValidate, sv_validate = validate, sv_any_new = any_new,
                  sv_imageStore = srv, sv_sort = sort_parts\<rparr>
              | Panic p \<Rightarrow> Crashed p
              | Fail e \<Rightarrow> Returned ''Cannot run the grpc server''))"

definition createRpc :: "'c startup \<Rightarrow> err option \<Rightarrow> nat + ImageStore ptr" where
  "createRpc connection load_config = (case connection of
      Exit n \<Rightarrow> Inl n
    | Connected c \<Rightarrow> Inr (NewImageStore load_config))"

definition main :: "err option \<Rightarrow> 'c startup \<Rightarrow> err option \<Rightarrow> err option \<Rightarrow> err + (rpc_message \<Rightarrow> validation) \<Rightarrow>
    (CreateLotRequest \<Rightarrow> err option) \<Rightarrow> (detail \<Rightarrow> err option) \<Rightarrow> CompletedPart sort_func \<Rightarrow> process" where
  "main dotenv connection load_config listen new_validator validate any_new sort_parts =
     (case dotenv of
        Some e \<Rightarrow> Returned ''No .env found, when using environment variables''
      | None \<Rightarrow>
          (case createRpc connection load_config of
             Inl n \<Rightarrow> Exited n
           | Inr imageStore \<Rightarrow> Run listen new_validator validate any_new sort_parts imageStore))"

section \<open>Serving a request\<close>

definition server_interceptor :: "server \<Rightarrow> 's rpc_interceptor" where
  "server_interceptor sv = (\<lambda>req finalHandler.
     getChainUnaryHandler [Validate (sv_any_new sv) (sv_validator sv), ErrorResponseInterceptor (sv_any_new sv)]
       finalHandler req)"

datatype rpc_call =
    CallCreateLot "err + CreateLotRequest"
  | CallGeneratePresignedUrl "err + GeneratePresignedUrlRequest"
  | CallCompleteMultiPartUpload "err + CompleteMultiPartUploadRequest"

fun serve :: "'s env \<Rightarrow> server \<Rightarrow> rpc_call \<Rightarrow> 's rpc_result" where
  "serve env sv (CallCreateLot dec) =
     LotService_CreateLot_Handler (LotServer_CreateLot env (sv_validate sv)) dec (Some (server_interceptor sv))"
| "serve env sv (CallGeneratePresignedUrl dec) =
     LotImageService_GeneratePresignedUrl_Handler (GeneratePresignedUrl env (sv_imageStore sv)) dec
       (Some (server_interceptor sv))"
| "serve env sv (CallCompleteMultiPartUpload dec) =
     LotImageService_CompleteMultiPartUpload_Handler (CompleteMultiPartUpload env (sv_sort sv) (sv_imageStore sv)) dec
       (Some (server_interceptor sv))"

end
