(* ===== verification/Upload_Laws.thy ===== *)
theory Upload_Laws
  imports Rpc_Server "HOL-Library.Sublist"
begin

text \<open>
  Facts on the pure functions of package imagestore: the batch without repeated hashes, the
  separation of files already stored, the sorting of multipart rows, the missing parts, the part count of
  a file, and the converters.
\<close>

section \<open>Batching\<close>

text \<open>The files kept by the loop, and those set aside, when the hashes of \<open>S\<close> have been seen.\<close>

fun fresh_files :: "string set \<Rightarrow> uploadFile list \<Rightarrow> uploadFile list" where
  "fresh_files S [] = []"
| "fresh_files S (v # vs) = (if uf_Sha256 v \<in> S then fresh_files S vs else v # fresh_files (insert (uf_Sha256 v) S) vs)"

fun repeated_files :: "string set \<Rightarrow> uploadFile list \<Rightarrow> uploadFile list" where
  "repeated_files S [] = []"
| "repeated_files S (v # vs) = (if uf_Sha256 v \<in> S then v # repeated_files S vs else repeated_files (insert (uf_Sha256 v) S) vs)"

lemma intent_loop_eq:
  "(\<And>k. map_get False seen k \<longleftrightarrow> k \<in> S) \<Longrightarrow>
   intent_loop vs seen fs ds = (fs @ fresh_files S vs, ds @ repeated_files S vs)"
proof (induction vs arbitrary: seen fs ds S)
  case (Cons v vs)
  have step: "\<And>k. map_get False (seen(uf_Sha256 v \<mapsto> True)) k \<longleftrightarrow> k \<in> insert (uf_Sha256 v) S"
    using Cons.prems by (auto simp: map_get_def)
  show ?case
  proof (cases "uf_Sha256 v \<in> S")
    case True
    then have "insert (uf_Sha256 v) S = S" by blast
    with Cons.IH [OF step] True Cons.prems show ?thesis by (simp add: Let_def del: fun_upd_apply)
  next
    case False
    with Cons.IH [OF step] Cons.prems show ?thesis by (simp add: Let_def del: fun_upd_apply)
  qed
qed simp

lemma intentBatchUpload_eq: "intentBatchUpload fs = (fresh_files {} fs, repeated_files {} fs)"
  unfolding intentBatchUpload_def by (subst intent_loop_eq [where S = "{}"]) (auto simp: map_get_def)

lemma fresh_repeated_mset: "mset (fresh_files S fs) + mset (repeated_files S fs) = mset fs"
  by (induction fs arbitrary: S) auto

lemma fresh_subseq: "subseq (fresh_files S fs) fs"
  by (induction fs arbitrary: S) auto

lemma repeated_subseq: "subseq (repeated_files S fs) fs"
  by (induction fs arbitrary: S) auto

lemma fresh_shas: "uf_Sha256 ` set (fresh_files S fs) = uf_Sha256 ` set fs - S"
  by (induction fs arbitrary: S) auto

lemma fresh_distinct: "distinct (map uf_Sha256 (fresh_files S fs))"
proof (induction fs arbitrary: S)
  case (Cons v vs)
  have "uf_Sha256 v \<notin> uf_Sha256 ` set (fresh_files (insert (uf_Sha256 v) S) vs)" by (simp add: fresh_shas)
  with Cons show ?case by simp
qed simp

lemma fresh_first:
  "f \<in> set (fresh_files S fs) \<Longrightarrow> find (\<lambda>v. uf_Sha256 v = uf_Sha256 f) fs = Some f"
proof (induction fs arbitrary: S)
  case (Cons v vs)
  show ?case
  proof (cases "f = v")
    case False
    then have f: "\<exists>T. f \<in> set (fresh_files T vs) \<and> (uf_Sha256 v \<in> T)"
      using Cons.prems by (auto split: if_splits)
    then have "uf_Sha256 v \<noteq> uf_Sha256 f" using fresh_shas by force
    with f Cons.IH show ?thesis by auto
  qed simp
qed simp

lemma repeated_shas: "uf_Sha256 ` set (repeated_files S fs) \<subseteq> S \<union> uf_Sha256 ` set (fresh_files S fs)"
proof (induction fs arbitrary: S)
  case (Cons v vs)
  from Cons [of S] Cons [of "insert (uf_Sha256 v) S"] show ?case by (cases "uf_Sha256 v \<in> S") auto
qed simp

section \<open>Separating stored files\<close>

lemma separate_loop_eq:
  "separate_loop m ex ks need already =
     (need @ filter (\<lambda>f. ex (uf_Sha256 f) = None) (map (map_get zero_uploadFile m) ks),
      already @ filter (\<lambda>f. ex (uf_Sha256 f) \<noteq> None) (map (map_get zero_uploadFile m) ks))"
  by (induction ks arbitrary: need already) (auto simp: Let_def)

lemma range_files_mset:
  assumes "distinct (map uf_Sha256 fs)" and "range_order (map_build uf_Sha256 id fs) ks"
  shows "mset (map (map_get zero_uploadFile (map_build uf_Sha256 id fs)) ks) = mset fs"
proof -
  have "mset ks = mset (map uf_Sha256 fs)" using assms by (simp add: range_order_mset)
  then have "image_mset (map_get zero_uploadFile (map_build uf_Sha256 id fs)) (mset ks) =
      mset (map (\<lambda>f. map_get zero_uploadFile (map_build uf_Sha256 id fs) (uf_Sha256 f)) fs)"
    by (simp add: image_mset.compositionality o_def)
  also have "map (\<lambda>f. map_get zero_uploadFile (map_build uf_Sha256 id fs) (uf_Sha256 f)) fs = fs"
    by (rule map_idI) (use map_build_distinct [OF assms(1), where v = id] in simp)
  finally show ?thesis by (simp only: mset_map)
qed

lemma separate_mset:
  assumes "distinct (map uf_Sha256 fs)" and "range_order (map_build uf_Sha256 id fs) ks"
    and "separateUploadedAndNeedToBeUploadedFiles (map_build uf_Sha256 id fs) ex ks = (need, already)"
  shows "mset need = mset (filter (\<lambda>f. ex (uf_Sha256 f) = None) fs) \<and>
         mset already = mset (filter (\<lambda>f. ex (uf_Sha256 f) \<noteq> None) fs)"
proof -
  let ?gs = "map (map_get zero_uploadFile (map_build uf_Sha256 id fs)) ks"
  have eq: "mset ?gs = mset fs" using assms(1,2) by (rule range_files_mset)
  have "need = filter (\<lambda>f. ex (uf_Sha256 f) = None) ?gs" and "already = filter (\<lambda>f. ex (uf_Sha256 f) \<noteq> None) ?gs"
    using assms(3) unfolding separateUploadedAndNeedToBeUploadedFiles_def separate_loop_eq by (simp_all only: append_Nil prod.inject)
  then show ?thesis by (simp only: mset_filter eq)
qed

section \<open>Multipart rows\<close>

definition is_new :: "InsertAndValidateMultiPartUploadRow \<Rightarrow> bool" where
  "is_new r \<longleftrightarrow> mr_IsInserted r \<or> \<not> mr_IsValid r"

definition row_data :: "InsertAndValidateMultiPartUploadRow \<Rightarrow> newMultipartGenerationData" where
  "row_data r = \<lparr>ng_objectKey = uuid_String (mr_StorageKey r), ng_fileParts = mr_Parts r,
     ng_uploadId = the (mr_UploadID r), ng_storageKey = uuid_String (mr_StorageKey r), ng_sha256 = mr_Sha256 r,
     ng_partSize = the (mr_PartSize r), ng_multipartAttemptId = mr_ImageBlobUploadAttemptID r\<rparr>"

definition complete_row :: "InsertAndValidateMultiPartUploadRow \<Rightarrow> bool" where
  "complete_row r \<longleftrightarrow> mr_UploadID r \<noteq> None \<and> mr_PartSize r \<noteq> None"

lemma generation_data_eq:
  "generation_data r = (if complete_row r then Ret (row_data r) else Panic nil_deref)"
  by (cases "mr_UploadID r"; cases "mr_PartSize r") (auto simp: generation_data_def row_data_def complete_row_def)

lemma segregate_loop_eq:
  "segregate_loop rs ns vs =
     (if \<forall>r \<in> set rs. complete_row r
      then Ret (ns @ map row_data (filter is_new rs), vs @ map row_data (filter (\<lambda>r. \<not> is_new r) rs))
      else Panic nil_deref)"
  by (induction rs arbitrary: ns vs) (auto simp: generation_data_eq is_new_def)

lemma segregate_eq:
  "segregateMultiUploadFiles rs =
     (if \<forall>r \<in> set rs. complete_row r
      then Ret (map row_data (filter is_new rs), map row_data (filter (\<lambda>r. \<not> is_new r) rs))
      else Panic nil_deref)"
  by (simp add: segregateMultiUploadFiles_def segregate_loop_eq)

section \<open>Missing parts\<close>

lemma in_missing_parts:
  "k \<in> set (missing_parts tags ks) \<longleftrightarrow> k \<in> set ks \<and> k \<notin> (\<lambda>t. int16_of_int32 (ie_partNumber t)) ` set tags"
  by (simp add: missing_parts_def Let_def map_build_None_iff)

lemma missing_parts_subseq: "subseq (missing_parts tags ks) ks"
  by (simp add: missing_parts_def Let_def)

section \<open>File sizes and part counts\<close>

lemma sint_ucast_64_32: "sint (ucast (x :: 64 word) :: 32 word) = signed_take_bit 31 (uint x)"
proof -
  have "signed_take_bit 31 (take_bit 32 (uint x)) = signed_take_bit 31 (uint x)"
    by (simp add: signed_take_bit_eq_iff_take_bit_eq)
  then show ?thesis by (simp add: sint_uint unsigned_ucast_eq)
qed

lemma int32_of_uint_wrap:
  assumes "- (2 ^ 31) \<le> uint n - m * 2 ^ 32" and "uint n - m * 2 ^ 32 < 2 ^ 31"
  shows "sint (int32_of_uint n) = uint n - m * 2 ^ 32"
proof -
  have "take_bit 32 (uint n - m * 2 ^ 32) = take_bit 32 (uint n)"
    by (simp add: take_bit_eq_mod mod_diff_eq [symmetric])
  then have "signed_take_bit 31 (uint n - m * 2 ^ 32) = signed_take_bit 31 (uint n)"
    by (simp add: signed_take_bit_eq_iff_take_bit_eq)
  moreover have "signed_take_bit 31 (uint n - m * 2 ^ 32) = uint n - m * 2 ^ 32"
    using assms by (intro signed_take_bit_int_eq_self) auto
  ultimately show ?thesis by (simp add: int32_of_uint_def sint_ucast_64_32)
qed

lemma int32_of_uint_small: "uint n < 2 ^ 31 \<Longrightarrow> sint (int32_of_uint n) = uint n"
  using int32_of_uint_wrap [of n 0] uint_ge_0 [of n] by linarith

section \<open>Part counts\<close>

lemma sdiv_nonneg: "0 \<le> a \<Longrightarrow> 0 < b \<Longrightarrow> (a :: int) sdiv b = a div b"
  by (cases "a = 0") (simp_all add: signed_divide_int_def)

lemma sdiv_neg: "a < 0 \<Longrightarrow> 0 < b \<Longrightarrow> (a :: int) sdiv b = - (- a div b)"
  by (simp add: signed_divide_int_def)

lemma ceiling_div:
  assumes "0 < ps" and "k = (s + ps - 1) div (ps :: int)"
  shows "(k - 1) * ps < s" and "s \<le> k * ps"
proof -
  have "s + ps - 1 = k * ps + (s + ps - 1) mod ps" using assms(2) by simp
  moreover have "0 \<le> (s + ps - 1) mod ps" and "(s + ps - 1) mod ps < ps" using assms(1) by simp_all
  ultimately show "(k - 1) * ps < s" and "s \<le> k * ps" by (simp_all add: left_diff_distrib)
qed

lemma multi_part_count:
  assumes "0 \<le> s"
  shows "gen_part_count MultiUpload s (Some partSize) = Some ((s + partSize - 1) div partSize)"
  using assms by (simp add: gen_part_count_def partSize_def sdiv_nonneg)

section \<open>Messages and files\<close>

definition complete_image :: "ImageFile \<Rightarrow> bool" where
  "complete_image m \<longleftrightarrow> if_Sha256 m \<noteq> None \<and> if_FileName m \<noteq> None \<and> if_ClientFileId m \<noteq> None \<and> if_FileSize m \<noteq> None"

definition upload_of :: "ImageFile \<Rightarrow> uploadFile" where
  "upload_of m = \<lparr>uf_Sha256 = the (if_Sha256 m), uf_FileName = the (if_FileName m),
     uf_ClientFileId = itoa (sint (the (if_ClientFileId m))), uf_FileSize = the (if_FileSize m)\<rparr>"

lemma convertToUploadFile_eq:
  "convertToUploadFile (Some m) = (if complete_image m then Ret (upload_of m) else Panic nil_deref)"
  by (cases "if_Sha256 m"; cases "if_FileName m"; cases "if_ClientFileId m"; cases "if_FileSize m")
    (auto simp: convertToUploadFile_def complete_image_def upload_of_def)

lemma convertToUploadFiles_complete:
  "(\<And>m. m \<in> set ms \<Longrightarrow> complete_image m) \<Longrightarrow> convertToUploadFiles (map Some ms) = Ret (map upload_of ms)"
  unfolding convertToUploadFiles_def by (induction ms) (simp_all add: convertToUploadFile_eq)

lemma convertToImageFile_upload_of: "complete_image m \<Longrightarrow> convertToImageFile (upload_of m) = Ret (Some m)"
  by (cases m)
    (auto simp: convertToImageFile_def upload_of_def complete_image_def itoa_codec.parse_print [OF fits_int64_sint32])

lemma convertToImageFiles_upload_of:
  "(\<And>m. m \<in> set ms \<Longrightarrow> complete_image m) \<Longrightarrow> convertToImageFiles (map upload_of ms) = Ret (map Some ms)"
  unfolding convertToImageFiles_def
proof (induction ms)
  case (Cons m ms)
  then show ?case using convertToImageFile_upload_of [of m] by simp
qed simp

lemma upload_of_inj: "complete_image m \<Longrightarrow> complete_image m' \<Longrightarrow> upload_of m = upload_of m' \<Longrightarrow> m = m'"
  by (metis convertToImageFile_upload_of option.inject outcome.inject(1))

lemma hexToBase64_sha: "sha_text s \<Longrightarrow> hexToBase64 s = Ret (b64_encode (sha_bytes s))"
  by (simp add: hexToBase64_def sha_text_decode)

end
