(* ===== verification/Upload_Rows.thy ===== *)
theory Upload_Rows
  imports Upload_Laws
begin

text \<open>
  What the two upload statements give back for a list of files: one row per file, in step with the
  pending attempt that the database then holds for the file's hash and lot. \<open>single_data\<close> and
  \<open>multi_data\<close> are the parallel arrays that \<open>extractFileData\<close> fills.
\<close>

section \<open>One row per input\<close>

context upsert
begin

definition row_answer :: "db \<Rightarrow> db \<Rightarrow> (ImageBlobUploadAttempt option \<Rightarrow> ImageBlobUploadAttempt \<Rightarrow> err + 'r) \<Rightarrow> 'i \<Rightarrow> 'r \<Rightarrow> bool" where
  "row_answer d d' ret x r \<longleftrightarrow> (\<exists>old new. row_ok (attempts d) x (old, new) \<and> ret old new = Inr r \<and>
     find_pending (key x) (attempts d') = Some new \<and> at_LotID new \<in> lot_ids d)"

lemma upsert_rows:
  assumes "attempts_wf (attempts d) (attempt_seq d)"
    and "upsert_statement propose on_conflict ret xs d = (Ret rs, d')"
  shows "list_all2 (row_answer d d' ret) xs rs"
proof -
  from assms obtain rows where xr: "list_all2 (row_ok (attempts d)) xs rows"
    and rr: "list_all2 (\<lambda>row r. ret (fst row) (snd row) = Inr r) rows rs"
    and pend: "\<forall>row \<in> set rows. find_pending (pending_key (snd row)) (attempts d') = Some (snd row)"
    and lot: "\<forall>row \<in> set rows. at_LotID (snd row) \<in> lot_ids d"
    by (rule upsert_statement_Ret)
  show ?thesis
    unfolding list_all2_conv_all_nth
  proof (intro conjI allI impI)
    show "length xs = length rs" using list_all2_lengthD [OF xr] list_all2_lengthD [OF rr] by simp
  next
    fix i assume i: "i < length xs"
    with list_all2_lengthD [OF xr] have ir: "i < length rows" by simp
    obtain old new where row: "rows ! i = (old, new)" by (cases "rows ! i")
    have ok: "row_ok (attempts d) (xs ! i) (old, new)" using list_all2_nthD [OF xr i] row by simp
    moreover have "ret old new = Inr (rs ! i)" using list_all2_nthD [OF rr ir] row by simp
    moreover have "find_pending (pending_key new) (attempts d') = Some new" and "at_LotID new \<in> lot_ids d"
      using pend lot nth_mem [OF ir] row by auto
    moreover from ok have "pending_key new = key (xs ! i)" by (simp add: row_ok_def)
    ultimately show "row_answer d d' ret (xs ! i) (rs ! i)" by (auto simp: row_answer_def)
  qed
qed

lemma row_okD:
  assumes "row_ok start x (old, new)"
  shows "is_pending new" and "pending_key new = key x" and "find_pending (key x) start = old"
    and "\<And>o'. old = Some o' \<Longrightarrow> same_identity o' new"
    and "old = None \<Longrightarrow> \<exists>u i. propose u i x = Inr new"
  using assms by (auto simp: row_ok_def split: option.splits intro: update_row_same)

end

lemma db_wf_attempts_wf: "db_wf d \<Longrightarrow> attempts_wf (attempts d) (attempt_seq d)"
  by (simp add: db_wf_def)

section \<open>Parallel arrays\<close>

lemma pad_full: "length xs = n \<Longrightarrow> pad n xs = map Some xs"
  by (simp add: pad_def)

lemma zip_maps: "zip (map f xs) (map g xs) = map (\<lambda>x. (f x, g x)) xs"
  by (induction xs) auto

definition single_data :: "uploadFile list \<Rightarrow> singleFileData" where
  "single_data fs = \<lparr>sd_singleFileUploads = fs, sd_Sha256s = map uf_Sha256 fs,
     sd_Sizes = map (\<lambda>f. int32_of_uint (uf_FileSize f)) fs, sd_ContentTypes = map (\<lambda>_. ''image/jpeg'') fs,
     sd_Names = map uf_FileName fs\<rparr>"

text \<open>A large file with its new storage key and upload id.\<close>

type_synonym started = "uploadFile \<times> uuid \<times> string"

definition multi_data :: "started list \<Rightarrow> multipartFileData" where
  "multi_data ts = \<lparr>md_multiFileUploadMap = map_build uf_Sha256 id (map fst ts),
     md_Sha256s = map (\<lambda>t. uf_Sha256 (fst t)) ts, md_Sizes = map (\<lambda>t. int32_of_uint (uf_FileSize (fst t))) ts,
     md_ContentTypes = map (\<lambda>_. ''image/jpeg'') ts, md_Names = map (\<lambda>t. uf_FileName (fst t)) ts,
     md_StorageKeys = map (\<lambda>t. fst (snd t)) ts, md_UploadIds = map (\<lambda>t. snd (snd t)) ts\<rparr>"

definition single_input_of :: "uploadFile \<Rightarrow> single_input" where
  "single_input_of f = (Some (uf_Sha256 f), Some (int32_of_uint (uf_FileSize f)), Some ''image/jpeg'', Some (uf_FileName f))"

definition multi_input_of :: "started \<Rightarrow> multi_input" where
  "multi_input_of t = (Some (uf_Sha256 (fst t)), Some (int32_of_uint (uf_FileSize (fst t))), Some ''image/jpeg'',
     Some (snd (snd t)), Some (uf_FileName (fst t)), Some (fst (snd t)))"

lemma single_inputs_eq: "single_inputs (single_params lot (single_data fs)) = map single_input_of fs"
  by (simp add: single_inputs_def single_params_def single_data_def pad_full zip_maps single_input_of_def)

lemma multi_inputs_eq: "multi_inputs (multi_params lot (multi_data ts)) = map multi_input_of ts"
  by (simp add: multi_inputs_def multi_params_def multi_data_def pad_full zip_maps multi_input_of_def)

definition file_key :: "uuid \<Rightarrow> uploadFile \<Rightarrow> bytes \<times> uuid" where
  "file_key lot f = (sha_bytes (uf_Sha256 f), lot)"

lemma input_sha_text: "sha_text s \<Longrightarrow> input_sha (Some s) = sha_bytes s"
  by (simp add: input_sha_def decode_optional_sha)

lemma single_key_of: "sha_text (uf_Sha256 f) \<Longrightarrow> single_key (single_params lot s) (single_input_of f) = file_key lot f"
  by (simp add: single_key_def single_input_of_def input_sha_text file_key_def single_params_def)

lemma multi_key_of: "sha_text (uf_Sha256 (fst t)) \<Longrightarrow> multi_key (multi_params lot m) (multi_input_of t) = file_key lot (fst t)"
  by (simp add: multi_key_def multi_input_of_def input_sha_text file_key_def multi_params_def)

section \<open>Rows of a single upload\<close>

definition single_row_ok :: "uuid \<Rightarrow> db \<Rightarrow> db \<Rightarrow> uploadFile \<Rightarrow> InsertSinglePartUploadRow \<Rightarrow> bool" where
  "single_row_ok lot d d' f r \<longleftrightarrow> (\<exists>a. find_pending (file_key lot f) (attempts d') = Some a \<and>
     sr_Sha256 r = map ascii_lower (uf_Sha256 f) \<and> sr_StorageKey r = at_StorageKey a \<and>
     (\<forall>old. find_pending (file_key lot f) (attempts d) = Some old \<longrightarrow> same_identity old a))"

lemma single_rows:
  assumes wf: "db_wf d" and sha: "\<And>f. f \<in> set fs \<Longrightarrow> sha_text (uf_Sha256 f)"
    and stmt: "InsertSinglePartUpload fault env (single_params lot (single_data fs)) d = (Ret rs, d')"
  shows "list_all2 (single_row_ok lot d d') fs rs" and "fs \<noteq> [] \<Longrightarrow> lot \<in> lot_ids d"
proof -
  let ?p = "single_params lot (single_data fs)"
  have "upsert_statement (single_propose env ?p) single_on_conflict single_returning (map single_input_of fs) d = (Ret rs, d')"
    using stmt by (simp add: InsertSinglePartUpload_def run_query_def sql_InsertSinglePartUpload_def single_inputs_eq split: option.splits)
  then have rows: "list_all2 (single_upsert.row_answer env ?p d d' single_returning) (map single_input_of fs) rs"
    by (rule single_upsert.upsert_rows [OF db_wf_attempts_wf [OF wf]])
  have ok: "single_row_ok lot d d' f r \<and> lot \<in> lot_ids d"
    if f: "f \<in> set fs" and ans: "single_upsert.row_answer env ?p d d' single_returning (single_input_of f) r" for f r
  proof -
    note key = single_key_of [OF sha [OF f], where lot = lot and s = "single_data fs"]
    obtain old new where row: "single_upsert.row_ok env ?p (attempts d) (single_input_of f) (old, new)"
      and r: "single_returning old new = Inr r" and pend: "find_pending (file_key lot f) (attempts d') = Some new"
      and lot': "at_LotID new \<in> lot_ids d"
      using ans key by (auto simp: single_upsert.row_answer_def)
    have k: "pending_key new = file_key lot f" "find_pending (file_key lot f) (attempts d) = old"
      using single_upsert.row_okD(2,3) [OF row] key by auto
    have same: "\<And>o'. old = Some o' \<Longrightarrow> same_identity o' new" using single_upsert.row_okD(4) [OF row] .
    from k(1) have "at_Sha256 new = sha_bytes (uf_Sha256 f)" "at_LotID new = lot" by (auto simp: pending_key_def file_key_def)
    with r have "sr_Sha256 r = map ascii_lower (uf_Sha256 f)" "sr_StorageKey r = at_StorageKey new"
      by (auto simp: single_returning_def hex_encode_sha_bytes [OF sha [OF f]])
    with pend k same lot' \<open>at_LotID new = lot\<close> show ?thesis by (auto simp: single_row_ok_def)
  qed
  from rows have rows': "list_all2 (\<lambda>f r. single_upsert.row_answer env ?p d d' single_returning (single_input_of f) r) fs rs"
    by (simp add: list_all2_map1)
  show "list_all2 (single_row_ok lot d d') fs rs"
    by (rule list.rel_mono_strong [OF rows']) (use ok in blast)
  show "fs \<noteq> [] \<Longrightarrow> lot \<in> lot_ids d"
    using rows' ok by (cases fs) (auto simp: list_all2_Cons1)
qed

section \<open>Rows of a multipart upload\<close>

definition multi_row_ok :: "sql_env \<Rightarrow> uuid \<Rightarrow> db \<Rightarrow> db \<Rightarrow> started \<Rightarrow> InsertAndValidateMultiPartUploadRow \<Rightarrow> bool" where
  "multi_row_ok env lot d d' t r \<longleftrightarrow> (\<exists>a. find_pending (file_key lot (fst t)) (attempts d') = Some a \<and>
     mr_Sha256 r = map ascii_lower (uf_Sha256 (fst t)) \<and> mr_StorageKey r = at_StorageKey a \<and>
     mr_UploadID r = at_UploadID a \<and> mr_PartSize r = at_PartSize a \<and> mr_ImageBlobUploadAttemptID r = at_ID a \<and>
     parts_array (at_PartCount a) = Inr (mr_Parts r) \<and>
     (case find_pending (file_key lot (fst t)) (attempts d) of
        None \<Rightarrow> mr_IsInserted r \<and> at_StorageKey a = fst (snd t) \<and> at_UploadID a = Some (snd (snd t)) \<and>
          at_PartSize a = Some partSize \<and> at_UploadType a = MultiUpload \<and>
          at_FileSize a = sint (int32_of_uint (uf_FileSize (fst t)))
      | Some old \<Rightarrow> \<not> mr_IsInserted r \<and> mr_IsValid r = still_valid env old \<and> same_identity old a \<and>
          at_PartSize a = (if still_valid env old then at_PartSize old else Some partSize)))"

lemma multi_rows:
  assumes wf: "db_wf d" and sha: "\<And>t. t \<in> set ts \<Longrightarrow> sha_text (uf_Sha256 (fst t))"
    and stmt: "InsertAndValidateMultiPartUpload fault env (multi_params lot (multi_data ts)) d = (Ret rs, d')"
  shows "list_all2 (multi_row_ok env lot d d') ts rs" and "ts \<noteq> [] \<Longrightarrow> lot \<in> lot_ids d"
proof -
  let ?p = "multi_params lot (multi_data ts)"
  have "upsert_statement (multi_propose env ?p) (multi_on_conflict env ?p) (multi_returning env) (map multi_input_of ts) d = (Ret rs, d')"
    using stmt by (simp add: InsertAndValidateMultiPartUpload_def run_query_def sql_InsertAndValidateMultiPartUpload_def
        multi_inputs_eq split: option.splits)
  then have rows: "list_all2 (multi_upsert.row_answer env ?p d d' (multi_returning env)) (map multi_input_of ts) rs"
    by (rule multi_upsert.upsert_rows [OF db_wf_attempts_wf [OF wf]])
  have ok: "multi_row_ok env lot d d' t r \<and> lot \<in> lot_ids d"
    if t: "t \<in> set ts" and ans: "multi_upsert.row_answer env ?p d d' (multi_returning env) (multi_input_of t) r" for t r
  proof -
    note key = multi_key_of [OF sha [OF t], where lot = lot and m = "multi_data ts"]
    obtain old new where row: "multi_upsert.row_ok env ?p (attempts d) (multi_input_of t) (old, new)"
      and r: "multi_returning env old new = Inr r" and pend: "find_pending (file_key lot (fst t)) (attempts d') = Some new"
      and lot': "at_LotID new \<in> lot_ids d"
      using ans key by (auto simp: multi_upsert.row_answer_def)
    have k: "pending_key new = file_key lot (fst t)" "find_pending (file_key lot (fst t)) (attempts d) = old"
      using multi_upsert.row_okD(2,3) [OF row] key by auto
    from k(1) have s: "at_Sha256 new = sha_bytes (uf_Sha256 (fst t))" "at_LotID new = lot"
      by (auto simp: pending_key_def file_key_def)
    have "case old of
        None \<Rightarrow> mr_IsInserted r \<and> at_StorageKey new = fst (snd t) \<and> at_UploadID new = Some (snd (snd t)) \<and>
          at_PartSize new = Some partSize \<and> at_UploadType new = MultiUpload \<and>
          at_FileSize new = sint (int32_of_uint (uf_FileSize (fst t)))
      | Some o' \<Rightarrow> \<not> mr_IsInserted r \<and> mr_IsValid r = still_valid env o' \<and> same_identity o' new \<and>
          at_PartSize new = (if still_valid env o' then at_PartSize o' else Some partSize)"
    proof (cases old)
      case None
      then obtain u i where "multi_propose env ?p u i (multi_input_of t) = Inr new"
        using multi_upsert.row_okD(5) [OF row] by blast
      from multi_propose_Inr [OF this [unfolded multi_input_of_def]] None r show ?thesis
        by (auto simp: multi_params_def multi_returning_def)
    next
      case (Some o')
      have "update_row (multi_on_conflict env ?p) o' = Inr new" using row Some by (simp add: multi_upsert.row_ok_def)
      then have "at_PartSize new = at_PartSize (multi_on_conflict env ?p o')" by (rule multi_upsert.update_row_same(3))
      with Some r multi_upsert.row_okD(4) [OF row Some] show ?thesis
        by (auto simp: multi_on_conflict_def multi_params_def multi_returning_def)
    qed
    with r pend k s lot' show ?thesis
      by (auto simp: multi_row_ok_def multi_returning_def hex_encode_sha_bytes [OF sha [OF t]])
  qed
  from rows have rows': "list_all2 (\<lambda>t r. multi_upsert.row_answer env ?p d d' (multi_returning env) (multi_input_of t) r) ts rs"
    by (simp add: list_all2_map1)
  show "list_all2 (multi_row_ok env lot d d') ts rs"
    by (rule list.rel_mono_strong [OF rows']) (use ok in blast)
  show "ts \<noteq> [] \<Longrightarrow> lot \<in> lot_ids d"
    using rows' ok by (cases ts) (auto simp: list_all2_Cons1)
qed

end
