(* ===== verification/Upload_Answers.thy ===== *)
theory Upload_Answers
  imports Upload_Rows
begin

text \<open>
  The upload request as a whole: which of its functions touch the database, that the database stays
  well formed, and what a successful request answers for each file. \<open>single_answer\<close> and \<open>multi_answer\<close> are the
  abstract specification: they relate a presigned URL to the pending attempt of the file in the database
  after the request, whatever arrays and maps the code went through to get there.
\<close>

section \<open>Calls that leave the database alone\<close>

lemma keeps_deref [keeps_intros]: "keeps I (liftp r)"
  by (rule keeps_liftp)

lemma keeps_makeUUIDText [keeps_intros]: "keeps (\<lambda>w. I (w_db w)) (makeUUIDText env)"
  unfolding makeUUIDText_def by (intro keeps_intros)

lemma keeps_generateMultiPartUploadId [keeps_intros]: "keeps (\<lambda>w. I (w_db w)) (generateMultiPartUploadId env st k)"
  unfolding generateMultiPartUploadId_def by (intro keeps_intros)

lemma keeps_generateSinglePresigned [keeps_intros]:
  "keeps (\<lambda>w. I (w_db w)) (generateSinglePresignedPutObjectUrl env st k s)"
  unfolding generateSinglePresignedPutObjectUrl_def by (intro keeps_intros)

lemma keeps_presign_part [keeps_intros]: "keeps (\<lambda>w. I (w_db w)) (presign_part env st u wrap k)"
  unfolding presign_part_def by (intro keeps_intros)

lemma keeps_new_urls [keeps_intros]: "keeps (\<lambda>w. I (w_db w)) (generateNewMultiPartUploadUrls env st u ks)"
  unfolding generateNewMultiPartUploadUrls_def by (intro keeps_intros)

lemma keeps_existing_urls [keeps_intros]: "keeps (\<lambda>w. I (w_db w)) (generateExistingMultiPartPresignedUrl env st u ks)"
  unfolding generateExistingMultiPartPresignedUrl_def by (intro keeps_intros)

lemma keeps_listNotUploadedParts [keeps_intros]: "keeps (\<lambda>w. I (w_db w)) (listNotUploadedParts env st u ks)"
  unfolding listNotUploadedParts_def by (intro keeps_intros)

lemma keeps_generateResumeUploadUrls [keeps_intros]: "keeps (\<lambda>w. I (w_db w)) (generateResumeUploadUrls env st u ks)"
  unfolding generateResumeUploadUrls_def
  by (intro keeps_intros, simp add: case_prod_beta, intro keeps_intros)

lemma keeps_generateUrlsForNewUploads [keeps_intros]: "keeps (\<lambda>w. I (w_db w)) (generateUrlsForNewUploads env st m gs)"
  unfolding generateUrlsForNewUploads_def by (intro keeps_intros)

lemma keeps_genrateUrlsForResumableUploads [keeps_intros]:
  "keeps (\<lambda>w. I (w_db w)) (genrateUrlsForResumableUploads env st m gs)"
  unfolding genrateUrlsForResumableUploads_def
  by (intro keeps_intros, simp add: case_prod_beta, intro keeps_intros)

lemma keeps_extract_loop: "keeps (\<lambda>w. I (w_db w)) (extract_loop env st fs acc)"
proof (induction fs arbitrary: acc)
  case (Cons f fs)
  show ?case
  proof (cases "uint (uf_FileSize f) < multipartThreshold")
    case True
    with Cons.IH show ?thesis by simp
  next
    case False
    then show ?thesis by (simp only: extract_loop.simps if_False) (intro keeps_intros Cons.IH)
  qed
qed (simp add: keeps_liftp)

lemma keeps_extractFileData [keeps_intros]: "keeps (\<lambda>w. I (w_db w)) (extractFileData env st fs)"
  unfolding extractFileData_def by (rule keeps_extract_loop)

text \<open>Such a call gives back the database it was given.\<close>

lemma db_same: "(\<And>I. keeps (\<lambda>w. I (w_db w)) m) \<Longrightarrow> m w = (r, w') \<Longrightarrow> w_db w' = w_db w"
proof -
  assume keeps: "\<And>I. keeps (\<lambda>w. I (w_db w)) m" and run: "m w = (r, w')"
  have "keeps (\<lambda>v. w_db v = w_db w) m" by (rule keeps [of "\<lambda>d. d = w_db w"])
  from keepsD [OF this _ run] show ?thesis by simp
qed

section \<open>Calls that keep it well formed\<close>

lemma keeps_skip [keeps_intros]: "keeps (\<lambda>w. grown d0 (w_db w)) (skipUploadForIdenticalImageBlobs env fs lot)"
  unfolding skipUploadForIdenticalImageBlobs_def Let_def by (intro keeps_intros)

lemma keeps_createSingle [keeps_intros]: "keeps (\<lambda>w. grown d0 (w_db w)) (createSinglePresignedFileUrl env st lot s)"
  unfolding createSinglePresignedFileUrl_def Let_def by (intro keeps_intros)

lemma keeps_createMultipart [keeps_intros]: "keeps (\<lambda>w. grown d0 (w_db w)) (createMultipartPresignedFileUrl env st lot m)"
  unfolding createMultipartPresignedFileUrl_def
  by (intro keeps_intros, simp add: case_prod_beta, intro keeps_intros)

lemma keeps_if [keeps_intros]: "keeps I m \<Longrightarrow> keeps I m' \<Longrightarrow> keeps I (if b then m else m')"
  by simp

lemma keeps_generateS3UploadUrl [keeps_intros]: "keeps (\<lambda>w. grown d0 (w_db w)) (generateS3UploadUrl env st lot fs)"
  unfolding generateS3UploadUrl_def by (intro keeps_intros)

lemma keeps_upload_body [keeps_intros]: "keeps (\<lambda>w. grown d0 (w_db w)) (upload_body env st lot fs)"
  unfolding upload_body_def
  by (intro keeps_intros, simp add: case_prod_beta, intro keeps_intros)

lemma initiateUpload_grown: "db_wf (w_db w) \<Longrightarrow> grown (w_db w) (w_db (snd (initiateUpload env store fs lotId w)))"
proof -
  assume wf: "db_wf (w_db w)"
  have body: "grown (w_db w) (w_db (snd (upload_body env st lot gs w)))" for st lot gs
    using keeps_upload_body [of "w_db w" env st lot gs] grown_refl [OF wf] by (simp add: keeps_def)
  have tx: "grown (w_db w) (w_db (snd (in_tx env begin_failure commit_failure (upload_body env st lot gs) w)))" for st lot gs
    by (intro in_tx_grown wf body)
  show ?thesis
  proof (cases "uuid_Parse lotId")
    case (Inr lot)
    show ?thesis
    proof (cases store)
      case (Some s)
      obtain r w' where "in_tx env begin_failure commit_failure (upload_body env (is_s3Storage s) lot (fst (intentBatchUpload fs))) w = (r, w')"
        by fastforce
      with tx [of "is_s3Storage s" lot "fst (intentBatchUpload fs)"] Inr Some show ?thesis
        by (cases r) (auto simp: initiateUpload_def case_prod_beta)
    qed (use grown_refl [OF wf] Inr in \<open>simp add: initiateUpload_def case_prod_beta\<close>)
  qed (use grown_refl [OF wf] in \<open>simp add: initiateUpload_def case_prod_beta\<close>)
qed

section \<open>Sorting files by size\<close>

definition is_single :: "uploadFile \<Rightarrow> bool" where
  "is_single f \<longleftrightarrow> uint (uf_FileSize f) < multipartThreshold"

definition extracted :: "uploadFile list \<Rightarrow> started list \<Rightarrow> extractFile" where
  "extracted fs ts = \<lparr>ex_singleFile = single_data fs, ex_multipartFile = multi_data ts\<rparr>"

text \<open>The random source gives the 16 bytes it is asked for.\<close>

definition random_ok :: "'s env \<Rightarrow> bool" where
  "random_ok env \<longleftrightarrow> (\<forall>n r. e_rand env n = Inr r \<longrightarrow> length r = 16)"

text \<open>The upload id was given by \<open>CreateMultipartUpload\<close> for the storage key, which is a fresh random UUID.\<close>

definition upload_started :: "'s env \<Rightarrow> s3Storage \<Rightarrow> started \<Rightarrow> bool" where
  "upload_started env st t \<longleftrightarrow> (\<exists>n r s s'. e_rand env n = Inr r \<and> fst (snd t) = uuid_of_random r \<and>
     CreateMultipartUpload (e_s3 env) (bucketName st) (uuid_String (fst (snd t))) s = (Inr (Some (snd (snd t))), s'))"

lemma extract_loop_Ret:
  assumes "random_ok env" and "extract_loop env st files (extracted fs ts) w = (Ret ex, w')"
  shows "\<exists>ts'. ex = extracted (fs @ filter is_single files) (ts @ ts') \<and>
    map fst ts' = filter (\<lambda>f. \<not> is_single f) files \<and> (\<forall>t \<in> set ts'. upload_started env st t)"
  using assms(2)
proof (induction files arbitrary: fs ts w)
  case (Cons f files)
  show ?case
  proof (cases "is_single f")
    case True
    have "extracted fs ts\<lparr>ex_singleFile := add_single f (ex_singleFile (extracted fs ts))\<rparr> = extracted (fs @ [f]) ts"
      by (simp add: extracted_def add_single_def single_data_def)
    with Cons.prems True have "extract_loop env st files (extracted (fs @ [f]) ts) w = (Ret ex, w')"
      by (simp add: is_single_def)
    from Cons.IH [OF this] True show ?thesis by auto
  next
    case False
    with Cons.prems obtain u w1 key id w2 where
      uuid: "makeUUIDText env w = (Ret u, w1)" and key: "uuid_MustParse u = (Ret key :: (err, uuid) outcome)"
      and id: "generateMultiPartUploadId env st u w1 = (Ret id, w2)"
      and rest: "extract_loop env st files
        (extracted fs ts\<lparr>ex_multipartFile := add_multi f key id (ex_multipartFile (extracted fs ts))\<rparr>) w2 = (Ret ex, w')"
      by (auto simp: is_single_def bindp_Ret_iff on_error_Ret_iff liftp_iff simp del: bindp_liftp)
    from uuid obtain r where r: "e_rand env (w_rand w) = Inr r" and u: "u = uuid_String (uuid_of_random r)"
      by (auto simp: makeUUIDText_def bindp_Ret_iff on_error_Ret_iff dest!: NewRandom_Ret)
    have "valid_uuid (uuid_of_random r)" using assms(1) r by (auto simp: random_ok_def intro: valid_uuid_of_random)
    with key u have k: "key = uuid_of_random r" by (auto simp: uuid_MustParse_String)
    have "\<exists>s s'. CreateMultipartUpload (e_s3 env) (bucketName st) (uuid_String key) s = (Inr (Some id), s')"
      using id u k by (auto simp: generateMultiPartUploadId_def bindp_Ret_iff on_error_Ret_iff on_s3_Ret_iff)
    with r k have started: "upload_started env st (f, key, id)" by (auto simp: upload_started_def)
    have "extracted fs ts\<lparr>ex_multipartFile := add_multi f key id (ex_multipartFile (extracted fs ts))\<rparr> =
        extracted fs (ts @ [(f, key, id)])"
      by (simp add: extracted_def add_multi_def multi_data_def map_build_snoc)
    from Cons.IH [OF rest [unfolded this]] obtain ts' where
      "ex = extracted (fs @ filter is_single files) ((ts @ [(f, key, id)]) @ ts')"
      "map fst ts' = filter (\<lambda>f. \<not> is_single f) files" "\<forall>t \<in> set ts'. upload_started env st t" by blast
    with started False show ?thesis by (intro exI [of _ "(f, key, id) # ts'"]) simp
  qed
qed simp

lemma extractFileData_Ret:
  assumes "random_ok env" and "extractFileData env st files w = (Ret ex, w')"
  obtains ts where "ex = extracted (filter is_single files) ts" and "map fst ts = filter (\<lambda>f. \<not> is_single f) files"
    and "\<forall>t \<in> set ts. upload_started env st t" and "w_db w' = w_db w"
proof -
  have "zero_extractFile = extracted [] []"
    by (simp add: zero_extractFile_def extracted_def single_data_def multi_data_def)
  with assms(2) have "extract_loop env st files (extracted [] []) w = (Ret ex, w')" by (simp add: extractFileData_def)
  from extract_loop_Ret [OF assms(1) this] obtain ts where
    "ex = extracted (filter is_single files) ts" "map fst ts = filter (\<lambda>f. \<not> is_single f) files"
    "\<forall>t \<in> set ts. upload_started env st t" by auto
  moreover have "w_db w' = w_db w" using assms(2) by (rule db_same [OF keeps_extractFileData])
  ultimately show thesis by (rule that)
qed

end
