(* ===== verification/Upload_Results.thy ===== *)
theory Upload_Results
  imports Upload_Answers
begin

text \<open>
  What a successful upload request answers for each file. \<open>single_answer\<close> and \<open>multi_answer\<close> are the abstract
  specification of a presigned URL: they name the pending attempt of the file's hash and lot in the
  database after the request, and the call of the presigner that made the URL, and leave out the
  arrays and maps of the code. \<open>generateS3UploadUrl_Ret\<close> shows that the code meets it.
\<close>

section \<open>Lists\<close>

lemma list_all2_unfilter:
  "list_all2 Q (filter P rs) us1 \<Longrightarrow> list_all2 Q (filter (\<lambda>r. \<not> P r) rs) us2 \<Longrightarrow>
   \<exists>us. list_all2 Q rs us \<and> mset us = mset us1 + mset us2"
proof (induction rs arbitrary: us1 us2)
  case (Cons r rs)
  show ?case
  proof (cases "P r")
    case True
    with Cons.prems obtain u us1' where "us1 = u # us1'" "Q r u" "list_all2 Q (filter P rs) us1'"
      by (auto simp: list_all2_Cons1)
    with Cons.IH [of us1' us2] Cons.prems True obtain us where "list_all2 Q rs us" "mset us = mset us1' + mset us2" by auto
    with \<open>us1 = u # us1'\<close> \<open>Q r u\<close> show ?thesis by (intro exI [of _ "u # us"]) simp
  next
    case False
    with Cons.prems obtain u us2' where "us2 = u # us2'" "Q r u" "list_all2 Q (filter (\<lambda>r. \<not> P r) rs) us2'"
      by (auto simp: list_all2_Cons1)
    with Cons.IH [of us1 us2'] Cons.prems False obtain us where "list_all2 Q rs us" "mset us = mset us1 + mset us2'" by auto
    with \<open>us2 = u # us2'\<close> \<open>Q r u\<close> show ?thesis by (intro exI [of _ "u # us"]) simp
  qed
qed simp

lemma list_all2_in_left: "list_all2 R xs ys \<Longrightarrow> list_all2 (\<lambda>x y. x \<in> set xs \<and> y \<in> set ys \<and> R x y) xs ys"
  by (auto intro: list.rel_mono_strong)

lemma list_all2_map_eq: "list_all2 (\<lambda>x y. g y = f x) xs ys \<Longrightarrow> map g ys = map f xs"
  by (induction xs ys rule: list_all2_induct) auto

lemma lower_sha_fixed: "lower_sha s \<Longrightarrow> map ascii_lower s = s"
  by (simp add: lower_sha_def lower_hex_def map_idI)

lemma data_selectors [simp]:
  "sd_singleFileUploads (single_data fs) = fs" "sd_Sha256s (single_data fs) = map uf_Sha256 fs"
  "md_multiFileUploadMap (multi_data ts) = map_build uf_Sha256 id (map fst ts)"
  "md_Sha256s (multi_data ts) = map (\<lambda>t. uf_Sha256 (fst t)) ts"
  by (simp_all add: single_data_def multi_data_def)

lemma row_data_selectors [simp]:
  "ng_fileParts (row_data r) = mr_Parts r" "ng_sha256 (row_data r) = mr_Sha256 r"
  "ng_partSize (row_data r) = the (mr_PartSize r)" "ng_multipartAttemptId (row_data r) = mr_ImageBlobUploadAttemptID r"
  "identity_of (row_data r) = \<lparr>ui_storageKey = uuid_String (mr_StorageKey r), ui_uploadId = the (mr_UploadID r)\<rparr>"
  by (simp_all add: row_data_def identity_of_def)

section \<open>Single uploads\<close>

definition presigned_put :: "'s env \<Rightarrow> s3Storage \<Rightarrow> string \<Rightarrow> bytes \<Rightarrow> PresignedHTTPRequest \<Rightarrow> bool" where
  "presigned_put env st key sha q \<longleftrightarrow> (\<exists>s s'. PresignPutObject (e_s3 env)
     \<lparr>po_Bucket = bucketName st, po_Key = key, po_ChecksumAlgorithm = ''SHA256'', po_ChecksumSHA256 = b64_encode sha,
      po_Expires = presignExpiry, po_DisableHeaderHoisting = True\<rparr> s = (Inr q, s'))"

definition single_answer :: "'s env \<Rightarrow> s3Storage \<Rightarrow> uuid \<Rightarrow> db \<Rightarrow> db \<Rightarrow> uploadFile \<Rightarrow> presignedFileUrl \<Rightarrow> bool" where
  "single_answer env st lot d d' f u \<longleftrightarrow> (\<exists>a q.
     find_pending (file_key lot f) (attempts d') = Some a \<and>
     (\<forall>old. find_pending (file_key lot f) (attempts d) = Some old \<longrightarrow> same_identity old a) \<and>
     presigned_put env st (uuid_String (at_StorageKey a)) (sha_bytes (uf_Sha256 f)) q \<and>
     u = single_url f \<lparr>sU_request = Some q\<rparr>)"

lemma generateSinglePresigned_Ret:
  assumes "sha_text s" and "generateSinglePresignedPutObjectUrl env st k s w = (Ret u, w')"
  shows "\<exists>q. presigned_put env st k (sha_bytes s) q \<and> u = \<lparr>sU_request = Some q\<rparr>"
  using assms by (auto simp: generateSinglePresignedPutObjectUrl_def bindp_Ret_iff on_error_Ret_iff on_s3_Ret_iff
      hexToBase64_sha presigned_put_def simp del: bindp_liftp)

lemma createSingle_Ret:
  assumes wf: "db_wf (w_db w)" and sha: "\<And>f. f \<in> set fs \<Longrightarrow> lower_sha (uf_Sha256 f)"
    and dist: "distinct (map uf_Sha256 fs)"
    and run: "createSinglePresignedFileUrl env st lot (single_data fs) w = (Ret us, w')"
  shows "list_all2 (single_answer env st lot (w_db w) (w_db w')) fs us \<and> (fs \<noteq> [] \<longrightarrow> lot \<in> lot_ids (w_db w))
     \<and> (\<exists>rs. InsertSinglePartUpload (e_faults env) (e_sql env) (single_params lot (single_data fs)) (w_db w) = (Ret rs, w_db w'))"
proof -
  let ?one = "\<lambda>rs file. bindp (generateSinglePresignedPutObjectUrl env st
          (uuid_String (map_get uuid_Nil (map_build sr_Sha256 sr_StorageKey rs) (uf_Sha256 file))) (uf_Sha256 file))
          (\<lambda>u. liftp (Ret (single_url file u)))"
  obtain rs d1 where stmt: "InsertSinglePartUpload (e_faults env) (e_sql env) (single_params lot (single_data fs)) (w_db w) = (Ret rs, d1)"
    and loop: "mapp (?one rs) fs (w\<lparr>w_db := d1\<rparr>) = (Ret us, w')"
    using run by (auto simp: createSinglePresignedFileUrl_def bindp_Ret_iff on_error_Ret_iff on_db_Ret_iff Let_def)
  have txt_sha: "\<And>f. f \<in> set fs \<Longrightarrow> sha_text (uf_Sha256 f)" using sha lower_sha_text by blast
  note rows = single_rows [OF wf txt_sha stmt]
  have db: "w_db w' = d1" 
    using db_same [where m = "mapp (?one rs) fs" and w = "w\<lparr>w_db := d1\<rparr>", OF _ loop] by (simp add: keeps_intros)
  have "list_all2 (\<lambda>f r. sr_Sha256 r = uf_Sha256 f) fs rs"
    by (rule list.rel_mono_strong [OF rows(1)]) (auto simp: single_row_ok_def lower_sha_fixed sha)
  then have "map sr_Sha256 rs = map uf_Sha256 fs" by (rule list_all2_map_eq)
  with dist have rdist: "distinct (map sr_Sha256 rs)" by simp
  have each: "\<exists>r. single_row_ok lot (w_db w) d1 f r \<and>
      map_get uuid_Nil (map_build sr_Sha256 sr_StorageKey rs) (uf_Sha256 f) = sr_StorageKey r" if f: "f \<in> set fs" for f
  proof -
    from f rows(1) obtain r where r: "r \<in> set rs" and ok: "single_row_ok lot (w_db w) d1 f r"
      by (metis in_set_conv_nth list_all2_conv_all_nth)
    moreover from ok have "sr_Sha256 r = uf_Sha256 f" by (auto simp: single_row_ok_def lower_sha_fixed sha f)
    ultimately show ?thesis using map_build_distinct [OF rdist r, where v = sr_StorageKey] by auto
  qed
  have "list_all2 (single_answer env st lot (w_db w) (w_db w')) fs us"
  proof (rule mapp_Ret_all2 [OF loop])
    fix f u s s' assume f: "f \<in> set fs"
      and step: "bindp (generateSinglePresignedPutObjectUrl env st
          (uuid_String (map_get uuid_Nil (map_build sr_Sha256 sr_StorageKey rs) (uf_Sha256 f))) (uf_Sha256 f))
          (\<lambda>u. liftp (Ret (single_url f u))) s = (Ret u, s')"
    obtain r where ok: "single_row_ok lot (w_db w) d1 f r"
      and key: "map_get uuid_Nil (map_build sr_Sha256 sr_StorageKey rs) (uf_Sha256 f) = sr_StorageKey r"
      using each [OF f] by blast
    from step [unfolded key] obtain q where "presigned_put env st (uuid_String (sr_StorageKey r)) (sha_bytes (uf_Sha256 f)) q"
      and "u = single_url f \<lparr>sU_request = Some q\<rparr>"
      by (auto simp: bindp_Ret_iff dest!: generateSinglePresigned_Ret [OF txt_sha [OF f]])
    with ok db show "single_answer env st lot (w_db w) (w_db w') f u"
      by (auto simp: single_row_ok_def single_answer_def)
  qed
  with rows(2) stmt db show ?thesis by auto
qed

section \<open>Multipart uploads\<close>

definition presigned_part :: "'s env \<Rightarrow> s3Storage \<Rightarrow> uploadIdentity \<Rightarrow> int16 \<Rightarrow> multiPresignedRequest \<Rightarrow> bool" where
  "presigned_part env st u k q \<longleftrightarrow> mq_part q = k \<and> (\<exists>r s s'. PresignUploadPart (e_s3 env)
     \<lparr>up_Bucket = bucketName st, up_Key = ui_storageKey u, up_PartNumber = int32_of_int16 k,
      up_UploadId = ui_uploadId u, up_Expires = presignExpiry\<rparr> s = (Inr r, s') \<and> mq_request q = Some r)"

definition listed_parts :: "'s env \<Rightarrow> s3Storage \<Rightarrow> uploadIdentity \<Rightarrow> imageEtag list \<Rightarrow> bool" where
  "listed_parts env st u tags \<longleftrightarrow> (\<exists>ps s s'. ListParts (e_s3 env)
     \<lparr>lp_Bucket = bucketName st, lp_Key = ui_storageKey u, lp_UploadId = Some (ui_uploadId u)\<rparr> s = (Inr ps, s') \<and>
     mapo uploaded_etag ps = Ret tags)"

definition multi_answer :: "'s env \<Rightarrow> s3Storage \<Rightarrow> uuid \<Rightarrow> db \<Rightarrow> db \<Rightarrow> started \<Rightarrow> presignedFileUrl \<Rightarrow> bool" where
  "multi_answer env st lot d d' t u \<longleftrightarrow> (\<exists>a i ps parts tags reqs.
     find_pending (file_key lot (fst t)) (attempts d') = Some a \<and>
     ui_storageKey i = uuid_String (at_StorageKey a) \<and> at_UploadID a = Some (ui_uploadId i) \<and> at_PartSize a = Some ps \<and>
     parts_array (at_PartCount a) = Inr parts \<and>
     u = multi_url (fst t) \<lparr>mU_requests = reqs, mU_multipartAttemptId = at_ID a, mU_partSize = ps, mU_imageEtags = tags\<rparr> \<and>
     list_all2 (presigned_part env st i) (missing_parts tags parts) reqs \<and>
     (case find_pending (file_key lot (fst t)) (attempts d) of
        None \<Rightarrow> tags = [] \<and> at_StorageKey a = fst (snd t) \<and> ui_uploadId i = snd (snd t) \<and> ps = partSize \<and>
          at_UploadType a = MultiUpload \<and> at_FileSize a = sint (int32_of_uint (uf_FileSize (fst t)))
      | Some old \<Rightarrow> same_identity old a \<and>
          (if still_valid (e_sql env) old then at_PartSize old = Some ps \<and> listed_parts env st i tags
           else tags = [] \<and> ps = partSize)))"

lemma presign_loop_Ret:
  assumes "mapp (presign_part env st u wrap) ks w = (Ret qs, w')"
  shows "list_all2 (presigned_part env st u) ks qs"
  using assms by (rule mapp_Ret_all2)
    (auto simp: presign_part_def bindp_Ret_iff on_error_Ret_iff on_s3_Ret_iff presigned_part_def, blast)

lemma missing_parts_Nil [simp]: "missing_parts [] ks = ks"
  by (simp add: missing_parts_def)

definition row_url :: "'s env \<Rightarrow> s3Storage \<Rightarrow> (string \<rightharpoonup> uploadFile) \<Rightarrow> InsertAndValidateMultiPartUploadRow \<Rightarrow> presignedFileUrl \<Rightarrow> bool" where
  "row_url env st m r u \<longleftrightarrow> (\<exists>reqs tags. complete_row r \<and>
     u = multi_url (map_get zero_uploadFile m (mr_Sha256 r))
       \<lparr>mU_requests = reqs, mU_multipartAttemptId = mr_ImageBlobUploadAttemptID r, mU_partSize = the (mr_PartSize r),
        mU_imageEtags = tags\<rparr> \<and>
     list_all2 (presigned_part env st (identity_of (row_data r))) (missing_parts tags (mr_Parts r)) reqs \<and>
     (if is_new r then tags = [] else listed_parts env st (identity_of (row_data r)) tags))"

lemma new_urls_Ret:
  assumes "generateUrlsForNewUploads env st m (map row_data rs) w = (Ret us, w')"
    and "\<And>r. r \<in> set rs \<Longrightarrow> is_new r \<and> complete_row r"
  shows "list_all2 (row_url env st m) rs us"
proof -
  have "list_all2 (\<lambda>g u. \<forall>r \<in> set rs. g = row_data r \<longrightarrow> row_url env st m r u) (map row_data rs) us"
    using assms(1) unfolding generateUrlsForNewUploads_def
  proof (rule mapp_Ret_all2)
    fix g u s s' assume "bindp (generateNewMultiPartUploadUrls env st (identity_of g) (ng_fileParts g)) (\<lambda>newMultiParts.
         liftp (Ret (multi_url (map_get zero_uploadFile m (ng_sha256 g))
           \<lparr>mU_requests = newMultiParts, mU_multipartAttemptId = ng_multipartAttemptId g,
            mU_partSize = ng_partSize g, mU_imageEtags = []\<rparr>))) s = (Ret u, s')"
    then show "\<forall>r \<in> set rs. g = row_data r \<longrightarrow> row_url env st m r u"
      using assms(2) by (fastforce simp: bindp_Ret_iff generateNewMultiPartUploadUrls_def row_url_def dest!: presign_loop_Ret)
  qed
  then show ?thesis unfolding list_all2_map1
    by (rule list.rel_mono_strong) simp
qed

lemma resumable_urls_Ret:
  assumes "genrateUrlsForResumableUploads env st m (map row_data rs) w = (Ret us, w')"
    and "\<And>r. r \<in> set rs \<Longrightarrow> \<not> is_new r \<and> complete_row r"
  shows "list_all2 (row_url env st m) rs us"
proof -
  have "list_all2 (\<lambda>g u. \<forall>r \<in> set rs. g = row_data r \<longrightarrow> row_url env st m r u) (map row_data rs) us"
    using assms(1) unfolding genrateUrlsForResumableUploads_def
  proof (rule mapp_Ret_all2)
    fix g u s s' assume "bindp (generateResumeUploadUrls env st (identity_of g) (ng_fileParts g)) (\<lambda>(resumeMultiParts, imageEtags).
         liftp (Ret (multi_url (map_get zero_uploadFile m (ng_sha256 g))
           \<lparr>mU_requests = resumeMultiParts, mU_multipartAttemptId = ng_multipartAttemptId g,
            mU_partSize = ng_partSize g, mU_imageEtags = imageEtags\<rparr>))) s = (Ret u, s')"
    then obtain qs tags s1 s2 missing where u: "u = multi_url (map_get zero_uploadFile m (ng_sha256 g))
           \<lparr>mU_requests = qs, mU_multipartAttemptId = ng_multipartAttemptId g, mU_partSize = ng_partSize g, mU_imageEtags = tags\<rparr>"
      and list: "listNotUploadedParts env st (identity_of g) (ng_fileParts g) s = (Ret (missing, tags), s1)"
      and loop: "generateExistingMultiPartPresignedUrl env st (identity_of g) missing s1 = (Ret qs, s2)"
      by (auto simp: bindp_Ret_iff on_error_Ret_iff generateResumeUploadUrls_def case_prod_beta)
    have "missing = missing_parts tags (ng_fileParts g)" and "listed_parts env st (identity_of g) tags"
      using list by (auto simp: listNotUploadedParts_def bindp_Ret_iff on_error_Ret_iff on_s3_Ret_iff listed_parts_def liftp_iff
          simp del: bindp_liftp)
    with u loop show "\<forall>r \<in> set rs. g = row_data r \<longrightarrow> row_url env st m r u"
      using assms(2) by (fastforce simp: generateExistingMultiPartPresignedUrl_def row_url_def dest!: presign_loop_Ret)
  qed
  then show ?thesis unfolding list_all2_map1
    by (rule list.rel_mono_strong) simp
qed

lemma row_answer_multi:
  assumes row: "multi_row_ok (e_sql env) lot d d' t r" and url: "row_url env st m r u"
    and m: "map_get zero_uploadFile m (mr_Sha256 r) = fst t"
  shows "multi_answer env st lot d d' t u"
proof -
  from row obtain a where pend: "find_pending (file_key lot (fst t)) (attempts d') = Some a"
    and a: "mr_StorageKey r = at_StorageKey a" "mr_UploadID r = at_UploadID a" "mr_PartSize r = at_PartSize a"
      "mr_ImageBlobUploadAttemptID r = at_ID a" "parts_array (at_PartCount a) = Inr (mr_Parts r)"
    and old: "case find_pending (file_key lot (fst t)) (attempts d) of
        None \<Rightarrow> mr_IsInserted r \<and> at_StorageKey a = fst (snd t) \<and> at_UploadID a = Some (snd (snd t)) \<and>
          at_PartSize a = Some partSize \<and> at_UploadType a = MultiUpload \<and>
          at_FileSize a = sint (int32_of_uint (uf_FileSize (fst t)))
      | Some old \<Rightarrow> \<not> mr_IsInserted r \<and> mr_IsValid r = still_valid (e_sql env) old \<and> same_identity old a \<and>
          at_PartSize a = (if still_valid (e_sql env) old then at_PartSize old else Some partSize)"
    unfolding multi_row_ok_def by blast
  from url obtain reqs tags where "complete_row r"
    and u: "u = multi_url (map_get zero_uploadFile m (mr_Sha256 r))
       \<lparr>mU_requests = reqs, mU_multipartAttemptId = mr_ImageBlobUploadAttemptID r, mU_partSize = the (mr_PartSize r), mU_imageEtags = tags\<rparr>"
    and reqs: "list_all2 (presigned_part env st (identity_of (row_data r))) (missing_parts tags (mr_Parts r)) reqs"
    and tags: "if is_new r then tags = [] else listed_parts env st (identity_of (row_data r)) tags"
    unfolding row_url_def by blast
  then obtain uid ps where some: "at_UploadID a = Some uid" "at_PartSize a = Some ps" using a by (auto simp: complete_row_def)
  let ?i = "identity_of (row_data r)"
  have i: "ui_storageKey ?i = uuid_String (at_StorageKey a)" "ui_uploadId ?i = uid" using a some by simp_all
  have case_old: "case find_pending (file_key lot (fst t)) (attempts d) of
        None \<Rightarrow> tags = [] \<and> at_StorageKey a = fst (snd t) \<and> ui_uploadId ?i = snd (snd t) \<and> ps = partSize \<and>
          at_UploadType a = MultiUpload \<and> at_FileSize a = sint (int32_of_uint (uf_FileSize (fst t)))
      | Some old \<Rightarrow> same_identity old a \<and>
          (if still_valid (e_sql env) old then at_PartSize old = Some ps \<and> listed_parts env st ?i tags
           else tags = [] \<and> ps = partSize)"
    using old tags some i(2) by (auto simp: is_new_def split: option.splits if_splits simp del: row_data_selectors)
  show ?thesis
    unfolding multi_answer_def
    by (intro exI [of _ a] exI [of _ ?i] exI [of _ ps] exI [of _ "mr_Parts r"] exI [of _ tags] exI [of _ reqs] conjI)
      (use pend i some a u m reqs case_old in simp_all)
qed

lemma createMultipart_Ret:
  assumes wf: "db_wf (w_db w)" and sha: "\<And>t. t \<in> set ts \<Longrightarrow> lower_sha (uf_Sha256 (fst t))"
    and dist: "distinct (map uf_Sha256 (map fst ts))"
    and run: "createMultipartPresignedFileUrl env st lot (multi_data ts) w = (Ret us, w')"
  shows "\<exists>us'. list_all2 (multi_answer env st lot (w_db w) (w_db w')) ts us' \<and> mset us = mset us'"
    and "ts \<noteq> [] \<Longrightarrow> lot \<in> lot_ids (w_db w)"
    and "\<exists>rs. InsertAndValidateMultiPartUpload (e_faults env) (e_sql env) (multi_params lot (multi_data ts)) (w_db w) = (Ret rs, w_db w')"
proof -
  let ?m = "map_build uf_Sha256 id (map fst ts)"
  obtain rs d1 news resumables us1 w2 us2 where
    stmt: "InsertAndValidateMultiPartUpload (e_faults env) (e_sql env) (multi_params lot (multi_data ts)) (w_db w) = (Ret rs, d1)"
    and seg: "segregateMultiUploadFiles rs = Ret (news, resumables)"
    and new: "generateUrlsForNewUploads env st ?m news (w\<lparr>w_db := d1\<rparr>) = (Ret us1, w2)"
    and res: "genrateUrlsForResumableUploads env st ?m resumables w2 = (Ret us2, w')" and us: "us = us1 @ us2"
    using run by (auto simp: createMultipartPresignedFileUrl_def bindp_Ret_iff on_error_Ret_iff on_db_Ret_iff liftp_iff
        case_prod_beta simp del: bindp_liftp)
  have sha_t: "\<And>t. t \<in> set ts \<Longrightarrow> sha_text (uf_Sha256 (fst t))" using sha lower_sha_text by blast
  note rows = multi_rows [OF wf sha_t stmt]
  have db: "w_db w' = d1"
    using db_same [OF keeps_generateUrlsForNewUploads new] db_same [OF keeps_genrateUrlsForResumableUploads res] by simp
  from seg have compl: "\<forall>r \<in> set rs. complete_row r" and n: "news = map row_data (filter is_new rs)"
    and v: "resumables = map row_data (filter (\<lambda>r. \<not> is_new r) rs)"
    by (auto simp: segregate_eq split: if_splits)
  have "list_all2 (row_url env st ?m) (filter is_new rs) us1"
    by (rule new_urls_Ret [OF new [unfolded n]]) (use compl in auto)
  moreover have "list_all2 (row_url env st ?m) (filter (\<lambda>r. \<not> is_new r) rs) us2"
    by (rule resumable_urls_Ret [OF res [unfolded v]]) (use compl in auto)
  ultimately obtain us' where us': "list_all2 (row_url env st ?m) rs us'" "mset us' = mset us1 + mset us2"
    using list_all2_unfilter by blast
  have m: "map_get zero_uploadFile ?m (mr_Sha256 r) = fst t"
    if "t \<in> set ts" and "multi_row_ok (e_sql env) lot (w_db w) d1 t r" for t r
  proof -
    have "mr_Sha256 r = uf_Sha256 (fst t)" using that sha by (auto simp: multi_row_ok_def lower_sha_fixed)
    moreover have "?m (uf_Sha256 (fst t)) = Some (fst t)"
      using map_build_distinct [OF dist, where v = id] that(1) by simp
    ultimately show ?thesis by simp
  qed
  have "list_all2 (multi_answer env st lot (w_db w) (w_db w')) ts us'"
  proof (rule list_all2_trans [OF _ list_all2_in_left [OF rows(1)] us'(1)])
    fix t r u assume "t \<in> set ts \<and> r \<in> set rs \<and> multi_row_ok (e_sql env) lot (w_db w) d1 t r" and "row_url env st ?m r u"
    with m [of t r] db show "multi_answer env st lot (w_db w) (w_db w') t u" by (blast intro: row_answer_multi)
  qed
  with us us'(2) show "\<exists>us'. list_all2 (multi_answer env st lot (w_db w) (w_db w')) ts us' \<and> mset us = mset us'"
    by (intro exI [of _ us']) simp
  show "ts \<noteq> [] \<Longrightarrow> lot \<in> lot_ids (w_db w)" by (rule rows(2))
  show "\<exists>rs. InsertAndValidateMultiPartUpload (e_faults env) (e_sql env) (multi_params lot (multi_data ts)) (w_db w) = (Ret rs, w_db w')"
    using stmt db by blast
qed

section \<open>All files\<close>

lemma file_key_inj: "lower_sha (uf_Sha256 f) \<Longrightarrow> lower_sha (uf_Sha256 g) \<Longrightarrow> file_key lot f = file_key lot g \<Longrightarrow> uf_Sha256 f = uf_Sha256 g"
  by (auto simp: file_key_def intro: sha_bytes_inj)

lemma single_other_keys:
  assumes "db_wf d" and "InsertSinglePartUpload fault env (single_params lot (single_data fs)) d = (Ret rs, d')"
    and "\<And>f. f \<in> set fs \<Longrightarrow> sha_text (uf_Sha256 f)" and "k \<notin> file_key lot ` set fs"
  shows "find_pending k (attempts d') = find_pending k (attempts d)"
proof -
  let ?p = "single_params lot (single_data fs)"
  have "upsert_statement (single_propose env ?p) single_on_conflict single_returning (map single_input_of fs) d = (Ret rs, d')"
    using assms(2) by (simp add: InsertSinglePartUpload_def run_query_def sql_InsertSinglePartUpload_def single_inputs_eq split: option.splits)
  moreover have "k \<notin> single_key ?p ` set (map single_input_of fs)"
    using assms(3,4) single_key_of by force
  ultimately show ?thesis by (rule single_upsert.upsert_statement_other_keys [OF db_wf_attempts_wf [OF assms(1)]])
qed

lemma multi_other_keys:
  assumes "db_wf d" and "InsertAndValidateMultiPartUpload fault env (multi_params lot (multi_data ts)) d = (Ret rs, d')"
    and "\<And>t. t \<in> set ts \<Longrightarrow> sha_text (uf_Sha256 (fst t))" and "k \<notin> (\<lambda>t. file_key lot (fst t)) ` set ts"
  shows "find_pending k (attempts d') = find_pending k (attempts d)"
proof -
  let ?p = "multi_params lot (multi_data ts)"
  have "upsert_statement (multi_propose env ?p) (multi_on_conflict env ?p) (multi_returning env) (map multi_input_of ts) d = (Ret rs, d')"
    using assms(2) by (simp add: InsertAndValidateMultiPartUpload_def run_query_def sql_InsertAndValidateMultiPartUpload_def
        multi_inputs_eq split: option.splits)
  moreover have "k \<notin> multi_key ?p ` set (map multi_input_of ts)"
    using assms(3,4) multi_key_of by force
  ultimately show ?thesis by (rule multi_upsert.upsert_statement_other_keys [OF db_wf_attempts_wf [OF assms(1)]])
qed

text \<open>
  The answers of a request for the files \<open>fs\<close>: one URL for each, a single upload below the threshold
  and a multipart upload from it on.
\<close>

definition upload_answers :: "'s env \<Rightarrow> s3Storage \<Rightarrow> uuid \<Rightarrow> db \<Rightarrow> db \<Rightarrow> uploadFile list \<Rightarrow> presignedFileUrl list \<Rightarrow> bool" where
  "upload_answers env st lot d d' fs us \<longleftrightarrow> (\<exists>ts us1 us2.
     map fst ts = filter (\<lambda>f. \<not> is_single f) fs \<and> (\<forall>t \<in> set ts. upload_started env st t) \<and>
     list_all2 (single_answer env st lot d d') (filter is_single fs) us1 \<and>
     list_all2 (multi_answer env st lot d d') ts us2 \<and> mset us = mset us1 + mset us2)"

lemma generateS3UploadUrl_Ret:
  assumes wf: "db_wf (w_db w)" and rnd: "random_ok env" and sha: "\<And>f. f \<in> set fs \<Longrightarrow> lower_sha (uf_Sha256 f)"
    and dist: "distinct (map uf_Sha256 fs)" and run: "generateS3UploadUrl env st lot fs w = (Ret us, w')"
  shows "upload_answers env st lot (w_db w) (w_db w') fs us"
proof -
  obtain ex w0 us1 w1 us2 where ext: "extractFileData env st fs w = (Ret ex, w0)"
    and single: "(if length (sd_Sha256s (ex_singleFile ex)) > 0 then createSinglePresignedFileUrl env st lot (ex_singleFile ex)
        else liftp (Ret [])) w0 = (Ret us1, w1)"
    and multi: "(if length (md_Sha256s (ex_multipartFile ex)) > 0 then createMultipartPresignedFileUrl env st lot (ex_multipartFile ex)
        else liftp (Ret [])) w1 = (Ret us2, w')" and us: "us = us1 @ us2"
    using run by (auto simp: generateS3UploadUrl_def bindp_Ret_iff)
  obtain ts where ex: "ex = extracted (filter is_single fs) ts" and ts: "map fst ts = filter (\<lambda>f. \<not> is_single f) fs"
    and started: "\<forall>t \<in> set ts. upload_started env st t" and db0: "w_db w0 = w_db w"
    using extractFileData_Ret [OF rnd ext] by blast
  let ?fs = "filter is_single fs" and ?d = "w_db w"
  have tsin: "fst t \<in> set fs \<and> \<not> is_single (fst t)" if "t \<in> set ts" for t
  proof -
    have "fst t \<in> set (map fst ts)" using that by simp
    then show ?thesis unfolding ts by simp
  qed
  have tdist: "distinct (map uf_Sha256 (map fst ts))" unfolding ts by (rule distinct_map_filter) (rule dist)
  have fdist: "distinct (map uf_Sha256 ?fs)" by (rule distinct_map_filter) (rule dist)
  have keys: "file_key lot (fst t) \<noteq> file_key lot f" if "t \<in> set ts" and "f \<in> set ?fs" for t f
  proof
    assume "file_key lot (fst t) = file_key lot f"
    with that(2) sha tsin [OF that(1)] have "uf_Sha256 (fst t) = uf_Sha256 f" by (auto intro: file_key_inj)
    with dist that(2) tsin [OF that(1)] have "fst t = f" by (auto simp: distinct_map dest: inj_onD)
    with that(2) tsin [OF that(1)] show False by auto
  qed
  have sel: "ex_singleFile ex = single_data ?fs" "ex_multipartFile ex = multi_data ts" by (simp_all add: ex extracted_def)
  have wf1: "db_wf (w_db w1)"
    using keepsD [OF keeps_if [OF keeps_createSingle keeps_liftp] _ single, of ?d] wf db0 by (simp add: grown_def)
  have s: "list_all2 (single_answer env st lot ?d (w_db w1)) ?fs us1 \<and>
      (\<forall>k. k \<notin> file_key lot ` set ?fs \<longrightarrow> find_pending k (attempts (w_db w1)) = find_pending k (attempts ?d))"
  proof (cases "?fs = []")
    case True
    with single sel db0 show ?thesis by (auto simp: single_data_def)
  next
    case False
    then have "createSinglePresignedFileUrl env st lot (single_data ?fs) w0 = (Ret us1, w1)"
      using single sel by simp
    from createSingle_Ret [OF _ _ fdist this] wf db0 sha
    have "list_all2 (single_answer env st lot ?d (w_db w1)) ?fs us1"
      and "\<exists>rs. InsertSinglePartUpload (e_faults env) (e_sql env) (single_params lot (single_data ?fs)) ?d = (Ret rs, w_db w1)" by auto
    with single_other_keys [OF wf] sha lower_sha_text show ?thesis by fastforce
  qed
  have m: "(\<exists>us2'. list_all2 (multi_answer env st lot (w_db w1) (w_db w')) ts us2' \<and> mset us2 = mset us2') \<and>
      (\<forall>k. k \<notin> (\<lambda>t. file_key lot (fst t)) ` set ts \<longrightarrow> find_pending k (attempts (w_db w')) = find_pending k (attempts (w_db w1)))"
  proof (cases "ts = []")
    case True
    with multi sel show ?thesis by auto
  next
    case False
    then have run2: "createMultipartPresignedFileUrl env st lot (multi_data ts) w1 = (Ret us2, w')"
      using multi sel by simp
    have tsha: "\<And>t. t \<in> set ts \<Longrightarrow> lower_sha (uf_Sha256 (fst t))" using sha tsin by blast
    from createMultipart_Ret(1,3) [OF wf1 tsha tdist run2] multi_other_keys [OF wf1] tsha lower_sha_text
    show ?thesis by fastforce
  qed
  from m obtain us2' where us2': "list_all2 (multi_answer env st lot (w_db w1) (w_db w')) ts us2'" "mset us2 = mset us2'" by blast
  have "list_all2 (single_answer env st lot ?d (w_db w')) ?fs us1"
  proof (rule list.rel_mono_strong [OF conjunct1 [OF s]])
    fix f u assume "f \<in> set ?fs" and "single_answer env st lot ?d (w_db w1) f u"
    from \<open>f \<in> set ?fs\<close> keys have "file_key lot f \<notin> (\<lambda>t. file_key lot (fst t)) ` set ts" by fastforce
    with m have "find_pending (file_key lot f) (attempts (w_db w')) = find_pending (file_key lot f) (attempts (w_db w1))"
      by blast
    with \<open>single_answer env st lot ?d (w_db w1) f u\<close> show "single_answer env st lot ?d (w_db w') f u"
      unfolding single_answer_def by (simp only:)
  qed
  moreover have "list_all2 (multi_answer env st lot ?d (w_db w')) ts us2'"
  proof (rule list.rel_mono_strong [OF us2'(1)])
    fix t u assume "t \<in> set ts" and "multi_answer env st lot (w_db w1) (w_db w') t u"
    from \<open>t \<in> set ts\<close> keys have "file_key lot (fst t) \<notin> file_key lot ` set ?fs" by fastforce
    with s have "find_pending (file_key lot (fst t)) (attempts (w_db w1)) = find_pending (file_key lot (fst t)) (attempts ?d)"
      by blast
    with \<open>multi_answer env st lot (w_db w1) (w_db w') t u\<close> show "multi_answer env st lot ?d (w_db w') t u"
      unfolding multi_answer_def by (simp only:)
  qed
  ultimately show ?thesis
    unfolding upload_answers_def using ts started us us2'(2)
    by (intro exI [of _ ts] exI [of _ us1] exI [of _ us2']) simp
qed

end
