(* ===== verification/Request_Laws.thy ===== *)
theory Request_Laws
  imports Upload_Results
begin

text \<open>
  The two requests of the image service, from the message to the response: what a successful upload
  request says about every image it was sent, that nothing after its commit can fail, that it leaves no
  trace when it fails, and what completing a multipart upload does on each branch.
\<close>

section \<open>Blobs already stored\<close>

definition stored :: "db \<Rightarrow> uploadFile \<Rightarrow> bool" where
  "stored d f \<longleftrightarrow> completed_blob d (sha_bytes (uf_Sha256 f)) \<noteq> None"

text \<open>The row of \<open>lot_images\<close> that links a stored file to the lot.\<close>

definition links :: "db \<Rightarrow> uuid \<Rightarrow> uploadFile \<Rightarrow> LotImage \<Rightarrow> bool" where
  "links d lot f img \<longleftrightarrow> (\<exists>b. completed_blob d (sha_bytes (uf_Sha256 f)) = Some b \<and>
     li_LotID img = lot \<and> li_ImageBlobID img = ib_ImageBlobID b \<and> li_FileName img = cast_varchar 250 (uf_FileName f))"

lemma insert_identical_Ret:
  assumes "\<And>f. f \<in> set fs \<Longrightarrow> lower_sha (uf_Sha256 f)"
    and "insert_identical d lot (map (\<lambda>f. (Some (uf_Sha256 f), Some (uf_FileName f))) fs) seq = (Inr rs, seq')"
  shows "list_all2 (\<lambda>f (img, row). links d lot f img \<and> ir_Sha256 row = uf_Sha256 f) (filter (stored d) fs) rs"
  using assms
proof (induction fs arbitrary: seq rs)
  case (Cons f fs)
  have sha: "decode_optional (Some (uf_Sha256 f)) = Inr (Some (sha_bytes (uf_Sha256 f)))"
    using Cons.prems(1) [of f] by (simp add: decode_optional_sha lower_sha_text)
  show ?case
  proof (cases "completed_blob d (sha_bytes (uf_Sha256 f))")
    case None
    with Cons sha show ?thesis by (simp add: stored_def)
  next
    case (Some b)
    have hex: "hex_encode (ib_Sha256 b) = uf_Sha256 f"
      using completed_blob_SomeD [OF Some] Cons.prems(1) [of f] by (simp add: hex_encode_lower_sha)
    obtain r1 s1 where rest: "insert_identical d lot (map (\<lambda>f. (Some (uf_Sha256 f), Some (uf_FileName f))) fs) (seq + 1) = (r1, s1)"
      by fastforce
    with Cons.prems(2) sha Some obtain rs1 where r1: "r1 = Inr rs1" "s1 = seq'"
      and rs: "rs = (\<lparr>li_LotImageID = seq, li_LotID = lot, li_ImageBlobID = ib_ImageBlobID b,
            li_FileName = cast_varchar 250 (uf_FileName f)\<rparr>,
          \<lparr>ir_LotImageID = seq, ir_FileName = cast_varchar 250 (uf_FileName f), ir_ImageBlobID = ib_ImageBlobID b,
            ir_Sha256 = hex_encode (ib_Sha256 b)\<rparr>) # rs1"
      by (cases r1) (auto simp: Let_def)
    have "list_all2 (\<lambda>f (img, row). links d lot f img \<and> ir_Sha256 row = uf_Sha256 f) (filter (stored d) fs) rs1"
      using Cons.IH [of "seq + 1" rs1] Cons.prems(1) rest r1 by simp
    moreover have "stored d f" using Some by (simp add: stored_def)
    ultimately show ?thesis using rs hex Some by (simp add: links_def [of d lot f])
  qed
qed simp

lemma identical_inputs_eq:
  "identical_inputs \<lparr>ip_LotID = lot, ip_Sha256s = map uf_Sha256 fs, ip_FileNames = map uf_FileName fs\<rparr> =
     map (\<lambda>f. (Some (uf_Sha256 f), Some (uf_FileName f))) fs"
  by (simp add: identical_inputs_def pad_full zip_maps)

definition range_ok :: "'s env \<Rightarrow> bool" where
  "range_ok env \<longleftrightarrow> (\<forall>ks. distinct ks \<longrightarrow> distinct (e_range env ks) \<and> set (e_range env ks) = set ks)"

lemma skip_Ret:
  assumes sha: "\<And>f. f \<in> set fs \<Longrightarrow> lower_sha (uf_Sha256 f)" and dist: "distinct (map uf_Sha256 fs)"
    and rng: "range_ok env" and run: "skipUploadForIdenticalImageBlobs env fs lot w = (Ret (need, already), w')"
  shows "mset need = mset (filter (\<lambda>f. \<not> stored (w_db w) f) fs)"
    and "mset already = mset (filter (stored (w_db w)) fs)"
    and "attempts (w_db w') = attempts (w_db w)"
    and "\<exists>imgs. lot_images (w_db w') = lot_images (w_db w) @ imgs \<and>
      list_all2 (links (w_db w) lot) (filter (stored (w_db w)) fs) imgs"
proof -
  let ?d = "w_db w"
  let ?p = "\<lparr>ip_LotID = lot, ip_Sha256s = map uf_Sha256 fs, ip_FileNames = map uf_FileName fs\<rparr>"
  obtain rows d1 where stmt: "InsertIdenticalImageBlobsToLotImages (e_faults env) ?p ?d = (Ret rows, d1)"
    and sep: "separateUploadedAndNeedToBeUploadedFiles (map_build uf_Sha256 id fs) (map_build ir_Sha256 id rows)
        (e_range env (remdups (map uf_Sha256 fs))) = (need, already)" and w': "w_db w' = d1"
    using run by (auto simp: skipUploadForIdenticalImageBlobs_def Let_def bindp_Ret_iff on_error_Ret_iff on_db_Ret_iff)
  obtain res seq where ins: "insert_identical ?d lot (map (\<lambda>f. (Some (uf_Sha256 f), Some (uf_FileName f))) fs) (lot_image_seq ?d) = (res, seq)"
    by fastforce
  with stmt obtain rs where res: "res = Inr rs" and rows: "rows = map snd rs"
    and d1: "d1 = ?d\<lparr>lot_image_seq := seq, lot_images := lot_images ?d @ map fst rs\<rparr>"
    by (auto simp: InsertIdenticalImageBlobsToLotImages_def run_query_def sql_InsertIdenticalImageBlobsToLotImages_def
        identical_inputs_eq Let_def split: option.splits sum.splits if_splits)
  have all: "list_all2 (\<lambda>f (img, row). links ?d lot f img \<and> ir_Sha256 row = uf_Sha256 f) (filter (stored ?d) fs) rs"
    by (rule insert_identical_Ret [OF sha ins [unfolded res]])
  then have "list_all2 (\<lambda>f r. ir_Sha256 (snd r) = uf_Sha256 f) (filter (stored ?d) fs) rs"
    by (rule list_all2_mono) auto
  then have "map (\<lambda>r. ir_Sha256 (snd r)) rs = map uf_Sha256 (filter (stored ?d) fs)" by (rule list_all2_map_eq)
  then have "set (map (\<lambda>r. ir_Sha256 (snd r)) rs) = set (map uf_Sha256 (filter (stored ?d) fs))" by simp
  then have shas: "ir_Sha256 ` set rows = uf_Sha256 ` set (filter (stored ?d) fs)"
    by (simp only: rows set_map image_image)
  have ex: "map_build ir_Sha256 id rows (uf_Sha256 f) = None \<longleftrightarrow> \<not> stored ?d f" if f: "f \<in> set fs" for f
  proof -
    have "uf_Sha256 f \<in> uf_Sha256 ` set (filter (stored ?d) fs) \<longleftrightarrow> stored ?d f"
      using f dist by (auto simp: distinct_map dest: inj_onD)
    with shas show ?thesis by (simp add: map_build_None_iff)
  qed
  have "range_order (map_build uf_Sha256 id fs) (e_range env (remdups (map uf_Sha256 fs)))"
    using rng by (simp add: range_ok_def range_order_def dom_map_build)
  from separate_mset [OF dist this sep]
  have "mset need = mset (filter (\<lambda>f. map_build ir_Sha256 id rows (uf_Sha256 f) = None) fs)"
    and "mset already = mset (filter (\<lambda>f. map_build ir_Sha256 id rows (uf_Sha256 f) \<noteq> None) fs)" by blast+
  moreover have "filter (\<lambda>f. map_build ir_Sha256 id rows (uf_Sha256 f) = None) fs = filter (\<lambda>f. \<not> stored ?d f) fs"
    and "filter (\<lambda>f. map_build ir_Sha256 id rows (uf_Sha256 f) \<noteq> None) fs = filter (stored ?d) fs"
    using ex by (simp_all cong: filter_cong del: not_None_eq)
  ultimately show "mset need = mset (filter (\<lambda>f. \<not> stored ?d f) fs)" and "mset already = mset (filter (stored ?d) fs)"
    by (simp_all only:)
  show "attempts (w_db w') = attempts ?d" using w' d1 by simp
  have "list_all2 (\<lambda>f r. links ?d lot f (fst r)) (filter (stored ?d) fs) rs"
    by (rule list_all2_mono [OF all]) auto
  then have "list_all2 (links ?d lot) (filter (stored ?d) fs) (map fst rs)" by (simp add: list_all2_map2)
  with w' d1 show "\<exists>imgs. lot_images (w_db w') = lot_images ?d @ imgs \<and> list_all2 (links ?d lot) (filter (stored ?d) fs) imgs"
    by auto
qed

section \<open>The upload request\<close>

lemma upload_statements_lot_images:
  "keeps (\<lambda>d. lot_images d = li) (InsertSinglePartUpload fault env sp)"
  "keeps (\<lambda>d. lot_images d = li) (InsertAndValidateMultiPartUpload fault env mp)"
proof -
  have "lot_images (snd (InsertSinglePartUpload fault env sp d)) = lot_images d" for d
  proof (cases "fault QInsertSingle")
    case None
    obtain r d' where "upsert_statement (single_propose env sp) single_on_conflict single_returning (single_inputs sp) d = (r, d')"
      by fastforce
    with single_upsert.upsert_statement_frame [OF this] None show ?thesis
      by (simp add: InsertSinglePartUpload_def run_query_def sql_InsertSinglePartUpload_def same_other_tables_def)
  qed (simp add: InsertSinglePartUpload_def run_query_def)
  then show "keeps (\<lambda>d. lot_images d = li) (InsertSinglePartUpload fault env sp)" by (simp add: keeps_def)
  have "lot_images (snd (InsertAndValidateMultiPartUpload fault env mp d)) = lot_images d" for d
  proof (cases "fault QInsertMulti")
    case None
    obtain r d' where "upsert_statement (multi_propose env mp) (multi_on_conflict env mp) (multi_returning env) (multi_inputs mp) d = (r, d')"
      by fastforce
    with multi_upsert.upsert_statement_frame [OF this] None show ?thesis
      by (simp add: InsertAndValidateMultiPartUpload_def run_query_def sql_InsertAndValidateMultiPartUpload_def same_other_tables_def)
  qed (simp add: InsertAndValidateMultiPartUpload_def run_query_def)
  then show "keeps (\<lambda>d. lot_images d = li) (InsertAndValidateMultiPartUpload fault env mp)" by (simp add: keeps_def)
qed

lemma generateS3UploadUrl_lot_images:
  "generateS3UploadUrl env st lot fs w = (r, w') \<Longrightarrow> lot_images (w_db w') = lot_images (w_db w)"
proof -
  assume run: "generateS3UploadUrl env st lot fs w = (r, w')"
  have single: "keeps (\<lambda>w. lot_images (w_db w) = li) (createSinglePresignedFileUrl env st lot s)" for li s
    unfolding createSinglePresignedFileUrl_def Let_def by (intro keeps_intros upload_statements_lot_images)
  have multi: "keeps (\<lambda>w. lot_images (w_db w) = li) (createMultipartPresignedFileUrl env st lot m)" for li m
    unfolding createMultipartPresignedFileUrl_def
    by (intro keeps_intros upload_statements_lot_images, simp add: case_prod_beta, intro keeps_intros)
  have "keeps (\<lambda>v. lot_images (w_db v) = lot_images (w_db w)) (generateS3UploadUrl env st lot fs)"
    unfolding generateS3UploadUrl_def by (intro keeps_intros single multi)
  from keepsD [OF this _ run] show ?thesis by simp
qed

lemma fresh_subset: "f \<in> set (fresh_files S fs) \<Longrightarrow> f \<in> set fs"
  by (induction fs arbitrary: S) (auto split: if_splits)

text \<open>What a successful request did, from the files of its message.\<close>

definition upload_done :: "'s env \<Rightarrow> s3Storage \<Rightarrow> uuid \<Rightarrow> db \<Rightarrow> db \<Rightarrow> uploadFile list \<Rightarrow> uploadFileRequestResult \<Rightarrow> bool" where
  "upload_done env st lot d d' fs res \<longleftrightarrow> (\<exists>files need imgs.
     intentBatchUpload fs = (files, ur_duplicateFiles res) \<and>
     mset need = mset (filter (\<lambda>f. \<not> stored d f) files) \<and>
     mset (ur_alreadyUploadedFiles res) = mset (filter (stored d) files) \<and>
     lot_images d' = lot_images d @ imgs \<and> list_all2 (links d lot) (filter (stored d) files) imgs \<and>
     upload_answers env st lot d d' need (ur_presignedFileUrls res))"

lemma upload_answers_attempts: "attempts d1 = attempts d2 \<Longrightarrow> upload_answers env st lot d1 d' fs us = upload_answers env st lot d2 d' fs us"
  by (simp add: upload_answers_def single_answer_def [abs_def] multi_answer_def [abs_def])

lemma initiateUpload_Ret_cases:
  assumes "initiateUpload env store fs lotId w = (Ret res, w')"
  obtains lot s already urls where "uuid_Parse lotId = Inr lot" and "store = Some s"
    and "upload_body env (is_s3Storage s) lot (fst (intentBatchUpload fs)) w = (Ret (already, urls), w')"
    and "res = \<lparr>ur_duplicateFiles = snd (intentBatchUpload fs), ur_alreadyUploadedFiles = already, ur_presignedFileUrls = urls\<rparr>"
proof -
  let ?b = "intentBatchUpload fs"
  obtain lot where lot: "uuid_Parse lotId = Inr lot"
    using assms by (cases "uuid_Parse lotId") (simp_all add: initiateUpload_def case_prod_beta)
  obtain s where s: "store = Some s"
    using assms lot by (cases store) (simp_all add: initiateUpload_def case_prod_beta)
  obtain a where "in_tx env begin_failure commit_failure (upload_body env (is_s3Storage s) lot (fst ?b)) w = (Ret a, w')"
    and "res = \<lparr>ur_duplicateFiles = snd ?b, ur_alreadyUploadedFiles = fst a, ur_presignedFileUrls = snd a\<rparr>"
    using assms lot s by (auto simp: initiateUpload_def case_prod_beta bindp_Ret_iff)
  then show thesis by (intro that [OF lot s, of "fst a" "snd a"]) (simp_all add: in_tx_Ret_iff)
qed

lemma initiateUpload_Ret:
  assumes wf: "db_wf (w_db w)" and rnd: "random_ok env" and rng: "range_ok env"
    and sha: "\<And>f. f \<in> set fs \<Longrightarrow> lower_sha (uf_Sha256 f)"
    and run: "initiateUpload env store fs lotId w = (Ret res, w')"
  shows "\<exists>lot s. uuid_Parse lotId = Inr lot \<and> store = Some s \<and>
    upload_done env (is_s3Storage s) lot (w_db w) (w_db w') fs res"
proof -
  from run obtain lot s already urls where lot: "uuid_Parse lotId = Inr lot" and s: "store = Some s"
    and body: "upload_body env (is_s3Storage s) lot (fst (intentBatchUpload fs)) w = (Ret (already, urls), w')"
    and res: "res = \<lparr>ur_duplicateFiles = snd (intentBatchUpload fs), ur_alreadyUploadedFiles = already, ur_presignedFileUrls = urls\<rparr>"
    by (rule initiateUpload_Ret_cases)
  let ?files = "fst (intentBatchUpload fs)" and ?st = "is_s3Storage s"
  from body obtain need w1 where skip: "skipUploadForIdenticalImageBlobs env ?files lot w = (Ret (need, already), w1)"
    and gen: "generateS3UploadUrl env ?st lot need w1 = (Ret urls, w')"
    by (auto simp: upload_body_def bindp_Ret_iff case_prod_beta)
  have files: "?files = fresh_files {} fs" by (simp add: intentBatchUpload_eq)
  have fdist: "distinct (map uf_Sha256 ?files)" by (simp add: files fresh_distinct)
  have fsha: "\<And>f. f \<in> set ?files \<Longrightarrow> lower_sha (uf_Sha256 f)"
    using sha fresh_subset by (auto simp: files)
  note sk = skip_Ret [OF fsha fdist rng skip]
  have wf1: "db_wf (w_db w1)" using keepsD [OF keeps_skip _ skip, of "w_db w"] wf by (simp add: grown_def)
  have needin: "set need \<subseteq> set ?files" using mset_eq_setD [OF sk(1)] by simp
  have "distinct (map uf_Sha256 (filter (\<lambda>f. \<not> stored (w_db w) f) ?files))" using fdist by (rule distinct_map_filter)
  moreover have "mset (map uf_Sha256 need) = mset (map uf_Sha256 (filter (\<lambda>f. \<not> stored (w_db w) f) ?files))"
    using sk(1) by (simp only: mset_map)
  ultimately have ndist: "distinct (map uf_Sha256 need)" using mset_eq_imp_distinct_iff by blast
  have "upload_answers env ?st lot (w_db w1) (w_db w') need urls"
    by (rule generateS3UploadUrl_Ret [OF wf1 rnd _ ndist gen]) (use fsha needin in blast)
  then have ans: "upload_answers env ?st lot (w_db w) (w_db w') need urls"
    using upload_answers_attempts [OF sk(3)] by blast
  from sk(4) generateS3UploadUrl_lot_images [OF gen] obtain imgs where
    "lot_images (w_db w') = lot_images (w_db w) @ imgs" "list_all2 (links (w_db w) lot) (filter (stored (w_db w)) ?files) imgs"
    by auto
  with sk(1,2) ans res have "upload_done env ?st lot (w_db w) (w_db w') fs res"
    unfolding upload_done_def by (intro exI [of _ ?files] exI [of _ need] exI [of _ imgs]) simp
  with lot s show ?thesis by blast
qed

end
