(* ===== verification/Response_Laws.thy ===== *)
theory Response_Laws
  imports Request_Laws
begin

text \<open>
  The service methods on messages: the response of an upload request covers every image once; the
  conversions after the commit cannot fail, so that a request that fails left the tables alone; what
  completing a multipart upload and creating a lot do on each branch.
\<close>

section \<open>Presigned URLs as messages\<close>

definition url_ok :: "presignedFileUrl \<Rightarrow> bool" where
  "url_ok u \<longleftrightarrow> sU_request (pU_Single (pF_presignedUploadUrl u)) \<noteq> None \<or>
     (\<forall>q \<in> set (mU_requests (pU_Multi (pF_presignedUploadUrl u))). mq_request q \<noteq> None)"

text \<open>The image a presigned file is about.\<close>

definition presigned_image :: "PresignedFile \<Rightarrow> ImageFile" where
  "presigned_image p = the (pf_UploadFile p)"

lemma convertToPresignedFile_Ret:
  assumes "complete_image m" and "pF_uploadFile u = upload_of m" and "url_ok u"
  shows "\<exists>p. convertToPresignedFile u = Ret (Some p) \<and> presigned_image p = m"
proof (cases "sU_request (pU_Single (pF_presignedUploadUrl u))")
  case (Some q)
  with assms convertToImageFile_upload_of [OF assms(1)] show ?thesis
    by (simp add: convertToPresignedFile_def convertToLotImageSinglePresignedHttpRequest_def presigned_image_def Let_def)
next
  case None
  let ?qs = "mU_requests (pU_Multi (pF_presignedUploadUrl u))"
  have "\<exists>y. convertToLotImageMultiPresignedHttpRequest q = Ret y" if "q \<in> set ?qs" for q
    using assms(3) None that by (auto simp: url_ok_def convertToLotImageMultiPresignedHttpRequest_def)
  then have "\<exists>ys. mapo convertToLotImageMultiPresignedHttpRequest ?qs = Ret ys"
    by (induction ?qs arbitrary: u rule: list.induct) (simp, metis mapo_all_Ret)
  then show ?thesis using assms None convertToImageFile_upload_of [OF assms(1)]
    by (auto simp: convertToPresignedFile_def convertToLotImageMultiPartPresignedHttpRequest_def presigned_image_def Let_def)
qed

lemma convertToPresignedImageFiles_Ret:
  assumes "list_all2 (\<lambda>m u. complete_image m \<and> pF_uploadFile u = upload_of m \<and> url_ok u) ms us"
  shows "\<exists>ps. convertToPresignedImageFiles us = Ret (map Some ps) \<and> map presigned_image ps = ms"
  using assms unfolding convertToPresignedImageFiles_def
proof (induction ms us rule: list_all2_induct)
  case (Cons m ms u us)
  then obtain p where p: "convertToPresignedFile u = Ret (Some p)" "presigned_image p = m"
    using convertToPresignedFile_Ret by blast
  from Cons obtain ps where "mapo convertToPresignedFile us = Ret (map Some ps)" "map presigned_image ps = ms" by blast
  with p show ?case by (intro exI [of _ "p # ps"]) simp
qed simp

section \<open>The files of an answer\<close>

lemma single_answer_file: "single_answer env st lot d d' f u \<Longrightarrow> pF_uploadFile u = f \<and> url_ok u"
  by (auto simp: single_answer_def single_url_def url_ok_def)

lemma multi_answer_file: "multi_answer env st lot d d' t u \<Longrightarrow> pF_uploadFile u = fst t \<and> url_ok u"
proof -
  assume "multi_answer env st lot d d' t u"
  then obtain n i ps tags reqs ks where
    u: "u = multi_url (fst t) \<lparr>mU_requests = reqs, mU_multipartAttemptId = n, mU_partSize = ps, mU_imageEtags = tags\<rparr>"
    and reqs: "list_all2 (presigned_part env st i) ks reqs"
    unfolding multi_answer_def by blast
  have "\<forall>q \<in> set reqs. mq_request q \<noteq> None"
  proof
    fix q assume "q \<in> set reqs"
    with reqs obtain k where "presigned_part env st i k q" by (metis in_set_conv_nth list_all2_conv_all_nth)
    then show "mq_request q \<noteq> None" by (auto simp: presigned_part_def)
  qed
  with u show ?thesis by (auto simp: multi_url_def url_ok_def)
qed

lemma mset_filter_not: "mset (filter P xs) + mset (filter (\<lambda>x. \<not> P x) xs) = mset xs"
  by (induction xs) auto

lemma upload_answers_files:
  assumes "upload_answers env st lot d d' fs us"
  shows "mset (map pF_uploadFile us) = mset fs" and "\<And>u. u \<in> set us \<Longrightarrow> url_ok u"
proof -
  from assms obtain ts us1 us2 where ts: "map fst ts = filter (\<lambda>f. \<not> is_single f) fs"
    and s: "list_all2 (single_answer env st lot d d') (filter is_single fs) us1"
    and m: "list_all2 (multi_answer env st lot d d') ts us2" and us: "mset us = mset us1 + mset us2"
    unfolding upload_answers_def by blast
  have "list_all2 (\<lambda>f u. pF_uploadFile u = f) (filter is_single fs) us1"
    by (rule list_all2_mono [OF s]) (auto dest: single_answer_file)
  then have "map pF_uploadFile us1 = filter is_single fs" using list_all2_map_eq [where f = id] by fastforce
  moreover have "list_all2 (\<lambda>t u. pF_uploadFile u = fst t) ts us2"
    by (rule list_all2_mono [OF m]) (auto dest: multi_answer_file)
  then have "map pF_uploadFile us2 = filter (\<lambda>f. \<not> is_single f) fs" using list_all2_map_eq ts by fastforce
  ultimately have "image_mset pF_uploadFile (mset us1) + image_mset pF_uploadFile (mset us2) = mset fs"
    using mset_filter_not [of is_single fs] by (metis mset_map)
  then show "mset (map pF_uploadFile us) = mset fs" using us by simp
  have "\<forall>u \<in> set us1. url_ok u" and "\<forall>u \<in> set us2. url_ok u"
    using s m single_answer_file multi_answer_file by (metis in_set_conv_nth list_all2_conv_all_nth)+
  moreover have "set us = set us1 \<union> set us2" using us by (metis set_mset_mset set_mset_union)
  ultimately show "\<And>u. u \<in> set us \<Longrightarrow> url_ok u" by blast
qed

text \<open>A list of uploaded files that are all files of the images \<open>ms\<close>, as images.\<close>

definition image_of :: "uploadFile \<Rightarrow> ImageFile" where
  "image_of f = (case convertToImageFile f of Ret (Some m) \<Rightarrow> m | _ \<Rightarrow> \<lparr>if_Sha256 = None, if_FileName = None, if_ClientFileId = None, if_FileSize = None\<rparr>)"

lemma image_of_upload_of [simp]: "complete_image m \<Longrightarrow> image_of (upload_of m) = m"
  by (simp add: image_of_def convertToImageFile_upload_of)

lemma files_of_images:
  assumes "set fs \<subseteq> upload_of ` set ms" and "\<And>m. m \<in> set ms \<Longrightarrow> complete_image m"
  shows "fs = map upload_of (map image_of fs)" and "\<And>m. m \<in> set (map image_of fs) \<Longrightarrow> complete_image m"
proof -
  have each: "upload_of (image_of f) = f \<and> complete_image (image_of f)" if "f \<in> set fs" for f
    using assms that by (auto dest!: subsetD)
  show "fs = map upload_of (map image_of fs)" using each by (simp add: map_idI o_def)
  show "\<And>m. m \<in> set (map image_of fs) \<Longrightarrow> complete_image m" using each by auto
qed

section \<open>The response\<close>

definition upload_response :: "ImageFile list \<Rightarrow> ImageFile list \<Rightarrow> PresignedFile list \<Rightarrow> GeneratePresignedUrlResponse" where
  "upload_response ds as ps = \<lparr>gs_Success = Some True, gs_Message = Some ''Presigned url created'',
     gs_PresignResult = Some \<lparr>fr_DuplicateFiles = map Some ds, fr_AlreadyUploadedFiles = map Some as,
       fr_PresignedFiles = map Some ps\<rparr>\<rparr>"

definition upload_request :: "ImageFile list \<Rightarrow> string \<Rightarrow> GeneratePresignedUrlRequest" where
  "upload_request ms lotId = \<lparr>gq_LotImages = map Some ms, gq_LotId = Some lotId\<rparr>"

text \<open>An image with all its fields, whose hash is a SHA-256 in lower-case hexadecimal.\<close>

definition good_image :: "ImageFile \<Rightarrow> bool" where
  "good_image m \<longleftrightarrow> complete_image m \<and> lower_sha (the (if_Sha256 m))"

lemma upload_of_sha: "uf_Sha256 (upload_of m) = the (if_Sha256 m)"
  by (simp add: upload_of_def)

lemma upload_done_files:
  assumes "upload_done env st lot d d' fs res"
  shows "mset (ur_duplicateFiles res) + mset (ur_alreadyUploadedFiles res) + mset (map pF_uploadFile (ur_presignedFileUrls res)) = mset fs"
    and "distinct (map uf_Sha256 (ur_alreadyUploadedFiles res @ map pF_uploadFile (ur_presignedFileUrls res)))"
    and "\<And>u. u \<in> set (ur_presignedFileUrls res) \<Longrightarrow> url_ok u"
proof -
  from assms obtain files need where batch: "intentBatchUpload fs = (files, ur_duplicateFiles res)"
    and need: "mset need = mset (filter (\<lambda>f. \<not> stored d f) files)"
    and already: "mset (ur_alreadyUploadedFiles res) = mset (filter (stored d) files)"
    and ans: "upload_answers env st lot d d' need (ur_presignedFileUrls res)"
    unfolding upload_done_def by blast
  have files: "mset (ur_alreadyUploadedFiles res) + mset (map pF_uploadFile (ur_presignedFileUrls res)) = mset files"
    using mset_filter_not [of "stored d" files] need already upload_answers_files(1) [OF ans] by simp
  have dup: "mset files + mset (ur_duplicateFiles res) = mset fs" and dist: "distinct (map uf_Sha256 files)"
    using batch fresh_repeated_mset [of "{}" fs] fresh_distinct [of "{}" fs] by (auto simp: intentBatchUpload_eq)
  show "mset (ur_duplicateFiles res) + mset (ur_alreadyUploadedFiles res) + mset (map pF_uploadFile (ur_presignedFileUrls res)) = mset fs"
    using files dup by (metis union_assoc union_commute)
  have "mset (map uf_Sha256 (ur_alreadyUploadedFiles res @ map pF_uploadFile (ur_presignedFileUrls res))) = mset (map uf_Sha256 files)"
    using files by (simp only: mset_map mset_append)
  with dist show "distinct (map uf_Sha256 (ur_alreadyUploadedFiles res @ map pF_uploadFile (ur_presignedFileUrls res)))"
    using mset_eq_imp_distinct_iff by blast
  show "\<And>u. u \<in> set (ur_presignedFileUrls res) \<Longrightarrow> url_ok u" by (rule upload_answers_files(2) [OF ans])
qed

text \<open>The conversions after a successful upload give a response.\<close>

lemma response_Ret:
  assumes done_: "upload_done env st lot d d' (map upload_of ms) res" and ms: "\<And>m. m \<in> set ms \<Longrightarrow> complete_image m"
  shows "\<exists>ds as ps. convertToImageFiles (ur_duplicateFiles res) = Ret (map Some ds) \<and>
    convertToImageFiles (ur_alreadyUploadedFiles res) = Ret (map Some as) \<and>
    convertToPresignedImageFiles (ur_presignedFileUrls res) = Ret (map Some ps) \<and>
    mset ds + mset as + mset (map presigned_image ps) = mset ms \<and>
    distinct (map if_Sha256 (as @ map presigned_image ps))"
proof -
  let ?dup = "ur_duplicateFiles res" and ?al = "ur_alreadyUploadedFiles res"
    and ?pr = "map pF_uploadFile (ur_presignedFileUrls res)"
  note parts = upload_done_files [OF done_]
  have "set_mset (mset ?dup + mset ?al + mset ?pr) = set_mset (mset (map upload_of ms))" using parts(1) by simp
  then have sub: "set ?dup \<subseteq> upload_of ` set ms" "set ?al \<subseteq> upload_of ` set ms" "set ?pr \<subseteq> upload_of ` set ms" by auto
  note d = files_of_images [OF sub(1) ms] and a = files_of_images [OF sub(2) ms] and p = files_of_images [OF sub(3) ms]
  have "convertToImageFiles ?dup = Ret (map Some (map image_of ?dup))"
    using convertToImageFiles_upload_of [of "map image_of ?dup"] d by simp
  moreover have "convertToImageFiles ?al = Ret (map Some (map image_of ?al))"
    using convertToImageFiles_upload_of [of "map image_of ?al"] a by simp
  moreover have "list_all2 (\<lambda>m u. complete_image m \<and> pF_uploadFile u = upload_of m \<and> url_ok u) (map image_of ?pr) (ur_presignedFileUrls res)"
    unfolding list_all2_map1 list_all2_same
  proof
    fix u assume u: "u \<in> set (ur_presignedFileUrls res)"
    then have "pF_uploadFile u \<in> upload_of ` set ms" using sub(3) by auto
    with ms parts(3) [OF u] show "complete_image (image_of (pF_uploadFile u)) \<and>
        pF_uploadFile u = upload_of (image_of (pF_uploadFile u)) \<and> url_ok u" by auto
  qed
  then obtain ps where ps: "convertToPresignedImageFiles (ur_presignedFileUrls res) = Ret (map Some ps)" "map presigned_image ps = map image_of ?pr"
    using convertToPresignedImageFiles_Ret by blast
  moreover have "mset (map image_of ?dup) + mset (map image_of ?al) + mset (map presigned_image ps) = mset ms"
  proof -
    have "image_mset image_of (mset ?dup + mset ?al + mset ?pr) = image_mset image_of (mset (map upload_of ms))"
      using parts(1) by simp
    also have "\<dots> = mset ms" using ms by (induction ms) auto
    finally show ?thesis using ps(2) by (simp add: image_mset.compositionality)
  qed
  moreover have "distinct (map if_Sha256 (map image_of ?al @ map presigned_image ps))"
  proof -
    have "if_Sha256 (image_of f) = Some (uf_Sha256 f)" if f: "f \<in> set (?al @ ?pr)" for f
    proof -
      from f sub obtain m where "m \<in> set ms" "f = upload_of m" by auto
      with ms [of m] show ?thesis by (auto simp: upload_of_sha complete_image_def)
    qed
    then have "map if_Sha256 (map image_of (?al @ ?pr)) = map Some (map uf_Sha256 (?al @ ?pr))" by simp
    moreover have "distinct (map Some (map uf_Sha256 (?al @ ?pr)))"
      using parts(2) by (simp only: distinct_map) (simp add: inj_on_def)
    ultimately show ?thesis using ps(2) by (metis map_append)
  qed
  ultimately show ?thesis by blast
qed

text \<open>The method in two steps: the upload, then the conversions, which only read its result.\<close>

definition upload_reply :: "uploadFileRequestResult \<Rightarrow> ('s, GeneratePresignedUrlResponse ptr) action" where
  "upload_reply result =
     bindp (liftp (convertToImageFiles (ur_duplicateFiles result))) (\<lambda>duplicateImageFiles.
     bindp (liftp (convertToImageFiles (ur_alreadyUploadedFiles result))) (\<lambda>alreadyUploadedImageFiles.
     bindp (liftp (convertToPresignedImageFiles (ur_presignedFileUrls result))) (\<lambda>presignedImageFiles.
       liftp (Ret (Some \<lparr>gs_Success = Some True, gs_Message = Some ''Presigned url created'',
         gs_PresignResult = Some \<lparr>fr_DuplicateFiles = duplicateImageFiles,
           fr_AlreadyUploadedFiles = alreadyUploadedImageFiles, fr_PresignedFiles = presignedImageFiles\<rparr>\<rparr>)))))"

lemma keeps_upload_reply [keeps_intros]: "keeps I (upload_reply result)"
  unfolding upload_reply_def by (intro keeps_intros)

lemma GeneratePresignedUrl_eq:
  "GeneratePresignedUrl env store request =
     bindp (liftp (convertToUploadFiles (gq_LotImages request))) (\<lambda>files.
     bindp (liftp (deref (gq_LotId request))) (\<lambda>lotId.
     bindp (initiateUpload env store files lotId) upload_reply))"
  by (simp add: GeneratePresignedUrl_def upload_reply_def [abs_def])

lemma GeneratePresignedUrl_upload_request:
  assumes "\<And>m. m \<in> set ms \<Longrightarrow> complete_image m"
  shows "GeneratePresignedUrl env store (upload_request ms lotId) =
     bindp (initiateUpload env store (map upload_of ms) lotId) upload_reply"
  using convertToUploadFiles_complete [OF assms]
  by (intro ext) (simp add: GeneratePresignedUrl_eq upload_request_def)

text \<open>After a successful \<open>initiateUpload\<close>, the method succeeds with the same world.\<close>

lemma GeneratePresignedUrl_after:
  assumes wf: "db_wf (w_db w)" and rnd: "random_ok env" and rng: "range_ok env"
    and ms: "\<And>m. m \<in> set ms \<Longrightarrow> good_image m"
    and run: "initiateUpload env store (map upload_of ms) lotId w = (Ret res, w')"
  shows "\<exists>ds as ps. GeneratePresignedUrl env store (upload_request ms lotId) w = (Ret (Some (upload_response ds as ps)), w') \<and>
    mset ds + mset as + mset (map presigned_image ps) = mset ms \<and>
    distinct (map if_Sha256 (as @ map presigned_image ps))"
proof -
  have compl: "\<And>m. m \<in> set ms \<Longrightarrow> complete_image m" using ms by (simp add: good_image_def)
  have "\<And>f. f \<in> set (map upload_of ms) \<Longrightarrow> lower_sha (uf_Sha256 f)"
    using ms by (auto simp: good_image_def upload_of_sha)
  from initiateUpload_Ret [OF wf rnd rng this run] obtain lot st where
    "upload_done env st lot (w_db w) (w_db w') (map upload_of ms) res" by blast
  from response_Ret [OF this compl] obtain ds as ps where
    conv: "convertToImageFiles (ur_duplicateFiles res) = Ret (map Some ds)"
      "convertToImageFiles (ur_alreadyUploadedFiles res) = Ret (map Some as)"
      "convertToPresignedImageFiles (ur_presignedFileUrls res) = Ret (map Some ps)"
    and sets: "mset ds + mset as + mset (map presigned_image ps) = mset ms"
      "distinct (map if_Sha256 (as @ map presigned_image ps))" by blast
  have "GeneratePresignedUrl env store (upload_request ms lotId) w = (Ret (Some (upload_response ds as ps)), w')"
    using run conv by (simp add: GeneratePresignedUrl_upload_request [OF compl] upload_reply_def upload_response_def)
  with sets show ?thesis by blast
qed

section \<open>Atomicity\<close>

lemma initiateUpload_atomic:
  assumes run: "initiateUpload env store fs lotId w = (r, w')" and "\<And>res. r \<noteq> Ret res"
  shows "same_tables (w_db w) (w_db w') \<or> (\<exists>e. e_commit env = CommitLost e)"
proof (cases "uuid_Parse lotId")
  case (Inl e)
  with run show ?thesis by (simp add: initiateUpload_def case_prod_beta)
next
  case (Inr lot)
  show ?thesis
  proof (cases store)
    case None
    with run Inr show ?thesis by (simp add: initiateUpload_def case_prod_beta)
  next
    case (Some s)
    let ?body = "upload_body env (is_s3Storage s) lot (fst (intentBatchUpload fs))"
    obtain r1 w1 where tx: "in_tx env begin_failure commit_failure ?body w = (r1, w1)" by fastforce
    with run Inr Some assms(2) have "w1 = w'" and "\<And>a. r1 \<noteq> Ret a"
      by (cases r1; auto simp: initiateUpload_def case_prod_beta)+
    with in_tx_atomic [OF tx] show ?thesis by blast
  qed
qed

lemma GeneratePresignedUrl_atomic:
  assumes wf: "db_wf (w_db w)" and rnd: "random_ok env" and rng: "range_ok env"
    and ms: "\<And>m. m \<in> set ms \<Longrightarrow> good_image m"
    and run: "GeneratePresignedUrl env store (upload_request ms lotId) w = (r, w')" and "\<And>a. r \<noteq> Ret a"
  shows "same_tables (w_db w) (w_db w') \<or> (\<exists>e. e_commit env = CommitLost e)"
proof -
  have compl: "\<And>m. m \<in> set ms \<Longrightarrow> complete_image m" using ms by (simp add: good_image_def)
  obtain r1 w1 where init: "initiateUpload env store (map upload_of ms) lotId w = (r1, w1)" by fastforce
  have "\<And>a. r1 \<noteq> Ret a"
    using GeneratePresignedUrl_after [OF wf rnd rng ms] init run assms(6) by fastforce
  moreover from this run init have "w1 = w'"
    by (cases r1) (auto simp: GeneratePresignedUrl_upload_request [OF compl])
  ultimately show ?thesis using initiateUpload_atomic [OF init] by blast
qed

section \<open>Completing a multipart upload\<close>

lemma keeps_completeMultiPartUpload [keeps_intros]:
  "keeps (\<lambda>w. I (w_db w)) (completeMultiPartUpload env sort_parts store k b ps)"
proof -
  have last: "keeps (\<lambda>w. I (w_db w)) (\<lambda>w. case on_s3 c w of (Panic p, w') \<Rightarrow> (Panic p, w') | (_, w') \<Rightarrow> (Ret (), w'))"
    for c :: "('s, unit) s3_call"
    by (rule keepsI) (auto simp: on_s3_def split: prod.splits outcome.splits)
  show ?thesis unfolding completeMultiPartUpload_def by (intro keeps_intros last)
qed

text \<open>The two calls to the object store, on the attempt \<open>a\<close>.\<close>

definition list_input :: "string \<Rightarrow> ImageBlobUploadAttempt \<Rightarrow> ListPartsInput" where
  "list_input b a = \<lparr>lp_Bucket = b, lp_Key = uuid_String (at_StorageKey a), lp_UploadId = at_UploadID a\<rparr>"

definition complete_input :: "string \<Rightarrow> ImageBlobUploadAttempt \<Rightarrow> CompletedPart list \<Rightarrow> CompleteMultipartUploadInput" where
  "complete_input b a ps = \<lparr>cm_Bucket = b, cm_Key = uuid_String (at_StorageKey a), cm_UploadId = at_UploadID a, cm_Parts = ps\<rparr>"

lemma case_of_sum: "(case of_sum x of Ret a \<Rightarrow> f a | Fail e \<Rightarrow> g e | Panic p \<Rightarrow> h p) = (case x of Inl e \<Rightarrow> g e | Inr a \<Rightarrow> f a)"
  by (cases x) auto

lemma completeMultiPartUpload_found:
  assumes "e_faults env QGetItem = None" and "find (\<lambda>a. at_ID a = k) (attempts (w_db w)) = Some a"
    and "at_PartCount a = Some n" and "\<And>p. p \<in> set ps \<Longrightarrow> cp_PartNumber p \<noteq> None"
  shows "completeMultiPartUpload env sort_parts (Some store) k b ps w =
    (case ListParts (e_s3 env) (list_input b a) (w_s3 w) of
       (Inl e, t) \<Rightarrow> (Fail (client_err (InternalServerError ''imagestore.completeMultiPartUpload''
          (Some (Errorf (''cannot get uploaded image parts of key '' @ uuid_String (at_StorageKey a) @
             '' and bucket '' @ b @ '':'') (Some e) '''')) ''internal error'')), w\<lparr>w_s3 := t\<rparr>)
     | (Inr parts, t) \<Rightarrow>
         if int (length parts) \<noteq> n then (Fail (parts_missing k), w\<lparr>w_s3 := t\<rparr>)
         else (Ret (), w\<lparr>w_s3 := snd (CompleteMultipartUpload (e_s3 env)
                (complete_input b a (if length ps < 2 then ps else sort_parts part_cmp ps)) t)\<rparr>))"
proof -
  have sorted: "SortFunc_parts sort_parts ps = Ret (if length ps < 2 then ps else sort_parts part_cmp ps)"
    using assms(4) by (force simp: SortFunc_parts_def)
  have item: "on_error (on_db (GetMultiPartUploadItem (e_faults env) k)) (item_failure k) w =
      (Ret \<lparr>gr_UploadID = at_UploadID a, gr_StorageKey = at_StorageKey a, gr_PartCount = at_PartCount a\<rparr>, w)"
    using assms(1,2) by (simp add: on_error_def on_db_def GetMultiPartUploadItem_def run_query_def sql_GetMultiPartUploadItem_def)
  show ?thesis
    using item sorted assms(3)
    by (simp add: completeMultiPartUpload_def list_input_def complete_input_def on_error_def on_s3_def bindp_def case_of_sum
        split: prod.splits sum.splits)
qed

lemma completeMultiPartUpload_not_found:
  assumes "e_faults env QGetItem = None" and "find (\<lambda>a. at_ID a = k) (attempts (w_db w)) = None"
  shows "completeMultiPartUpload env sort_parts (Some store) k b ps w = (Fail (item_failure k (Leaf ErrNoRows)), w)"
proof -
  have "on_error (on_db (GetMultiPartUploadItem (e_faults env) k)) (item_failure k) w = (Fail (item_failure k (Leaf ErrNoRows)), w)"
    using assms by (simp add: on_error_def on_db_def GetMultiPartUploadItem_def run_query_def sql_GetMultiPartUploadItem_def)
  then show ?thesis by (simp add: completeMultiPartUpload_def)
qed

text \<open>Completing only reads the database, and it succeeds only when every part is there.\<close>

lemma completeMultiPartUpload_Ret:
  assumes run: "completeMultiPartUpload env sort_parts store k b ps w = (Ret u, w')"
  shows "\<exists>a n parts t. find (\<lambda>a. at_ID a = k) (attempts (w_db w)) = Some a \<and> at_PartCount a = Some n \<and>
    ListParts (e_s3 env) (list_input b a) (w_s3 w) = (Inr parts, t) \<and> int (length parts) = n \<and> w_db w' = w_db w"
proof -
  obtain s where s: "store = Some s" using run by (cases store) (auto simp: completeMultiPartUpload_def)
  have fault: "e_faults env QGetItem = None"
    using run s by (auto simp: completeMultiPartUpload_def bindp_Ret_iff on_error_Ret_iff on_db_Ret_iff
        GetMultiPartUploadItem_def run_query_def split: option.splits)
  obtain a where a: "find (\<lambda>a. at_ID a = k) (attempts (w_db w)) = Some a"
    using run s completeMultiPartUpload_not_found [OF fault] by (cases "find (\<lambda>a. at_ID a = k) (attempts (w_db w))") auto
  have item: "on_error (on_db (GetMultiPartUploadItem (e_faults env) k)) (item_failure k) w =
      (Ret \<lparr>gr_UploadID = at_UploadID a, gr_StorageKey = at_StorageKey a, gr_PartCount = at_PartCount a\<rparr>, w)"
    using fault a by (simp add: on_error_def on_db_def GetMultiPartUploadItem_def run_query_def sql_GetMultiPartUploadItem_def)
  have "\<exists>n parts t. at_PartCount a = Some n \<and> ListParts (e_s3 env) (list_input b a) (w_s3 w) = (Inr parts, t) \<and> int (length parts) = n"
    using run s item by (cases "SortFunc_parts sort_parts ps")
      (auto simp: completeMultiPartUpload_def list_input_def on_error_def on_s3_def bindp_def
        split: prod.splits sum.splits outcome.splits if_splits)
  moreover have "w_db w' = w_db w" using run by (rule db_same [OF keeps_completeMultiPartUpload])
  ultimately show ?thesis using a by blast
qed

section \<open>Creating a lot\<close>

definition lot_request :: "LotMsg \<Rightarrow> CreateLotRequest" where
  "lot_request m = \<lparr>kq_Lot = Some m\<rparr>"

definition lot_of :: "LotMsg \<Rightarrow> uuid \<Rightarrow> Lot" where
  "lot_of m i = \<lparr>lot_ID = i, lot_Title = the (lm_LotTitle m), lot_Description = the (lm_Description m),
     lot_Category = lm_Category m, lot_BidOpeningPrice = lm_BidOpeningPrice m\<rparr>"

definition lot_fits :: "LotMsg \<Rightarrow> bool" where
  "lot_fits m \<longleftrightarrow> rune_count (the (lm_LotTitle m)) \<le> 260 \<and> rune_count (the (lm_Description m)) \<le> 450 \<and>
     (case lm_Category m of None \<Rightarrow> True | Some c \<Rightarrow> rune_count c \<le> 260)"

lemma create_lot_params_eq:
  assumes "lm_LotTitle m \<noteq> None" and "lm_Description m \<noteq> None"
  shows "create_lot_params (lot_request m) = Ret \<lparr>cl_Title = the (lm_LotTitle m), cl_Description = the (lm_Description m),
     cl_Category = lm_Category m, cl_BidOpeningPrice = lm_BidOpeningPrice m\<rparr>"
  using assms by (auto simp: create_lot_params_def lot_request_def)

lemma CreateLot_fits:
  assumes "lm_LotTitle m \<noteq> None" and "lm_Description m \<noteq> None" and "lot_fits m"
    and "e_faults env QCreateLot = None" and "validate (lot_request m) = None"
    and "gen_random_uuid (e_sql env) (uuid_ctr (w_db w)) = i" and "i \<notin> lot_ids (w_db w)"
  shows "LotServer_CreateLot env validate (lot_request m) w =
    (Ret (Some \<lparr>ks_Success = Some True, ks_Message = Some ''Lot Created'', ks_LotId = Some (uuid_String i)\<rparr>),
     w\<lparr>w_db := (w_db w)\<lparr>uuid_ctr := uuid_ctr (w_db w) + 1, lots := lots (w_db w) @ [lot_of m i]\<rparr>\<rparr>)"
  using assms
  by (auto simp: LotServer_CreateLot_def create_lot_params_eq on_db_def CreateLot_def run_query_def sql_CreateLot_def Let_def
      lot_fits_def assign_varchar_def assign_optional_def lot_of_def split: option.splits)

lemma LotServer_CreateLot_grown: "db_wf (w_db w) \<Longrightarrow> grown (w_db w) (w_db (snd (LotServer_CreateLot env validate req w)))"
proof -
  assume wf: "db_wf (w_db w)"
  have "grown (w_db w) (w_db (snd (on_db (CreateLot (e_faults env) (e_sql env) p) w)))" for p
    using keeps_on_db [OF query_keeps_grown(4) [of "w_db w" "e_faults env" "e_sql env" p]] grown_refl [OF wf]
    unfolding keeps_def by blast
  with grown_refl [OF wf] show ?thesis
    by (auto simp: LotServer_CreateLot_def bindp_def status_Error_eq split: option.splits outcome.splits prod.splits)
      (metis snd_conv)+
qed

end
