(* ===== verification/Server_Laws.thy ===== *)
theory Server_Laws
  imports Response_Laws
begin

text \<open>
  The server around the service methods: how the two interceptors act on a request, what holds of the
  world after any request, and the life of the process as a step relation. A request that panics ends
  the process; whatever requests come, and whatever the outside answers, the database stays well formed and its
  history is kept.
\<close>

section \<open>The chain\<close>

lemma server_interceptor_eq:
  "server_interceptor sv req h = Validate (sv_any_new sv) (sv_validator sv) req
     (\<lambda>req'. map_failure (toGRPCError (sv_any_new sv)) (h req'))"
  by (simp add: server_interceptor_def ErrorResponseInterceptor_def [abs_def])

text \<open>What the chain answers to an invalid message.\<close>

definition invalid_request :: "server \<Rightarrow> violation list \<Rightarrow> err" where
  "invalid_request sv vs = (case sv_any_new sv (violations_detail vs) of
      Some e \<Rightarrow> Leaf (Status (status_New Internal ''invalid request and internal error''))
    | None \<Rightarrow> Leaf (Status \<lparr>st_Code = InvalidArgument, st_Message = ''invalid request'', st_Details = [violations_detail vs]\<rparr>))"

lemma server_interceptor_message:
  "server_interceptor sv (ProtoMessage m) h w =
     (case sv_validator sv of
        None \<Rightarrow> (Panic nil_deref, w)
      | Some v \<Rightarrow> (case v m of
          Valid \<Rightarrow> map_failure (toGRPCError (sv_any_new sv)) (h (ProtoMessage m)) w
        | ValidatorFailure e \<Rightarrow> (Fail (Leaf (Status (status_New Internal ''validation failed''))), w)
        | ValidationError vs \<Rightarrow> (Fail (invalid_request sv vs), w)))"
  by (simp add: server_interceptor_eq Validate_def status_Error_eq invalid_request_def WithDetails_eq status_Err_def
      split: option.splits validation.splits)

text \<open>The three services behind the chain, for a message that was decoded.\<close>

fun rpc_method :: "'s env \<Rightarrow> server \<Rightarrow> rpc_message \<Rightarrow> 's rpc_result" where
  "rpc_method env sv (MsgCreateLot m) = as_response RespCreateLot (LotServer_CreateLot env (sv_validate sv) m)"
| "rpc_method env sv (MsgGeneratePresignedUrl m) = as_response RespGeneratePresignedUrl (GeneratePresignedUrl env (sv_imageStore sv) m)"
| "rpc_method env sv (MsgCompleteMultiPartUpload m) =
     as_response RespCompleteMultiPartUpload (CompleteMultiPartUpload env (sv_sort sv) (sv_imageStore sv) m)"

fun decoded :: "rpc_call \<Rightarrow> err + rpc_message" where
  "decoded (CallCreateLot dec) = map_sum id MsgCreateLot dec"
| "decoded (CallGeneratePresignedUrl dec) = map_sum id MsgGeneratePresignedUrl dec"
| "decoded (CallCompleteMultiPartUpload dec) = map_sum id MsgCompleteMultiPartUpload dec"

lemma serve_eq:
  "serve env sv call w = (case decoded call of
      Inl e \<Rightarrow> (Fail e, w)
    | Inr m \<Rightarrow> (case sv_validator sv of
        None \<Rightarrow> (Panic nil_deref, w)
      | Some v \<Rightarrow> (case v m of
          Valid \<Rightarrow> map_failure (toGRPCError (sv_any_new sv)) (rpc_method env sv m) w
        | ValidatorFailure e \<Rightarrow> (Fail (Leaf (Status (status_New Internal ''validation failed''))), w)
        | ValidationError vs \<Rightarrow> (Fail (invalid_request sv vs), w))))"
proof (cases call)
  case (CallCreateLot dec)
  then show ?thesis
    by (cases dec) (simp_all add: LotService_CreateLot_Handler_def server_interceptor_message map_failure_def
        split: option.splits validation.splits)
next
  case (CallGeneratePresignedUrl dec)
  then show ?thesis
    by (cases dec) (simp_all add: LotImageService_GeneratePresignedUrl_Handler_def server_interceptor_message map_failure_def
        split: option.splits validation.splits)
next
  case (CallCompleteMultiPartUpload dec)
  then show ?thesis
    by (cases dec) (simp_all add: LotImageService_CompleteMultiPartUpload_Handler_def server_interceptor_message map_failure_def
        split: option.splits validation.splits)
qed

lemma invalid_request_status: "status_FromError_ok (Some (invalid_request sv vs))"
  by (simp add: invalid_request_def split: option.splits)

text \<open>Every error that leaves the chain is a gRPC status.\<close>

lemma serve_status:
  assumes "serve env sv call w = (Fail e, w')" and "decoded call = Inr m"
  shows "status_FromError_ok (Some e)"
  using assms
  by (auto simp: serve_eq invalid_request_status simp del: status_FromError_ok.simps(2)
      dest: grpc_sink.map_failure_Fail_status split: option.splits validation.splits)

section \<open>The world after a request\<close>

lemma as_response_world: "snd (as_response f m w) = snd (m w)"
  by (simp add: as_response_def bindp_def split: prod.splits outcome.splits)

lemma rpc_method_grown: "db_wf (w_db w) \<Longrightarrow> grown (w_db w) (w_db (snd (rpc_method env sv m w)))"
proof -
  assume wf: "db_wf (w_db w)"
  show ?thesis
  proof (cases m)
    case (MsgCreateLot q)
    with LotServer_CreateLot_grown [OF wf] show ?thesis by (simp add: as_response_world)
  next
    case (MsgGeneratePresignedUrl q)
    have "grown (w_db w) (w_db (snd (GeneratePresignedUrl env (sv_imageStore sv) q w)))"
    proof -
      have "grown (w_db w) (w_db (snd (bindp (initiateUpload env store fs lotId) upload_reply w)))" for store fs lotId
      proof -
        obtain r w1 where run: "initiateUpload env store fs lotId w = (r, w1)" by fastforce
        with initiateUpload_grown [OF wf, of env store fs lotId] have "grown (w_db w) (w_db w1)" by simp
        with run keeps_upload_reply [of "\<lambda>v. grown (w_db w) (w_db v)"] show ?thesis by (cases r) (auto simp: keeps_def)
      qed
      then show ?thesis using grown_refl [OF wf]
        by (auto simp: GeneratePresignedUrl_eq split: outcome.splits)
    qed
    with MsgGeneratePresignedUrl show ?thesis by (simp add: as_response_world)
  next
    case (MsgCompleteMultiPartUpload q)
    have "keeps (\<lambda>v. grown (w_db w) (w_db v)) (CompleteMultiPartUpload env (sv_sort sv) (sv_imageStore sv) q)"
      unfolding CompleteMultiPartUpload_def by (intro keeps_intros)
    with grown_refl [OF wf] MsgCompleteMultiPartUpload show ?thesis by (simp add: keeps_def as_response_world)
  qed
qed

lemma serve_grown: "db_wf (w_db w) \<Longrightarrow> grown (w_db w) (w_db (snd (serve env sv call w)))"
  by (auto simp: serve_eq grpc_sink.map_failure_world intro: rpc_method_grown grown_refl
      split: sum.splits option.splits validation.splits)

section \<open>The life of the process\<close>

datatype 's process_state = Up "'s world" | Down "'s world"

fun world_of :: "'s process_state \<Rightarrow> 's world" where
  "world_of (Up w) = w"
| "world_of (Down w) = w"

text \<open>One request at a time; a panic takes the process down.\<close>

inductive server_step :: "server \<Rightarrow> 's process_state \<Rightarrow> 's process_state \<Rightarrow> bool" for sv where
  answered: "serve env sv call w = (r, w') \<Longrightarrow> (\<And>p. r \<noteq> Panic p) \<Longrightarrow> server_step sv (Up w) (Up w')"
| crashed: "serve env sv call w = (Panic p, w') \<Longrightarrow> server_step sv (Up w) (Down w')"

inductive_cases server_stepE: "server_step sv s s'"

inductive_simps server_step_Down [simp]: "server_step sv (Down w) s'"

abbreviation server_run :: "server \<Rightarrow> 's process_state \<Rightarrow> 's process_state \<Rightarrow> bool" where
  "server_run sv \<equiv> (server_step sv)\<^sup>*\<^sup>*"

lemma server_step_grown:
  assumes "server_step sv s s'" and "db_wf (w_db (world_of s))"
  shows "grown (w_db (world_of s)) (w_db (world_of s'))"
  using assms(1)
proof (cases rule: server_step.cases)
  case (answered env call w r w')
  with serve_grown [of w env sv call] assms(2) show ?thesis by simp
next
  case (crashed env call w p w')
  with serve_grown [of w env sv call] assms(2) show ?thesis by simp
qed

lemma server_run_grown:
  assumes "server_run sv s s'" and "db_wf (w_db (world_of s))"
  shows "grown (w_db (world_of s)) (w_db (world_of s'))"
  using assms(1)
proof (induction rule: rtranclp_induct)
  case base
  show ?case using assms(2) by (rule grown_refl)
next
  case (step t u)
  then have "db_wf (w_db (world_of t))" by (simp add: grown_def)
  with step show ?case by (blast intro: grown_trans server_step_grown)
qed

text \<open>Without a validator no request is ever answered: the first decoded one takes the process down.\<close>

lemma serve_no_validator:
  "sv_validator sv = None \<Longrightarrow> decoded call = Inr m \<Longrightarrow> serve env sv call w = (Panic nil_deref, w)"
  by (simp add: serve_eq)

end
