(* ===== verification/Service_Laws.thy ===== *)
theory Service_Laws
  imports Server_Laws
begin

text \<open>
  The services as a client sees them, from the decoded message to the gRPC status: the answers to a
  completion request on each branch, and the translation of the errors that the program marks for the
  client.
\<close>

section \<open>Client errors as statuses\<close>

lemma plain_App: "plain_error (App a) \<longleftrightarrow> (case Err a of None \<Rightarrow> True | Some e \<Rightarrow> plain_error e)"
  by (auto simp: plain_error_def split: option.splits)

lemma plain_Errorf: "plain_error (Errorf p e s) \<longleftrightarrow> (case e of None \<Rightarrow> True | Some e' \<Rightarrow> plain_error e')"
  by (auto simp: plain_error_def split: option.splits)

lemma plain_Leaf: "plain_error (Leaf l) \<longleftrightarrow> l \<noteq> CtxDeadlineExceeded \<and> l \<noteq> CtxCanceled \<and> as_status l = None"
  by (auto simp: plain_error_def)

lemmas plain_simps = plain_App plain_Errorf plain_Leaf

text \<open>A marked error with no context error and no status inside is translated by its own code.\<close>

lemma toGRPCError_client:
  assumes "\<not> merge a" and "plain_error (App a)"
  shows "toGRPCError any_new (Some (client_err a)) = convertToGRPCErr any_new (MarkAsClientErr a)"
proof -
  have "plain_error (client_err a)" using assms(2) by (simp add: client_err_def plain_App)
  from toGRPCError_plain [OF this] show ?thesis by (simp add: client_err_def createErr_marked [OF assms(1)])
qed

lemma toGRPCError_not_found:
  assumes "case e of None \<Rightarrow> True | Some e' \<Rightarrow> plain_error e'"
  shows "toGRPCError any_new (Some (client_err (NotFoundError op e msg))) = Some (Leaf (Status (status_New NotFound msg)))"
  using toGRPCError_client [of "NotFoundError op e msg"] assms
  by (simp add: plain_App NotFoundError_def convertToGRPCErr_cases code_defs status_Error_eq)

text \<open>\<open>InternalServerError\<close> carries neither code nor message, so the client sees an empty \<open>Internal\<close>.\<close>

lemma toGRPCError_internal:
  assumes "case e of None \<Rightarrow> True | Some e' \<Rightarrow> plain_error e'"
  shows "toGRPCError any_new (Some (client_err (InternalServerError op e msg))) = Some (Leaf (Status (status_New Internal '''')))"
  using toGRPCError_client [of "InternalServerError op e msg"] assms
  by (simp add: plain_App plain_Errorf InternalServerError_def convertToGRPCErr_cases code_defs status_Error_eq)

definition precondition_status :: "(detail \<Rightarrow> err option) \<Rightarrow> ErrDetails \<Rightarrow> grpc_status" where
  "precondition_status any_new d =
     (let detail = PreconditionFailure (map (\<lambda>f. \<lparr>pv_Subject = Field f, pv_Description = Description f\<rparr>) (ed_Fields d))
      in if any_new detail = None
         then \<lparr>st_Code = FailedPrecondition, st_Message = ed_Message d, st_Details = [detail]\<rparr>
         else status_New Internal ''precondition failed and internal error'')"

lemma toGRPCError_precondition:
  assumes "case e of None \<Rightarrow> True | Some e' \<Rightarrow> plain_error e'"
  shows "toGRPCError any_new (Some (client_err (PreconditionFailedError op d e))) = Some (Leaf (Status (precondition_status any_new d)))"
  using toGRPCError_client [of "PreconditionFailedError op d e"] assms
  by (simp add: plain_App plain_Errorf PreconditionFailedError_def convertToGRPCErr_cases code_defs
      codeStorageConflictTranslation_def WithDetails_eq status_Err_def status_Error_eq precondition_status_def Let_def
      split: option.splits)

text \<open>A violated constraint that the program knows.\<close>

lemma toGRPCError_storage_failure:
  assumes "databaseConstraint (ConstraintName pe) = Some flds"
    and "any_new (PreconditionFailure (map (\<lambda>f. \<lparr>pv_Subject = sf_Subject f, pv_Description = sf_Description f\<rparr>) flds)) = None"
  shows "toGRPCError any_new (Some (storage_failure op what msg (Leaf (Pg pe)))) =
    Some (Leaf (Status \<lparr>st_Code = FailedPrecondition, st_Message = msg,
      st_Details = [PreconditionFailure (map (\<lambda>f. \<lparr>pv_Subject = sf_Subject f, pv_Description = sf_Description f\<rparr>) flds)]\<rparr>))"
  using assms
  by (simp add: storage_failure_def toGRPCError_precondition plain_simps precondition_status_def convertToFieldErr_def o_def Let_def)

definition storage_refusal :: "string \<Rightarrow> string \<Rightarrow> grpc_status" where
  "storage_refusal msg description = \<lparr>st_Code = FailedPrecondition, st_Message = msg,
     st_Details = [PreconditionFailure [\<lparr>pv_Subject = ''Storage'', pv_Description = description\<rparr>]]\<rparr>"

lemma toGRPCError_fk_violation:
  assumes "databaseConstraint c = Some [\<lparr>sf_Subject = ''Storage'', sf_Description = description\<rparr>]" and "\<And>d. any_new d = None"
  shows "toGRPCError any_new (Some (storage_failure op what msg (fk_violation table c))) =
    Some (Leaf (Status (storage_refusal msg description)))"
  unfolding fk_violation_def pg_err_def storage_refusal_def
  using assms by (simp add: toGRPCError_storage_failure)

section \<open>Completing a multipart upload\<close>

definition complete_request :: "goint \<Rightarrow> PartEtag list \<Rightarrow> CompleteMultiPartUploadRequest" where
  "complete_request k es = \<lparr>cq_MultipartAttemptId = Some k, cq_PartEtags = map Some es\<rparr>"

definition completed_part :: "PartEtag \<Rightarrow> CompletedPart" where
  "completed_part p = \<lparr>cp_ETag = pe_Etag p, cp_PartNumber = pe_Part p\<rparr>"

lemma sorted_parts:
  assumes "sort_ok sort_func"
  shows "mset (if length es < 2 then map completed_part es else sort_func part_cmp (map completed_part es)) = mset (map completed_part es)"
    and "sorted (map part_number (if length es < 2 then map completed_part es else sort_func part_cmp (map completed_part es)))"
proof -
  have "sorted (map part_number (map completed_part es))" if "length es < 2" using that by (cases es; cases "tl es") auto
  with sort_ok_parts [OF assms, of "map completed_part es"]
  show "mset (if length es < 2 then map completed_part es else sort_func part_cmp (map completed_part es)) = mset (map completed_part es)"
    and "sorted (map part_number (if length es < 2 then map completed_part es else sort_func part_cmp (map completed_part es)))"
    by auto
qed

definition upload_completed :: CompleteMultiPartUploadResponse where
  "upload_completed = \<lparr>cs_Success = Some True, cs_Message = Some ''Upload Completed''\<rparr>"

lemma convertToCompletedPart_Ret:
  "(\<And>p. p \<in> set es \<Longrightarrow> pe_Part p \<noteq> None) \<Longrightarrow> convertToCompletedPart (map Some es) = Ret (map completed_part es)"
  unfolding convertToCompletedPart_def by (induction es) (fastforce simp: completed_part_def)+

lemma CompleteMultiPartUpload_complete_request:
  assumes "\<And>p. p \<in> set es \<Longrightarrow> pe_Part p \<noteq> None"
  shows "CompleteMultiPartUpload env sort_parts store (complete_request k es) w =
     (case completeMultiPartUpload env sort_parts store (sint k) access_point (map completed_part es) w of
        (Ret u, w') \<Rightarrow> (Ret (Some upload_completed), w')
      | (Fail e, w') \<Rightarrow> (Fail e, w')
      | (Panic p, w') \<Rightarrow> (Panic p, w'))"
  using convertToCompletedPart_Ret [OF assms]
  by (simp add: CompleteMultiPartUpload_def complete_request_def upload_completed_def bindp_def split: prod.splits outcome.splits)

text \<open>A server whose validator accepts the message, with an image store.\<close>

definition accepts :: "server \<Rightarrow> rpc_message \<Rightarrow> bool" where
  "accepts sv m \<longleftrightarrow> (\<exists>v. sv_validator sv = Some v \<and> v m = Valid)"

lemma serve_accepted:
  "decoded call = Inr m \<Longrightarrow> accepts sv m \<Longrightarrow> serve env sv call w = map_failure (toGRPCError (sv_any_new sv)) (rpc_method env sv m) w"
  by (auto simp: serve_eq accepts_def)

lemma map_failure_simps:
  "m w = (Ret r, w') \<Longrightarrow> map_failure sink m w = (Ret r, w')"
  "m w = (Fail e, w') \<Longrightarrow> sink (Some e) = Some e' \<Longrightarrow> map_failure sink m w = (Fail e', w')"
  "m w = (Panic p, w') \<Longrightarrow> map_failure sink m w = (Panic p, w')"
  by (simp_all add: map_failure_def)

lemma as_response_simps:
  "m w = (Ret r, w') \<Longrightarrow> as_response f m w = (Ret (map_option f r), w')"
  "m w = (Fail e, w') \<Longrightarrow> as_response f m w = (Fail e, w')"
  "m w = (Panic p, w') \<Longrightarrow> as_response f m w = (Panic p, w')"
  by (simp_all add: as_response_def bindp_def)

lemma serve_complete:
  assumes "accepts sv (MsgCompleteMultiPartUpload (complete_request k es))" and "\<And>p. p \<in> set es \<Longrightarrow> pe_Part p \<noteq> None"
  shows "serve env sv (CallCompleteMultiPartUpload (Inr (complete_request k es))) w =
     (case completeMultiPartUpload env (sv_sort sv) (sv_imageStore sv) (sint k) access_point (map completed_part es) w of
        (Ret u, w') \<Rightarrow> (Ret (Some (RespCompleteMultiPartUpload upload_completed)), w')
      | (Fail e, w') \<Rightarrow> return_err (toGRPCError (sv_any_new sv) (Some e)) w'
      | (Panic p, w') \<Rightarrow> (Panic p, w'))"
proof -
  have "serve env sv (CallCompleteMultiPartUpload (Inr (complete_request k es))) w =
      map_failure (toGRPCError (sv_any_new sv)) (rpc_method env sv (MsgCompleteMultiPartUpload (complete_request k es))) w"
    by (rule serve_accepted [OF _ assms(1)]) simp
  then show ?thesis
    by (auto simp: map_failure_def as_response_def bindp_def CompleteMultiPartUpload_complete_request [OF assms(2)]
        split: prod.splits outcome.splits)
qed

lemma serve_complete_not_found:
  assumes "accepts sv (MsgCompleteMultiPartUpload (complete_request k es))" and "\<And>p. p \<in> set es \<Longrightarrow> pe_Part p \<noteq> None"
    and "sv_imageStore sv = Some store" and "e_faults env QGetItem = None"
    and "\<And>a. a \<in> set (attempts (w_db w)) \<Longrightarrow> at_ID a \<noteq> sint k"
  shows "serve env sv (CallCompleteMultiPartUpload (Inr (complete_request k es))) w =
     (Fail (Leaf (Status (status_New NotFound (''multipart attempt Id '' @ itoa (sint k) @ '' could not be found'')))), w)"
proof -
  have "find (\<lambda>a. at_ID a = sint k) (attempts (w_db w)) = None" using assms(5) by (simp add: find_None_iff)
  from completeMultiPartUpload_not_found [OF assms(4) this]
  have "completeMultiPartUpload env (sv_sort sv) (sv_imageStore sv) (sint k) access_point (map completed_part es) w =
      (Fail (item_failure (sint k) (Leaf ErrNoRows)), w)" by (simp add: assms(3))
  moreover have "toGRPCError (sv_any_new sv) (Some (item_failure (sint k) (Leaf ErrNoRows))) =
      Some (Leaf (Status (status_New NotFound (''multipart attempt Id '' @ itoa (sint k) @ '' could not be found''))))"
    by (simp add: item_failure_def IsRowNotFound_def Let_def toGRPCError_not_found plain_simps)
  ultimately show ?thesis by (subst serve_complete [OF assms(1)]) (simp_all add: assms(2) del: not_None_eq serve.simps)
qed

text \<open>The answer when the attempt is there, by what the object store lists.\<close>

definition parts_missing_details :: "int \<Rightarrow> ErrDetails" where
  "parts_missing_details k = \<lparr>ed_Fields = [\<lparr>Field = ''parts'', Description = ''All parts have not been uploaded for multipart Attempt Id '' @
       itoa k @ ''. First Upload all the parts.''\<rparr>], ed_Message = ''Not all parts have been uploaded''\<rparr>"

lemma toGRPCError_parts_missing:
  "toGRPCError any_new (Some (parts_missing k)) = Some (Leaf (Status (precondition_status any_new (parts_missing_details k))))"
  unfolding parts_missing_def parts_missing_details_def [symmetric]
  by (rule toGRPCError_precondition) (simp add: plain_simps)

lemma serve_complete_found:
  assumes "accepts sv (MsgCompleteMultiPartUpload (complete_request k es))" and "\<And>p. p \<in> set es \<Longrightarrow> pe_Part p \<noteq> None"
    and "sv_imageStore sv = Some store" and "e_faults env QGetItem = None"
    and "find (\<lambda>a. at_ID a = sint k) (attempts (w_db w)) = Some a" and "at_PartCount a = Some n"
    and "ListParts (e_s3 env) (list_input access_point a) (w_s3 w) = (Inr parts, t)"
  shows "serve env sv (CallCompleteMultiPartUpload (Inr (complete_request k es))) w =
     (if int (length parts) \<noteq> n
      then (Fail (Leaf (Status (precondition_status (sv_any_new sv) (parts_missing_details (sint k))))), w\<lparr>w_s3 := t\<rparr>)
      else (Ret (Some (RespCompleteMultiPartUpload upload_completed)),
        w\<lparr>w_s3 := snd (CompleteMultipartUpload (e_s3 env) (complete_input access_point a
          (if length es < 2 then map completed_part es else sv_sort sv part_cmp (map completed_part es))) t)\<rparr>))"
proof -
  have "\<And>p. p \<in> set (map completed_part es) \<Longrightarrow> cp_PartNumber p \<noteq> None" using assms(2) by (auto simp: completed_part_def)
  from completeMultiPartUpload_found [OF assms(4,5,6) this, of "map completed_part es"] assms(7)
  have "completeMultiPartUpload env (sv_sort sv) (sv_imageStore sv) (sint k) access_point (map completed_part es) w =
      (if int (length parts) \<noteq> n then (Fail (parts_missing (sint k)), w\<lparr>w_s3 := t\<rparr>)
       else (Ret (), w\<lparr>w_s3 := snd (CompleteMultipartUpload (e_s3 env) (complete_input access_point a
          (if length es < 2 then map completed_part es else sv_sort sv part_cmp (map completed_part es))) t)\<rparr>))"
    by (simp add: assms(3))
  then show ?thesis
    by (subst serve_complete [OF assms(1)]) (simp_all add: assms(2) toGRPCError_parts_missing del: not_None_eq serve.simps)
qed

text \<open>The answer of the object store to \<open>CompleteMultipartUpload\<close> is not read.\<close>

definition with_completion :: "'s env \<Rightarrow> (CompleteMultipartUploadInput \<Rightarrow> ('s, unit) s3_call) \<Rightarrow> 's env" where
  "with_completion env c = env\<lparr>e_s3 := (e_s3 env)\<lparr>CompleteMultipartUpload := c\<rparr>\<rparr>"

lemma with_completion_simps [simp]:
  "e_faults (with_completion env c) = e_faults env" "ListParts (e_s3 (with_completion env c)) = ListParts (e_s3 env)"
  "CompleteMultipartUpload (e_s3 (with_completion env c)) = c"
  by (simp_all add: with_completion_def)

lemma completion_unread:
  "fst (completeMultiPartUpload (with_completion env c) sort_parts store k b ps w) =
   fst (completeMultiPartUpload env sort_parts store k b ps w)"
  by (auto simp: completeMultiPartUpload_def bindp_def on_s3_def split: prod.splits outcome.splits sum.splits)

section \<open>Creating a lot\<close>

lemma serve_create_lot:
  assumes "accepts sv (MsgCreateLot (lot_request m))" and "sv_validate sv (lot_request m) = None"
    and "lm_LotTitle m \<noteq> None" and "lm_Description m \<noteq> None" and "lot_fits m" and "e_faults env QCreateLot = None"
    and "gen_random_uuid (e_sql env) (uuid_ctr (w_db w)) = i" and "i \<notin> lot_ids (w_db w)"
  shows "serve env sv (CallCreateLot (Inr (lot_request m))) w =
    (Ret (Some (RespCreateLot \<lparr>ks_Success = Some True, ks_Message = Some ''Lot Created'', ks_LotId = Some (uuid_String i)\<rparr>)),
     w\<lparr>w_db := (w_db w)\<lparr>uuid_ctr := uuid_ctr (w_db w) + 1, lots := lots (w_db w) @ [lot_of m i]\<rparr>\<rparr>)"
proof -
  have "serve env sv (CallCreateLot (Inr (lot_request m))) w =
      map_failure (toGRPCError (sv_any_new sv)) (rpc_method env sv (MsgCreateLot (lot_request m))) w"
    by (rule serve_accepted [OF _ assms(1)]) simp
  also have "\<dots> = (Ret (Some (RespCreateLot \<lparr>ks_Success = Some True, ks_Message = Some ''Lot Created'', ks_LotId = Some (uuid_String i)\<rparr>)),
     w\<lparr>w_db := (w_db w)\<lparr>uuid_ctr := uuid_ctr (w_db w) + 1, lots := lots (w_db w) @ [lot_of m i]\<rparr>\<rparr>)"
    by (simp add: map_failure_def as_response_def bindp_def
        CreateLot_fits [where validate = "sv_validate sv", OF assms(3-6,2,7,8)])
  finally show ?thesis .
qed

text \<open>A lot that is not created leaves the tables alone.\<close>

lemma sql_CreateLot_failed: "sql_CreateLot env p d = (r, d') \<Longrightarrow> (\<And>i. r \<noteq> Ret i) \<Longrightarrow> same_tables d d'"
  by (auto simp: sql_CreateLot_def Let_def same_tables_def split: sum.splits if_splits)

lemma CreateLot_failed:
  assumes "LotServer_CreateLot env validate req w = (r, w')" and "\<And>a. r \<noteq> Ret a"
  shows "same_tables (w_db w) (w_db w')"
proof -
  have db: "same_tables (w_db w) (w_db v)" if "on_db (CreateLot (e_faults env) (e_sql env) p) w = (x, v)" and "\<And>i. x \<noteq> Ret i" for p x v
  proof (cases "e_faults env QCreateLot")
    case None
    with that show ?thesis
      using sql_CreateLot_failed [of "e_sql env" p "w_db w" x] by (auto simp: on_db_def CreateLot_def run_query_def split: prod.splits)
  next
    case (Some e)
    with that show ?thesis by (auto simp: on_db_def CreateLot_def run_query_def)
  qed
  show ?thesis
    using assms by (auto simp: LotServer_CreateLot_def bindp_def status_Error_eq split: option.splits outcome.splits prod.splits intro: db)
qed

section \<open>Starting up\<close>

lemma main_serves:
  "main None (Connected c) None None new_validator validate any_new sort_parts =
     Serving \<lparr>sv_validator = (case new_validator of Inl e \<Rightarrow> None | Inr v \<Rightarrow> Some v), sv_validate = validate, sv_any_new = any_new,
       sv_imageStore = Some \<lparr>is_s3Storage = \<lparr>bucketName = access_point\<rparr>\<rparr>, sv_sort = sort_parts\<rparr>"
  by (simp add: main_def createRpc_def NewImageStore_def newS3Storage_def Run_def RegisterLotImageServiceServer_def Let_def)

lemma main_serving_iff:
  "main dotenv connection load_config listen new_validator validate any_new sort_parts = Serving sv \<longleftrightarrow>
     dotenv = None \<and> (\<exists>c. connection = Connected c) \<and> load_config = None \<and> listen = None \<and>
     sv = \<lparr>sv_validator = (case new_validator of Inl e \<Rightarrow> None | Inr v \<Rightarrow> Some v), sv_validate = validate, sv_any_new = any_new,
       sv_imageStore = Some \<lparr>is_s3Storage = \<lparr>bucketName = access_point\<rparr>\<rparr>, sv_sort = sort_parts\<rparr>"
  by (auto simp: main_def createRpc_def NewImageStore_def newS3Storage_def Run_def RegisterLotImageServiceServer_def Let_def
      split: option.splits startup.splits outcome.splits)

end
