(* ===== verification/Upload_Success.thy ===== *)
theory Upload_Success
  imports Server_Laws
begin

text \<open>
  When an upload request succeeds: the lot is known, nothing outside fails, the hashes are lower-case
  SHA-256 and the names fit their column, and no large file meets a pending attempt without an upload id.
  Each function of the request is shown to return; \<open>GeneratePresignedUrl_succeeds\<close> puts them together.
\<close>

section \<open>The outside answers\<close>

definition answers :: "('s, 'a) s3_call \<Rightarrow> ('a \<Rightarrow> bool) \<Rightarrow> bool" where
  "answers c P \<longleftrightarrow> (\<forall>s. \<exists>a s'. c s = (Inr a, s') \<and> P a)"

definition outside_ok :: "'s env \<Rightarrow> bool" where
  "outside_ok env \<longleftrightarrow>
     (\<forall>q. e_faults env q = None) \<and> e_begin env = None \<and> e_commit env = CommitOk \<and>
     random_ok env \<and> (\<forall>n. \<exists>r. e_rand env n = Inr r) \<and> range_ok env \<and>
     (\<forall>b k. answers (CreateMultipartUpload (e_s3 env) b k) (\<lambda>i. i \<noteq> None)) \<and>
     (\<forall>i. answers (ListParts (e_s3 env) i) (\<lambda>ps. \<forall>p \<in> set ps. s3p_ETag p \<noteq> None \<and> s3p_PartNumber p \<noteq> None)) \<and>
     (\<forall>i. answers (PresignPutObject (e_s3 env) i) (\<lambda>_. True)) \<and>
     (\<forall>i. answers (PresignUploadPart (e_s3 env) i) (\<lambda>_. True))"

lemma outside_okD:
  assumes "outside_ok env"
  shows "e_faults env q = None" and "e_begin env = None" and "e_commit env = CommitOk"
    and "random_ok env" and "\<exists>r. e_rand env n = Inr r" and "range_ok env"
    and "answers (CreateMultipartUpload (e_s3 env) b k) (\<lambda>i. i \<noteq> None)"
    and "answers (ListParts (e_s3 env) li) (\<lambda>ps. \<forall>p \<in> set ps. s3p_ETag p \<noteq> None \<and> s3p_PartNumber p \<noteq> None)"
    and "answers (PresignPutObject (e_s3 env) pi) (\<lambda>_. True)" and "answers (PresignUploadPart (e_s3 env) ui) (\<lambda>_. True)"
  using assms by (auto simp: outside_ok_def)

text \<open>A program that returns from every world.\<close>

definition returns :: "('s, 'e, 'a) prog \<Rightarrow> ('a \<Rightarrow> bool) \<Rightarrow> bool" where
  "returns m P \<longleftrightarrow> (\<forall>s. \<exists>a s'. m s = (Ret a, s') \<and> P a)"

lemma returns_on_s3: "answers c P \<Longrightarrow> returns (on_error (on_s3 c) h) P"
  unfolding returns_def answers_def by (metis on_error_simps(1) on_s3_Ret_iff)

lemma returns_bindp: "returns m P \<Longrightarrow> (\<And>a. P a \<Longrightarrow> returns (f a) Q) \<Longrightarrow> returns (bindp m f) Q"
  unfolding returns_def by (metis bindp_apply_simps(1))

lemma returns_Ret: "P a \<Longrightarrow> returns (liftp (Ret a)) P"
  by (simp add: returns_def)

text \<open>A program that returns, whatever it returns.\<close>

abbreviation answering :: "('s, 'e, 'a) prog \<Rightarrow> bool" where
  "answering m \<equiv> returns m (\<lambda>_. True)"

lemma returns_answering: "returns m P \<Longrightarrow> answering m"
  unfolding returns_def by meson

lemma answering_bindp: "answering m \<Longrightarrow> (\<And>a. answering (f a)) \<Longrightarrow> answering (bindp m f)"
  by (rule returns_bindp)

lemma answering_Ret: "answering (liftp (Ret a))"
  by (simp add: returns_Ret)

lemma answering_mapp: "(\<And>x. x \<in> set xs \<Longrightarrow> answering (f x)) \<Longrightarrow> answering (mapp f xs)"
proof (induction xs)
  case (Cons x xs)
  then have "answering (f x)" and "answering (mapp f xs)" by simp_all
  then show ?case unfolding mapp.simps by (intro answering_bindp answering_Ret)
qed (simp add: returns_Ret)

lemma answering_on_error: "answering m \<Longrightarrow> answering (on_error m h)"
  unfolding returns_def by (metis on_error_simps(1))

lemma answeringD: "answering m \<Longrightarrow> \<exists>a s'. m s = (Ret a, s')"
  unfolding returns_def by blast

lemmas answering_intros = answering_bindp answering_Ret answering_mapp

lemma answering_presign_part: "outside_ok env \<Longrightarrow> answering (presign_part env st u wrap k)"
  unfolding presign_part_def by (intro answering_intros returns_on_s3 outside_okD(10))

lemma answering_single_url:
  assumes "outside_ok env" and "sha_text s"
  shows "answering (generateSinglePresignedPutObjectUrl env st k s)"
proof -
  have "answering (on_error (liftp (hexToBase64 s)) h)" for h :: "err \<Rightarrow> err"
    using assms(2) by (simp add: returns_def hexToBase64_sha on_error_def)
  then show ?thesis unfolding generateSinglePresignedPutObjectUrl_def
    by (intro answering_intros returns_on_s3 outside_okD(9) assms(1))
qed

lemma answering_new_urls: "outside_ok env \<Longrightarrow> answering (generateUrlsForNewUploads env st m gs)"
  unfolding generateUrlsForNewUploads_def generateNewMultiPartUploadUrls_def
  by (intro answering_intros answering_presign_part)

lemma uploaded_etags_Ret:
  "\<forall>p \<in> set ps. s3p_ETag p \<noteq> None \<and> s3p_PartNumber p \<noteq> None \<Longrightarrow> \<exists>ts. mapo uploaded_etag ps = Ret ts"
  by (induction ps) (auto simp: uploaded_etag_def)

lemma answering_listNotUploadedParts:
  assumes "outside_ok env"
  shows "answering (listNotUploadedParts env st u ks)"
  unfolding listNotUploadedParts_def
proof (rule returns_bindp [OF returns_on_s3 [OF outside_okD(8) [OF assms]]])
  fix ps :: "s3_Part list" assume "\<forall>p \<in> set ps. s3p_ETag p \<noteq> None \<and> s3p_PartNumber p \<noteq> None"
  then obtain ts where "mapo uploaded_etag ps = Ret ts" using uploaded_etags_Ret by blast
  then show "answering (bindp (liftp (mapo uploaded_etag ps)) (\<lambda>t. liftp (Ret (missing_parts t ks, t))))"
    by (simp add: returns_def)
qed

lemma answering_resumable_urls: "outside_ok env \<Longrightarrow> answering (genrateUrlsForResumableUploads env st m gs)"
  unfolding genrateUrlsForResumableUploads_def generateResumeUploadUrls_def generateExistingMultiPartPresignedUrl_def
    case_prod_beta
  by (intro answering_intros answering_on_error answering_listNotUploadedParts answering_presign_part)

lemma answering_extract_loop:
  fixes env :: "'s env"
  assumes "outside_ok env"
  shows "answering (extract_loop env st fs acc)"
proof (induction fs arbitrary: acc)
  case (Cons f fs)
  show ?case
  proof (cases "uint (uf_FileSize f) < multipartThreshold")
    case False
    have uuid: "returns (makeUUIDText env) (\<lambda>t. \<exists>u. valid_uuid u \<and> t = uuid_String u)"
      unfolding returns_def
    proof
      fix w :: "'s world"
      obtain r where r: "e_rand env (w_rand w) = Inr r" using outside_okD(5) [OF assms] by blast
      then have "valid_uuid (uuid_of_random r)"
        using outside_okD(4) [OF assms] by (auto simp: random_ok_def intro: valid_uuid_of_random)
      with r show "\<exists>t w'. makeUUIDText env w = (Ret t, w') \<and> (\<exists>u. valid_uuid u \<and> t = uuid_String u)"
        by (auto simp: makeUUIDText_def NewRandom_def on_error_def bindp_def)
    qed
    have upload: "answering (generateMultiPartUploadId env st k)" for k
      unfolding generateMultiPartUploadId_def
      by (rule returns_bindp [OF returns_on_s3 [OF outside_okD(7) [OF assms]]]) (auto simp: returns_def)
    have parsed: "answering (liftp (uuid_MustParse t) :: ('s, uuid) action)" if "\<exists>u. valid_uuid u \<and> t = uuid_String u" for t
      using that uuid_MustParse_String by (auto simp: returns_def)
    have rest: "answering (bindp (liftp (uuid_MustParse t)) (\<lambda>storageKey. bindp (generateMultiPartUploadId env st t) (\<lambda>uploadId.
        extract_loop env st fs (acc\<lparr>ex_multipartFile := add_multi f storageKey uploadId (ex_multipartFile acc)\<rparr>))))"
      if "\<exists>u. valid_uuid u \<and> t = uuid_String u" for t
      by (rule answering_bindp [OF parsed [OF that]], rule answering_bindp [OF upload Cons.IH])
    have uuid': "returns (on_error (makeUUIDText env) h) (\<lambda>t. \<exists>u. valid_uuid u \<and> t = uuid_String u)" for h
      using uuid unfolding returns_def by (metis on_error_simps(1))
    have "answering (bindp (on_error (makeUUIDText env)
                 (\<lambda>e. client_err (InternalServerError ''fileupload.extractFileData''
                    (Some (Errorf ''cannot generate uuid:'' (Some e) '''')) ''internal error'')))
          (\<lambda>t. bindp (liftp (uuid_MustParse t)) (\<lambda>storageKey. bindp (generateMultiPartUploadId env st t) (\<lambda>uploadId.
        extract_loop env st fs (acc\<lparr>ex_multipartFile := add_multi f storageKey uploadId (ex_multipartFile acc)\<rparr>)))))"
      by (rule returns_bindp [OF uuid']) (rule rest)
    with False show ?thesis by (simp del: bindp_liftp)
  qed (simp add: Cons.IH)
qed (simp add: returns_Ret)

lemma answering_extractFileData: "outside_ok env \<Longrightarrow> answering (extractFileData env st fs)"
  unfolding extractFileData_def by (rule answering_extract_loop)

section \<open>The statements\<close>

lemma insert_identical_succeeds:
  assumes "\<And>f. f \<in> set fs \<Longrightarrow> sha_text (uf_Sha256 f)"
  shows "\<exists>rs seq'. insert_identical d lot (map (\<lambda>f. (Some (uf_Sha256 f), Some (uf_FileName f))) fs) seq = (Inr rs, seq')"
  using assms
proof (induction fs arbitrary: seq)
  case (Cons f fs)
  have sha: "decode_optional (Some (uf_Sha256 f)) = Inr (Some (sha_bytes (uf_Sha256 f)))"
    using Cons.prems [of f] by (simp add: decode_optional_sha)
  have IH: "\<exists>rs seq'. insert_identical d lot (map (\<lambda>f. (Some (uf_Sha256 f), Some (uf_FileName f))) fs) q = (Inr rs, seq')" for q
    using Cons.prems by (intro Cons.IH) simp
  show ?case
  proof (cases "completed_blob d (sha_bytes (uf_Sha256 f))")
    case None
    with sha IH [of seq] show ?thesis by simp
  next
    case (Some b)
    with sha IH [of "seq + 1"] show ?thesis by (auto simp: Let_def)
  qed
qed simp

lemma skip_succeeds:
  assumes "outside_ok env" and "\<And>f. f \<in> set fs \<Longrightarrow> sha_text (uf_Sha256 f)" and "lot \<in> lot_ids (w_db w)"
  shows "\<exists>r w'. skipUploadForIdenticalImageBlobs env fs lot w = (Ret r, w')"
proof -
  let ?p = "\<lparr>ip_LotID = lot, ip_Sha256s = map uf_Sha256 fs, ip_FileNames = map uf_FileName fs\<rparr>"
  obtain rs seq where "insert_identical (w_db w) lot (map (\<lambda>f. (Some (uf_Sha256 f), Some (uf_FileName f))) fs)
      (lot_image_seq (w_db w)) = (Inr rs, seq)"
    using insert_identical_succeeds assms(2) by blast
  then have "\<exists>rows d. InsertIdenticalImageBlobsToLotImages (e_faults env) ?p (w_db w) = (Ret rows, d)"
    using assms(3) outside_okD(1) [OF assms(1)]
    by (simp add: InsertIdenticalImageBlobsToLotImages_def run_query_def sql_InsertIdenticalImageBlobsToLotImages_def
        identical_inputs_eq Let_def)
  then obtain rows d where "on_db (InsertIdenticalImageBlobsToLotImages (e_faults env) ?p) w = (Ret rows, w\<lparr>w_db := d\<rparr>)"
    by (auto simp: on_db_def)
  then show ?thesis by (auto simp: skipUploadForIdenticalImageBlobs_def Let_def on_error_def bindp_def)
qed

definition name_fits :: "uploadFile \<Rightarrow> bool" where
  "name_fits f \<longleftrightarrow> rune_count (uf_FileName f) \<le> 250"

lemma username_fits: "assign_varchar 128 ''coackroach'' = Inr ''coackroach''"
  unfolding assign_varchar_def rune_count_def by simp

lemma single_proposed:
  assumes "sha_text (uf_Sha256 f)" and "name_fits f"
  shows "\<exists>row. single_propose env (single_params lot s) u i (single_input_of f) = Inr row"
proof -
  have "decode_optional (Some (uf_Sha256 f)) = Inr (Some (sha_bytes (uf_Sha256 f)))"
    using assms(1) by (rule decode_optional_sha)
  moreover have "assign_optional 250 (Some (uf_FileName f)) = Inr (Some (uf_FileName f))"
    using assms(2) by (simp add: assign_optional_def assign_varchar_def name_fits_def)
  moreover have "assign_varchar 128 ''coackroach'' = Inr ''coackroach''" by (rule username_fits)
  ultimately show ?thesis
    unfolding single_propose_def single_input_of_def required_def single_params_def by simp
qed

lemma keys_distinct:
  assumes "distinct (map uf_Sha256 fs)" and "\<And>f. f \<in> set fs \<Longrightarrow> lower_sha (uf_Sha256 f)"
  shows "distinct (map (file_key lot) fs)"
  unfolding distinct_map
proof (intro conjI inj_onI)
  show "distinct fs" using assms(1) by (simp add: distinct_map)
  fix f g assume "f \<in> set fs" and "g \<in> set fs" and "file_key lot f = file_key lot g"
  with assms have "uf_Sha256 f = uf_Sha256 g" by (blast intro: file_key_inj)
  with \<open>f \<in> set fs\<close> \<open>g \<in> set fs\<close> assms(1) show "f = g" by (auto simp: distinct_map dest: inj_onD)
qed

lemma single_statement_answer:
  assumes wf: "db_wf d" and sha: "\<And>f. f \<in> set fs \<Longrightarrow> sha_text (uf_Sha256 f) \<and> name_fits f"
    and dist: "distinct (map (file_key lot) fs)"
  shows "\<exists>rs d'. sql_InsertSinglePartUpload env (single_params lot (single_data fs)) d =
    (if fs = [] \<or> lot \<in> lot_ids d then Ret rs else Fail (fk_violation ''image_blob_upload_attempts'' attempts_lot_fkey), d')"
proof -
  let ?p = "single_params lot (single_data fs)" and ?xs = "map single_input_of fs"
  have key: "single_key ?p (single_input_of f) = file_key lot f" if "f \<in> set fs" for f
    using sha [OF that] by (intro single_key_of) blast
  have keys: "map (single_key ?p) ?xs = map (file_key lot) fs" using key by simp
  have "\<exists>rs d'. upsert_statement (single_propose env ?p) single_on_conflict single_returning ?xs d =
    (if ?xs = [] \<or> lot \<in> lot_ids d then Ret rs else Fail (fk_violation ''image_blob_upload_attempts'' attempts_lot_fkey), d')"
  proof (rule single_upsert.upsert_statement_answer [OF db_wf_attempts_wf [OF wf]], goal_cases)
    case (1 x u i)
    then obtain f where "f \<in> set fs" and "x = single_input_of f" by auto
    with single_proposed sha show ?case by blast
  next
    case 2
    show ?case unfolding keys by (rule dist)
  next
    case (3 x row)
    show ?case by (simp add: single_returning_def)
  next
    case (4 x)
    then show ?case using key by (auto simp: file_key_def)
  qed
  then show ?thesis by (simp add: sql_InsertSinglePartUpload_def single_inputs_eq)
qed

text \<open>A pending attempt that a large file can take over.\<close>

definition resumable :: "ImageBlobUploadAttempt \<Rightarrow> bool" where
  "resumable a \<longleftrightarrow> at_UploadID a \<noteq> None \<and>
     (\<exists>ps. at_PartSize a = Some ps \<and> 0 < ps \<and> at_FileSize a \<le> 32767 * ps \<and> at_FileSize a \<le> 32767 * partSize)"

text \<open>An attempt whose parts can be numbered: every attempt the program makes.\<close>

definition listable :: "ImageBlobUploadAttempt \<Rightarrow> bool" where
  "listable a \<longleftrightarrow> at_UploadType a = MultiUpload \<longrightarrow>
     (\<forall>ps. at_PartSize a = Some ps \<longrightarrow> 0 < ps \<and> at_FileSize a \<le> 32767 * ps) \<and> at_FileSize a \<le> 32767 * partSize"

lemma resumable_listable: "resumable a \<Longrightarrow> listable a"
  by (auto simp: resumable_def listable_def)

lemma parts_fit:
  assumes "\<And>p. t = MultiUpload \<Longrightarrow> ps = Some p \<Longrightarrow> 0 < p \<and> s \<le> 32767 * p"
  shows "\<exists>ks. parts_array (gen_part_count t s ps) = Inr ks"
proof (cases "if t = MultiUpload then ps else None")
  case (Some p)
  then have t: "t = MultiUpload" "ps = Some p" by (simp_all split: if_splits)
  with assms have p: "0 < p" "s \<le> 32767 * p" by simp_all
  have "(s + p - 1) sdiv p \<le> 32767"
  proof (cases "0 \<le> s + p - 1")
    case True
    then have "(s + p - 1) sdiv p = (s + p - 1) div p" using p(1) by (rule sdiv_nonneg)
    also have "\<dots> \<le> (32767 * p + p - 1) div p" using p by (intro zdiv_mono1) auto
    also have "\<dots> = 32767"
      using p(1) by (intro int_div_pos_eq [of _ _ 32767 "p - 1"]) auto
    finally show ?thesis .
  next
    case False
    then have "(s + p - 1) sdiv p = - (- (s + p - 1) div p)" using p(1) by (intro sdiv_neg) auto
    moreover have "0 \<le> - (s + p - 1) div p" using False p(1) by (intro pos_imp_zdiv_nonneg_iff [THEN iffD2]) auto
    ultimately show ?thesis by linarith
  qed
  with t show ?thesis by (auto simp: gen_part_count_def parts_array_def)
next
  case None
  then show ?thesis by (auto simp: gen_part_count_def parts_array_def split: if_splits)
qed

lemma multi_proposed:
  assumes "sha_text (uf_Sha256 (fst t))"
  shows "\<exists>row. multi_propose env (multi_params lot m) u i (multi_input_of t) = Inr row"
proof -
  have "decode_optional (Some (uf_Sha256 (fst t))) = Inr (Some (sha_bytes (uf_Sha256 (fst t))))"
    using assms by (rule decode_optional_sha)
  then show ?thesis by (simp add: multi_propose_def multi_input_of_def required_def)
qed

lemma int32_fits: "sint (n :: int32) \<le> 32767 * partSize"
  using sint_lt [of n] by (simp add: partSize_def)

lemma multi_row_returned:
  assumes row: "multi_upsert.row_ok env (multi_params lot m) start (multi_input_of t) row"
    and key: "multi_key (multi_params lot m) (multi_input_of t) = file_key lot (fst t)"
    and old: "\<And>old. find_pending (file_key lot (fst t)) start = Some old \<Longrightarrow> listable old"
  shows "\<exists>r. multi_returning env (fst row) (snd row) = Inr r"
proof -
  let ?p = "multi_params lot m"
  obtain o' new where r: "row = (o', new)" by (cases row)
  have "\<exists>ks. parts_array (at_PartCount new) = Inr ks"
  proof (cases o')
    case None
    then obtain u i where "multi_propose env ?p u i (multi_input_of t) = Inr new"
      using row r by (auto simp: multi_upsert.row_ok_def)
    from multi_propose_Inr [OF this [unfolded multi_input_of_def]]
    have "generated_ok new" "at_PartSize new = Some partSize" "at_FileSize new = sint (int32_of_uint (uf_FileSize (fst t)))"
      by (simp_all add: multi_params_def)
    then show ?thesis using int32_fits by (auto simp: generated_ok_def partSize_def intro!: parts_fit)
  next
    case (Some old')
    with row r key have find: "find_pending (file_key lot (fst t)) start = Some old'"
      and new: "update_row (multi_on_conflict env ?p) old' = Inr new" by (auto simp: multi_upsert.row_ok_def)
    note same = multi_upsert.update_row_same [OF new]
    have "at_FileSize new = at_FileSize old'" "at_UploadType new = at_UploadType old'" using same(1) by (simp_all add: same_identity_def)
    moreover have "at_PartSize new = at_PartSize old' \<or> at_PartSize new = Some partSize"
      using same(3) by (auto simp: multi_on_conflict_def multi_params_def)
    moreover have "0 < partSize" by (simp add: partSize_def)
    ultimately have "at_UploadType new = MultiUpload \<Longrightarrow> at_PartSize new = Some q \<Longrightarrow> 0 < q \<and> at_FileSize new \<le> 32767 * q" for q
      using old [OF find] by (auto simp: listable_def)
    with same(2) show ?thesis by (auto simp: generated_ok_def intro!: parts_fit)
  qed
  with r show ?thesis by (auto simp: multi_returning_def)
qed

lemma multi_statement_answer:
  assumes wf: "db_wf d" and sha: "\<And>t. t \<in> set ts \<Longrightarrow> sha_text (uf_Sha256 (fst t))"
    and dist: "distinct (map (file_key lot) (map fst ts))"
    and old: "\<And>t old. t \<in> set ts \<Longrightarrow> find_pending (file_key lot (fst t)) (attempts d) = Some old \<Longrightarrow> listable old"
  shows "\<exists>rs d'. sql_InsertAndValidateMultiPartUpload env (multi_params lot (multi_data ts)) d =
    (if ts = [] \<or> lot \<in> lot_ids d then Ret rs else Fail (fk_violation ''image_blob_upload_attempts'' attempts_lot_fkey), d')"
proof -
  let ?p = "multi_params lot (multi_data ts)" and ?xs = "map multi_input_of ts"
  have key: "multi_key ?p (multi_input_of t) = file_key lot (fst t)" if "t \<in> set ts" for t
    using sha [OF that] by (intro multi_key_of) blast
  have keys: "map (multi_key ?p) ?xs = map (file_key lot) (map fst ts)" using key by simp
  have "\<exists>rs d'. upsert_statement (multi_propose env ?p) (multi_on_conflict env ?p) (multi_returning env) ?xs d =
    (if ?xs = [] \<or> lot \<in> lot_ids d then Ret rs else Fail (fk_violation ''image_blob_upload_attempts'' attempts_lot_fkey), d')"
  proof (rule multi_upsert.upsert_statement_answer [OF db_wf_attempts_wf [OF wf]], goal_cases)
    case (1 x u i)
    then obtain t where "t \<in> set ts" and "x = multi_input_of t" by auto
    with multi_proposed sha show ?case by blast
  next
    case 2
    show ?case unfolding keys by (rule dist)
  next
    case (3 x row)
    then obtain t where t: "t \<in> set ts" and x: "x = multi_input_of t" by auto
    show ?case by (rule multi_row_returned [OF 3(2) [unfolded x] key [OF t] old [OF t]])
  next
    case (4 x)
    then show ?case using key by (auto simp: file_key_def)
  qed
  then show ?thesis by (simp add: sql_InsertAndValidateMultiPartUpload_def multi_inputs_eq)
qed

section \<open>The request\<close>

text \<open>Running a program that returns in front of one that answers.\<close>

lemma bindp_from:
  assumes "m w = (Ret a, w1)" and "answering (f a)"
  shows "\<exists>b w'. bindp m f w = (Ret b, w')"
  using assms by (simp add: answeringD)

lemma answering_liftp: "answering (f a) \<Longrightarrow> answering (bindp (liftp (Ret a)) f)"
  by (simp add: returns_def)

lemma createSingle_succeeds:
  assumes ok: "outside_ok env" and wf: "db_wf (w_db w)"
    and sha: "\<And>f. f \<in> set fs \<Longrightarrow> sha_text (uf_Sha256 f) \<and> name_fits f"
    and dist: "distinct (map (file_key lot) fs)" and lot: "lot \<in> lot_ids (w_db w)"
  shows "\<exists>us w'. createSinglePresignedFileUrl env st lot (single_data fs) w = (Ret us, w')"
proof -
  obtain rs d where "sql_InsertSinglePartUpload (e_sql env) (single_params lot (single_data fs)) (w_db w) = (Ret rs, d)"
    using single_statement_answer [OF wf sha dist, of "e_sql env"] lot by auto
  then have stmt: "on_error (on_db (InsertSinglePartUpload (e_faults env) (e_sql env) (single_params lot (single_data fs)))) h w
      = (Ret rs, w\<lparr>w_db := d\<rparr>)" for h
    by (simp add: on_error_def on_db_def InsertSinglePartUpload_def run_query_def outside_okD(1) [OF ok])
  show ?thesis
    unfolding createSinglePresignedFileUrl_def Let_def
  proof (rule bindp_from, rule stmt, rule answering_mapp)
    fix f assume "f \<in> set (sd_singleFileUploads (single_data fs))"
    then have "sha_text (uf_Sha256 f)" using sha by simp
    then show "answering (bindp (generateSinglePresignedPutObjectUrl env st
        (uuid_String (map_get uuid_Nil (map_build sr_Sha256 sr_StorageKey rs) (uf_Sha256 f))) (uf_Sha256 f))
        (\<lambda>u. liftp (Ret (single_url f u))))"
      by (rule answering_bindp [OF answering_single_url [OF ok] answering_Ret])
  qed
qed

text \<open>A large file meets a pending attempt that has an upload id and a part size, or none.\<close>

definition taken_over :: "uuid \<Rightarrow> db \<Rightarrow> uploadFile \<Rightarrow> bool" where
  "taken_over lot d f \<longleftrightarrow>
     (\<forall>a. find_pending (file_key lot f) (attempts d) = Some a \<longrightarrow> at_UploadID a \<noteq> None \<and> at_PartSize a \<noteq> None)"

lemma complete_row_iff:
  assumes "multi_row_ok env lot d d' t r" and "taken_over lot d (fst t)"
  shows "complete_row r"
proof (cases "find_pending (file_key lot (fst t)) (attempts d)")
  case None
  with assms(1) show ?thesis by (auto simp: multi_row_ok_def complete_row_def)
next
  case (Some a)
  with assms show ?thesis by (auto simp: multi_row_ok_def complete_row_def same_identity_def taken_over_def)
qed

lemma incomplete_row:
  assumes "multi_row_ok env lot d d' t r" and "find_pending (file_key lot (fst t)) (attempts d) = Some a" and "at_UploadID a = None"
  shows "\<not> complete_row r"
  using assms by (auto simp: multi_row_ok_def complete_row_def same_identity_def)

text \<open>The multipart statement of the request, when nothing outside fails, and its rows.\<close>

lemma multi_statement_rows:
  assumes ok: "outside_ok env" and wf: "db_wf (w_db w)"
    and sha: "\<And>t. t \<in> set ts \<Longrightarrow> sha_text (uf_Sha256 (fst t))"
    and dist: "distinct (map (file_key lot) (map fst ts))" and lot: "lot \<in> lot_ids (w_db w)"
    and old: "\<And>t old. t \<in> set ts \<Longrightarrow> find_pending (file_key lot (fst t)) (attempts (w_db w)) = Some old \<Longrightarrow> listable old"
  shows "\<exists>rs d. (\<forall>h. on_error (on_db (InsertAndValidateMultiPartUpload (e_faults env) (e_sql env) (multi_params lot (multi_data ts)))) h w
      = (Ret rs, w\<lparr>w_db := d\<rparr>)) \<and> list_all2 (multi_row_ok (e_sql env) lot (w_db w) d) ts rs"
proof -
  let ?p = "multi_params lot (multi_data ts)"
  have "\<exists>rs d. sql_InsertAndValidateMultiPartUpload (e_sql env) ?p (w_db w) =
      (if ts = [] \<or> lot \<in> lot_ids (w_db w) then Ret rs else Fail (fk_violation ''image_blob_upload_attempts'' attempts_lot_fkey), d)"
    using wf sha dist old by (rule multi_statement_answer)
  with lot obtain rs d where sql: "sql_InsertAndValidateMultiPartUpload (e_sql env) ?p (w_db w) = (Ret rs, d)"
    by auto
  then have q: "InsertAndValidateMultiPartUpload (e_faults env) (e_sql env) ?p (w_db w) = (Ret rs, d)"
    by (simp add: InsertAndValidateMultiPartUpload_def run_query_def outside_okD(1) [OF ok])
  have "list_all2 (multi_row_ok (e_sql env) lot (w_db w) d) ts rs" using wf sha q by (rule multi_rows(1))
  moreover have "\<forall>h. on_error (on_db (InsertAndValidateMultiPartUpload (e_faults env) (e_sql env) ?p)) h w = (Ret rs, w\<lparr>w_db := d\<rparr>)"
    using q by (simp add: on_error_def on_db_def)
  ultimately show ?thesis by blast
qed

lemma createMultipart_succeeds:
  assumes ok: "outside_ok env" and wf: "db_wf (w_db w)"
    and sha: "\<And>t. t \<in> set ts \<Longrightarrow> sha_text (uf_Sha256 (fst t))"
    and dist: "distinct (map (file_key lot) (map fst ts))" and lot: "lot \<in> lot_ids (w_db w)"
    and old: "\<And>t old. t \<in> set ts \<Longrightarrow> find_pending (file_key lot (fst t)) (attempts (w_db w)) = Some old \<Longrightarrow> resumable old"
  shows "\<exists>us w'. createMultipartPresignedFileUrl env st lot (multi_data ts) w = (Ret us, w')"
proof -
  have old': "listable a" if "t \<in> set ts" and "find_pending (file_key lot (fst t)) (attempts (w_db w)) = Some a" for t a
    using old [OF that] by (rule resumable_listable)
  have "\<exists>rs d. (\<forall>h. on_error (on_db (InsertAndValidateMultiPartUpload (e_faults env) (e_sql env) (multi_params lot (multi_data ts)))) h w
      = (Ret rs, w\<lparr>w_db := d\<rparr>)) \<and> list_all2 (multi_row_ok (e_sql env) lot (w_db w) d) ts rs"
    using ok wf sha dist lot old' by (rule multi_statement_rows)
  then obtain rs d where stmt: "\<And>h. on_error (on_db (InsertAndValidateMultiPartUpload (e_faults env) (e_sql env)
        (multi_params lot (multi_data ts)))) h w = (Ret rs, w\<lparr>w_db := d\<rparr>)"
    and rows: "list_all2 (multi_row_ok (e_sql env) lot (w_db w) d) ts rs" by blast
  have complete: "complete_row r" if r: "r \<in> set rs" for r
  proof -
    from rows r obtain t where t: "t \<in> set ts" and row: "multi_row_ok (e_sql env) lot (w_db w) d t r"
      by (metis in_set_conv_nth list_all2_conv_all_nth)
    have "taken_over lot (w_db w) (fst t)" using old [OF t] by (auto simp: taken_over_def resumable_def)
    with row show ?thesis by (rule complete_row_iff)
  qed
  have seg: "segregateMultiUploadFiles rs = Ret (map row_data (filter is_new rs), map row_data (filter (\<lambda>r. \<not> is_new r) rs))"
    using complete by (simp add: segregate_eq)
  have rest: "answering (bindp (generateUrlsForNewUploads env st m news) (\<lambda>us.
      bindp (genrateUrlsForResumableUploads env st m olds) (\<lambda>us'. liftp (Ret (us @ us')))))" for m news olds
    by (intro answering_intros answering_new_urls answering_resumable_urls ok)
  show ?thesis
    unfolding createMultipartPresignedFileUrl_def
    by (rule bindp_from, rule stmt) (simp add: seg rest answering_liftp)
qed

lemma createMultipart_panics:
  assumes ok: "outside_ok env" and wf: "db_wf (w_db w)"
    and sha: "\<And>t. t \<in> set ts \<Longrightarrow> sha_text (uf_Sha256 (fst t))"
    and dist: "distinct (map (file_key lot) (map fst ts))" and lot: "lot \<in> lot_ids (w_db w)"
    and old: "\<And>t old. t \<in> set ts \<Longrightarrow> find_pending (file_key lot (fst t)) (attempts (w_db w)) = Some old \<Longrightarrow> listable old"
    and t: "t \<in> set ts" and a: "find_pending (file_key lot (fst t)) (attempts (w_db w)) = Some a" "at_UploadID a = None"
  shows "\<exists>w'. createMultipartPresignedFileUrl env st lot (multi_data ts) w = (Panic nil_deref, w')"
proof -
  have "\<exists>rs d. (\<forall>h. on_error (on_db (InsertAndValidateMultiPartUpload (e_faults env) (e_sql env) (multi_params lot (multi_data ts)))) h w
      = (Ret rs, w\<lparr>w_db := d\<rparr>)) \<and> list_all2 (multi_row_ok (e_sql env) lot (w_db w) d) ts rs"
    using ok wf sha dist lot old by (rule multi_statement_rows)
  then obtain rs d where stmt: "\<And>h. on_error (on_db (InsertAndValidateMultiPartUpload (e_faults env) (e_sql env)
        (multi_params lot (multi_data ts)))) h w = (Ret rs, w\<lparr>w_db := d\<rparr>)"
    and rows: "list_all2 (multi_row_ok (e_sql env) lot (w_db w) d) ts rs" by blast
  from rows t obtain r where "r \<in> set rs" and "multi_row_ok (e_sql env) lot (w_db w) d t r"
    by (metis in_set_conv_nth list_all2_conv_all_nth)
  then have "\<not> (\<forall>r \<in> set rs. complete_row r)" using incomplete_row [OF _ a] by blast
  then have "segregateMultiUploadFiles rs = Panic nil_deref" by (simp add: segregate_eq)
  with stmt show ?thesis unfolding createMultipartPresignedFileUrl_def by (simp add: bindp_def)
qed

lemma grown_lot_ids: "grown d0 d \<Longrightarrow> lot_ids d0 \<subseteq> lot_ids d"
  by (auto simp: grown_def history_def lot_ids_def prefix_def)

text \<open>A file that the request can serve, and a large file whose pending attempt, if there is one, it can take over.\<close>

definition servable :: "uploadFile \<Rightarrow> bool" where
  "servable f \<longleftrightarrow> lower_sha (uf_Sha256 f) \<and> name_fits f"

definition can_resume :: "uuid \<Rightarrow> db \<Rightarrow> uploadFile \<Rightarrow> bool" where
  "can_resume lot d f \<longleftrightarrow> (\<forall>old. \<not> is_single f \<longrightarrow> find_pending (file_key lot f) (attempts d) = Some old \<longrightarrow> resumable old)"

text \<open>The request up to the multipart statement.\<close>

lemma generateS3UploadUrl_front:
  assumes ok: "outside_ok env" and wf: "db_wf (w_db w)" and fs: "\<And>f. f \<in> set fs \<Longrightarrow> servable f"
    and dist: "distinct (map uf_Sha256 fs)" and lot: "lot \<in> lot_ids (w_db w)"
  shows "\<exists>ts us1 w1. map fst ts = filter (\<lambda>f. \<not> is_single f) fs \<and> grown (w_db w) (w_db w1) \<and>
    (\<forall>t \<in> set ts. find_pending (file_key lot (fst t)) (attempts (w_db w1)) = find_pending (file_key lot (fst t)) (attempts (w_db w))) \<and>
    generateS3UploadUrl env st lot fs w =
      bindp (if ts \<noteq> [] then createMultipartPresignedFileUrl env st lot (multi_data ts) else liftp (Ret []))
        (\<lambda>us2. liftp (Ret (us1 @ us2))) w1"
proof -
  let ?fs = "filter is_single fs" and ?d = "w_db w"
  obtain ex w0 where ext: "extractFileData env st fs w = (Ret ex, w0)"
    using answeringD [OF answering_extractFileData [OF ok]] by blast
  then obtain ts where ex: "ex = extracted ?fs ts" and ts: "map fst ts = filter (\<lambda>f. \<not> is_single f) fs" and db0: "w_db w0 = ?d"
    using extractFileData_Ret [OF outside_okD(4) [OF ok]] by metis
  have sel: "ex_singleFile ex = single_data ?fs" "ex_multipartFile ex = multi_data ts" by (simp_all add: ex extracted_def)
  have tsin: "fst t \<in> set fs \<and> \<not> is_single (fst t)" if "t \<in> set ts" for t
  proof -
    have "fst t \<in> set (map fst ts)" using that by simp
    then show ?thesis unfolding ts by simp
  qed
  have sha: "\<And>f. f \<in> set fs \<Longrightarrow> lower_sha (uf_Sha256 f) \<and> name_fits f" using fs by (simp add: servable_def)
  have fdist: "distinct (map uf_Sha256 ?fs)" by (rule distinct_map_filter) (rule dist)
  have fkeys: "distinct (map (file_key lot) ?fs)" using fdist by (rule keys_distinct) (use sha in auto)
  have keys: "file_key lot (fst t) \<notin> file_key lot ` set ?fs" if t: "t \<in> set ts" for t
  proof
    assume "file_key lot (fst t) \<in> file_key lot ` set ?fs"
    then obtain f where f: "f \<in> set ?fs" and "file_key lot (fst t) = file_key lot f" by blast
    with sha tsin [OF t] have "uf_Sha256 (fst t) = uf_Sha256 f" by (auto intro: file_key_inj)
    with dist f tsin [OF t] have "fst t = f" by (auto simp: distinct_map dest: inj_onD)
    with f tsin [OF t] show False by auto
  qed
  have "\<exists>us1 w1. (if length (sd_Sha256s (ex_singleFile ex)) > 0 then createSinglePresignedFileUrl env st lot (ex_singleFile ex)
        else liftp (Ret [])) w0 = (Ret us1, w1) \<and> grown ?d (w_db w1) \<and>
      (\<forall>t \<in> set ts. find_pending (file_key lot (fst t)) (attempts (w_db w1)) = find_pending (file_key lot (fst t)) (attempts ?d))"
  proof (cases "?fs = []")
    case True
    with sel db0 grown_refl [OF wf] show ?thesis by (simp add: single_data_def)
  next
    case False
    obtain us1 w1 where run: "createSinglePresignedFileUrl env st lot (single_data ?fs) w0 = (Ret us1, w1)"
      using createSingle_succeeds [OF ok _ _ fkeys, where w = w0 and st = st] wf db0 sha lower_sha_text lot by auto
    have "grown ?d (w_db w1)" by (rule keepsD [OF keeps_createSingle _ run]) (simp add: db0 grown_refl wf)
    moreover from createSingle_Ret [OF _ _ fdist run] wf db0 sha
    have "\<exists>rs. InsertSinglePartUpload (e_faults env) (e_sql env) (single_params lot (single_data ?fs)) ?d = (Ret rs, w_db w1)" by auto
    then have "find_pending (file_key lot (fst t)) (attempts (w_db w1)) = find_pending (file_key lot (fst t)) (attempts ?d)"
      if "t \<in> set ts" for t
      using single_other_keys [OF wf _ _ keys [OF that]] sha lower_sha_text by fastforce
    ultimately show ?thesis using run sel False by simp
  qed
  then obtain us1 w1 where single: "(if length (sd_Sha256s (ex_singleFile ex)) > 0
        then createSinglePresignedFileUrl env st lot (ex_singleFile ex) else liftp (Ret [])) w0 = (Ret us1, w1)"
    and g: "grown ?d (w_db w1)"
    and same: "\<forall>t \<in> set ts. find_pending (file_key lot (fst t)) (attempts (w_db w1)) = find_pending (file_key lot (fst t)) (attempts ?d)"
    by blast
  have "length (md_Sha256s (ex_multipartFile ex)) > 0 \<longleftrightarrow> ts \<noteq> []" by (simp add: sel multi_data_def)
  with ext single sel have "generateS3UploadUrl env st lot fs w =
      bindp (if ts \<noteq> [] then createMultipartPresignedFileUrl env st lot (multi_data ts) else liftp (Ret []))
        (\<lambda>us2. liftp (Ret (us1 @ us2))) w1"
    unfolding generateS3UploadUrl_def by simp
  with ts g same show ?thesis by blast
qed

text \<open>What \<open>generateS3UploadUrl_front\<close> leaves for the multipart statement.\<close>

lemma large_files:
  assumes "map fst ts = filter (\<lambda>f. \<not> is_single f) fs"
  shows "t \<in> set ts \<Longrightarrow> fst t \<in> set fs \<and> \<not> is_single (fst t)"
    and "f \<in> set fs \<Longrightarrow> \<not> is_single f \<Longrightarrow> \<exists>t \<in> set ts. fst t = f"
    and "distinct (map uf_Sha256 fs) \<Longrightarrow> distinct (map uf_Sha256 (map fst ts))"
    and "distinct (map uf_Sha256 fs) \<Longrightarrow> (\<And>f. f \<in> set fs \<Longrightarrow> lower_sha (uf_Sha256 f)) \<Longrightarrow> distinct (map (file_key lot) (map fst ts))"
proof -
  have eq: "fst ` set ts = {f \<in> set fs. \<not> is_single f}" using assms by (metis list.set_map set_filter)
  then show "t \<in> set ts \<Longrightarrow> fst t \<in> set fs \<and> \<not> is_single (fst t)" by blast
  show "\<exists>t \<in> set ts. fst t = f" if "f \<in> set fs" and "\<not> is_single f"
  proof -
    have "f \<in> fst ` set ts" unfolding eq using that by simp
    then show ?thesis by auto
  qed
  show dist: "distinct (map uf_Sha256 (map fst ts))" if "distinct (map uf_Sha256 fs)"
    using that unfolding assms by (rule distinct_map_filter)
  show "distinct (map (file_key lot) (map fst ts))" if "distinct (map uf_Sha256 fs)" and "\<And>f. f \<in> set fs \<Longrightarrow> lower_sha (uf_Sha256 f)"
    using dist [OF that(1)] by (rule keys_distinct) (use that(2) eq in auto)
qed

lemma generateS3UploadUrl_succeeds:
  assumes ok: "outside_ok env" and wf: "db_wf (w_db w)" and fs: "\<And>f. f \<in> set fs \<Longrightarrow> servable f"
    and dist: "distinct (map uf_Sha256 fs)" and lot: "lot \<in> lot_ids (w_db w)"
    and old: "\<And>f. f \<in> set fs \<Longrightarrow> can_resume lot (w_db w) f"
  shows "\<exists>us w'. generateS3UploadUrl env st lot fs w = (Ret us, w')"
proof -
  obtain ts us1 w1 where ts: "map fst ts = filter (\<lambda>f. \<not> is_single f) fs" and g: "grown (w_db w) (w_db w1)"
    and same: "\<forall>t \<in> set ts. find_pending (file_key lot (fst t)) (attempts (w_db w1)) = find_pending (file_key lot (fst t)) (attempts (w_db w))"
    and eq: "generateS3UploadUrl env st lot fs w =
      bindp (if ts \<noteq> [] then createMultipartPresignedFileUrl env st lot (multi_data ts) else liftp (Ret []))
        (\<lambda>us2. liftp (Ret (us1 @ us2))) w1"
    using generateS3UploadUrl_front [OF ok wf fs dist lot] by blast
  note large = large_files [OF ts]
  have "\<exists>us2 w2. createMultipartPresignedFileUrl env st lot (multi_data ts) w1 = (Ret us2, w2)"
  proof (rule createMultipart_succeeds [OF ok])
    show "sha_text (uf_Sha256 (fst t))" if "t \<in> set ts" for t using fs large(1) [OF that] by (simp add: servable_def lower_sha_text)
    show "distinct (map (file_key lot) (map fst ts))" using large(4) [OF dist] fs by (simp add: servable_def)
    show "db_wf (w_db w1)" using g by (simp add: grown_def)
    show "lot \<in> lot_ids (w_db w1)" using grown_lot_ids [OF g] lot by blast
    show "resumable a" if "t \<in> set ts" and "find_pending (file_key lot (fst t)) (attempts (w_db w1)) = Some a" for t a
      using old [of "fst t"] large(1) [OF that(1)] same that by (auto simp: can_resume_def)
  qed
  then obtain us2 w2 where "createMultipartPresignedFileUrl env st lot (multi_data ts) w1 = (Ret us2, w2)" by blast
  then show ?thesis unfolding eq by simp
qed

lemma generateS3UploadUrl_panics:
  assumes ok: "outside_ok env" and wf: "db_wf (w_db w)" and fs: "\<And>f. f \<in> set fs \<Longrightarrow> servable f"
    and dist: "distinct (map uf_Sha256 fs)" and lot: "lot \<in> lot_ids (w_db w)"
    and old: "\<And>a. a \<in> set (attempts (w_db w)) \<Longrightarrow> listable a"
    and f: "f \<in> set fs" "\<not> is_single f" and a: "find_pending (file_key lot f) (attempts (w_db w)) = Some a" "at_UploadID a = None"
  shows "\<exists>w'. generateS3UploadUrl env st lot fs w = (Panic nil_deref, w')"
proof -
  obtain ts us1 w1 where ts: "map fst ts = filter (\<lambda>f. \<not> is_single f) fs" and g: "grown (w_db w) (w_db w1)"
    and same: "\<forall>t \<in> set ts. find_pending (file_key lot (fst t)) (attempts (w_db w1)) = find_pending (file_key lot (fst t)) (attempts (w_db w))"
    and eq: "generateS3UploadUrl env st lot fs w =
      bindp (if ts \<noteq> [] then createMultipartPresignedFileUrl env st lot (multi_data ts) else liftp (Ret []))
        (\<lambda>us2. liftp (Ret (us1 @ us2))) w1"
    using generateS3UploadUrl_front [OF ok wf fs dist lot] by blast
  note large = large_files [OF ts]
  obtain t where t: "t \<in> set ts" "fst t = f" using large(2) [OF f] by blast
  have "\<exists>w2. createMultipartPresignedFileUrl env st lot (multi_data ts) w1 = (Panic nil_deref, w2)"
  proof (rule createMultipart_panics [OF ok])
    show "sha_text (uf_Sha256 (fst u))" if "u \<in> set ts" for u using fs large(1) [OF that] by (simp add: servable_def lower_sha_text)
    show "distinct (map (file_key lot) (map fst ts))" using large(4) [OF dist] fs by (simp add: servable_def)
    show "db_wf (w_db w1)" using g by (simp add: grown_def)
    show "lot \<in> lot_ids (w_db w1)" using grown_lot_ids [OF g] lot by blast
    show "listable b" if "u \<in> set ts" and "find_pending (file_key lot (fst u)) (attempts (w_db w1)) = Some b" for u b
      using old [of b] same that by (auto dest: find_pending_SomeD)
    show "find_pending (file_key lot (fst t)) (attempts (w_db w1)) = Some a" using a t same by auto
  qed (use t a in auto)
  then obtain w2 where "createMultipartPresignedFileUrl env st lot (multi_data ts) w1 = (Panic nil_deref, w2)" by blast
  moreover have "ts \<noteq> []" using t by auto
  ultimately show ?thesis unfolding eq by (simp add: bindp_def)
qed

text \<open>The request up to the files that are not stored.\<close>

lemma upload_body_front:
  assumes ok: "outside_ok env" and wf: "db_wf (w_db w)" and fs: "\<And>f. f \<in> set fs \<Longrightarrow> servable f"
    and lot: "lot \<in> lot_ids (w_db w)"
  shows "\<exists>need already w1. upload_body env st lot (fst (intentBatchUpload fs)) w =
      bindp (generateS3UploadUrl env st lot need) (\<lambda>us. liftp (Ret (already, us))) w1 \<and>
    distinct (map uf_Sha256 need) \<and> set need = {f \<in> set (fresh_files {} fs). \<not> stored (w_db w) f} \<and>
    db_wf (w_db w1) \<and> lot \<in> lot_ids (w_db w1) \<and> attempts (w_db w1) = attempts (w_db w)"
proof -
  let ?files = "fresh_files {} fs"
  have files: "fst (intentBatchUpload fs) = ?files" by (simp add: intentBatchUpload_eq)
  have fdist: "distinct (map uf_Sha256 ?files)" by (rule fresh_distinct)
  have fsha: "\<And>f. f \<in> set ?files \<Longrightarrow> lower_sha (uf_Sha256 f)" using fs fresh_subset by (auto simp: servable_def)
  obtain need already w1 where skip: "skipUploadForIdenticalImageBlobs env ?files lot w = (Ret (need, already), w1)"
    using skip_succeeds [OF ok lower_sha_text [OF fsha] lot] by force
  note sk = skip_Ret [OF fsha fdist outside_okD(6) [OF ok] skip]
  have g: "grown (w_db w) (w_db w1)" by (rule keepsD [OF keeps_skip _ skip]) (rule grown_refl [OF wf])
  have "distinct (map uf_Sha256 (filter (\<lambda>f. \<not> stored (w_db w) f) ?files))" using fdist by (rule distinct_map_filter)
  moreover have "mset (map uf_Sha256 need) = mset (map uf_Sha256 (filter (\<lambda>f. \<not> stored (w_db w) f) ?files))"
    using sk(1) by (simp only: mset_map)
  ultimately have "distinct (map uf_Sha256 need)" using mset_eq_imp_distinct_iff by blast
  moreover have "set need = {f \<in> set ?files. \<not> stored (w_db w) f}" using mset_eq_setD [OF sk(1)] by simp
  moreover have "upload_body env st lot ?files w = bindp (generateS3UploadUrl env st lot need) (\<lambda>us. liftp (Ret (already, us))) w1"
    using skip by (simp add: upload_body_def)
  moreover have "db_wf (w_db w1)" and "lot \<in> lot_ids (w_db w1)" using g grown_lot_ids [OF g] lot by (auto simp: grown_def)
  ultimately show ?thesis unfolding files using sk(3) by blast
qed

lemma initiateUpload_succeeds:
  assumes ok: "outside_ok env" and wf: "db_wf (w_db w)" and fs: "\<And>f. f \<in> set fs \<Longrightarrow> servable f"
    and lotId: "uuid_Parse lotId = Inr lot" and lot: "lot \<in> lot_ids (w_db w)"
    and old: "\<And>f. f \<in> set fs \<Longrightarrow> can_resume lot (w_db w) f"
  shows "\<exists>res w'. initiateUpload env (Some store) fs lotId w = (Ret res, w')"
proof -
  let ?body = "upload_body env (is_s3Storage store) lot (fst (intentBatchUpload fs))"
  obtain need already w1 where eq: "?body w = bindp (generateS3UploadUrl env (is_s3Storage store) lot need) (\<lambda>us. liftp (Ret (already, us))) w1"
    and ndist: "distinct (map uf_Sha256 need)" and need: "set need = {f \<in> set (fresh_files {} fs). \<not> stored (w_db w) f}"
    and w1: "db_wf (w_db w1)" "lot \<in> lot_ids (w_db w1)" "attempts (w_db w1) = attempts (w_db w)"
    using upload_body_front [OF ok wf fs lot] by blast
  have sub: "f \<in> set fs" if "f \<in> set need" for f using that need fresh_subset by blast
  have "\<exists>us w2. generateS3UploadUrl env (is_s3Storage store) lot need w1 = (Ret us, w2)"
  proof (rule generateS3UploadUrl_succeeds [OF ok w1(1) _ ndist w1(2)])
    show "servable f" if "f \<in> set need" for f using that sub fs by blast
    show "can_resume lot (w_db w1) f" if "f \<in> set need" for f
      using old [OF sub [OF that]] by (simp add: can_resume_def w1(3))
  qed
  then obtain us w2 where "generateS3UploadUrl env (is_s3Storage store) lot need w1 = (Ret us, w2)" by blast
  then have body: "?body w = (Ret (already, us), w2)" unfolding eq by simp
  have "in_tx env begin_failure commit_failure ?body w = (Ret (already, us), w2)"
    unfolding in_tx_Ret_iff using body outside_okD(2,3) [OF ok] by blast
  then show ?thesis using lotId by (simp add: initiateUpload_def case_prod_beta)
qed

end
