(* ===== verification/Sample_World.thy ===== *)
theory Sample_World
  imports Service_Laws Upload_Success
begin

text \<open>
  A small concrete world, on which the properties are applied: a database with one lot, one stored blob
  and the pending attempts left by earlier requests, an object store that answers every call, and a
  server in front of them.
\<close>

definition sample_lot_id :: uuid where
  "sample_lot_id = replicate 16 1"

definition sample_lot_text :: string where
  "sample_lot_text = ''01010101-0101-0101-0101-010101010101''"

definition sample_sha :: "char \<Rightarrow> string" where
  "sample_sha c = replicate 64 c"

definition sample_image :: "char \<Rightarrow> uint64 \<Rightarrow> ImageFile" where
  "sample_image c n = \<lparr>if_Sha256 = Some (sample_sha c), if_FileName = Some ''a.jpg'', if_ClientFileId = Some 7,
     if_FileSize = Some n\<rparr>"

definition sample_sql_env :: sql_env where
  "sample_sql_env = \<lparr>txn_now = 0, gen_random_uuid = (\<lambda>n. replicate 15 2 @ [word_of_nat n])\<rparr>"

definition sample_request :: PresignedHTTPRequest where
  "sample_request = \<lparr>ph_URL = ''https://store'', ph_Method = ''PUT'', ph_SignedHeader = Map.empty\<rparr>"

definition sample_s3 :: "unit s3_api" where
  "sample_s3 = \<lparr>CreateMultipartUpload = (\<lambda>b k s. (Inr (Some ''up''), s)),
     ListParts = (\<lambda>i s. (Inr [\<lparr>s3p_ETag = Some ''e1'', s3p_PartNumber = Some 1\<rparr>], s)),
     CompleteMultipartUpload = (\<lambda>i s. (Inr (), s)),
     PresignPutObject = (\<lambda>i s. (Inr sample_request, s)), PresignUploadPart = (\<lambda>i s. (Inr sample_request, s))\<rparr>"

definition sample_env :: "unit env" where
  "sample_env = \<lparr>e_faults = (\<lambda>_. None), e_sql = sample_sql_env, e_begin = None, e_commit = CommitOk,
     e_rand = (\<lambda>n. Inr (replicate 16 (word_of_nat n))), e_range = (\<lambda>ks. ks), e_s3 = sample_s3\<rparr>"

definition sample_attempt :: ImageBlobUploadAttempt where
  "sample_attempt = \<lparr>at_ID = 1, at_Sha256 = replicate 32 0xcc, at_FileSize = 157286400, at_ContentType = ''image/jpeg'',
     at_UploadType = MultiUpload, at_UploadID = Some ''old'', at_PartSize = Some 157286400, at_PartCount = Some 1,
     at_LotID = sample_lot_id, at_FileName = Some ''c.jpg'', at_StorageKey = replicate 16 3, at_Username = ''u'',
     at_UploadState = Pending, at_Version = 0, at_ValidUntil = Some 10, at_Verified = Some False\<rparr>"

definition sample_db :: db where
  "sample_db = \<lparr>lots = [\<lparr>lot_ID = sample_lot_id, lot_Title = ''t'', lot_Description = ''d'', lot_Category = Some ''c'',
       lot_BidOpeningPrice = None\<rparr>],
     image_blobs = [\<lparr>ib_ImageBlobID = 1, ib_Sha256 = replicate 32 0xbb, ib_ContentType = ''image/jpeg'', ib_S3Key = ''k'',
       ib_IsUploadCompleted = True\<rparr>],
     lot_images = [], attempts = [sample_attempt], lot_image_seq = 1, attempt_seq = 2, uuid_ctr = 0\<rparr>"

definition sample_world :: "unit world" where
  "sample_world = \<lparr>w_db = sample_db, w_s3 = (), w_rand = 0\<rparr>"

definition sample_store :: ImageStore where
  "sample_store = \<lparr>is_s3Storage = \<lparr>bucketName = access_point\<rparr>\<rparr>"

fun insert_by :: "('a \<Rightarrow> 'a \<Rightarrow> int) \<Rightarrow> 'a \<Rightarrow> 'a list \<Rightarrow> 'a list" where
  "insert_by cmp x [] = [x]"
| "insert_by cmp x (y # ys) = (if cmp y x < 0 then y # insert_by cmp x ys else x # y # ys)"

definition sample_sort :: "'a sort_func" where
  "sample_sort cmp xs = foldr (insert_by cmp) xs []"

definition sample_server :: server where
  "sample_server = \<lparr>sv_validator = Some (\<lambda>_. Valid), sv_validate = (\<lambda>_. None), sv_any_new = (\<lambda>_. None),
     sv_imageStore = Some sample_store, sv_sort = sample_sort\<rparr>"

lemmas sample_defs = sample_lot_id_def sample_lot_text_def sample_sha_def sample_image_def sample_sql_env_def
  sample_request_def sample_s3_def sample_env_def sample_attempt_def sample_db_def sample_world_def sample_store_def
  sample_server_def

section \<open>The sample is within the properties' hypotheses\<close>

lemma sample_sort_ok: "sort_ok sample_sort"
proof -
  have "mset (sample_sort cmp xs) = mset xs \<and> sorted (map key (sample_sort cmp xs))"
    if cmp: "\<forall>a b. cmp a b < 0 \<longleftrightarrow> key a < key b" for cmp :: "'a \<Rightarrow> 'a \<Rightarrow> int" and key :: "'a \<Rightarrow> int" and xs
  proof -
    have "insert_by cmp x ys = insort_key key x ys" for x ys using cmp by (induction ys) auto
    then have "insert_by cmp = insort_key key" by (simp add: fun_eq_iff)
    then have "sample_sort cmp xs = sort_key key xs" by (simp add: sample_sort_def sort_key_def)
    then show ?thesis by simp
  qed
  then show ?thesis unfolding sort_ok_def by blast
qed

lemma sample_server_sort: "sort_ok (sv_sort sample_server)"
  using sample_sort_ok by (simp add: sample_server_def)

lemma sample_parse: "uuid_Parse sample_lot_text = Inr sample_lot_id"
  unfolding sample_lot_text_def sample_lot_id_def by code_simp

lemma sample_lower_sha: "c \<in> set ''abc'' \<Longrightarrow> lower_sha (sample_sha c)"
  by (auto simp: lower_sha_def sample_sha_def lower_hex_def hex_val_def ascii_lower_def)

lemma sample_db_wf: "db_wf sample_db"
  by (simp add: db_wf_def sample_db_def attempts_wf_def sample_attempt_def lot_ids_def is_pending_def
      gen_part_count_def sdiv_nonneg)

lemma sample_world_wf: "db_wf (w_db sample_world)"
  using sample_db_wf by (simp add: sample_world_def)

lemma sample_outside: "outside_ok sample_env"
  by (simp add: outside_ok_def sample_env_def random_ok_def range_ok_def sample_s3_def answers_def)

lemma sample_lot: "sample_lot_id \<in> lot_ids (w_db sample_world)"
  by (simp add: sample_world_def sample_db_def lot_ids_def)

lemma sample_good_image: "c \<in> set ''abc'' \<Longrightarrow> good_image (sample_image c n)"
  by (simp add: good_image_def complete_image_def sample_image_def sample_lower_sha)

lemma sample_servable: "c \<in> set ''abc'' \<Longrightarrow> servable (upload_of (sample_image c n))"
  by (simp add: servable_def name_fits_def upload_of_def sample_image_def sample_lower_sha rune_count_def)

lemma sample_can_resume: "can_resume sample_lot_id (w_db sample_world) f"
  by (simp add: can_resume_def find_pending_def sample_world_def sample_db_def sample_attempt_def resumable_def partSize_def)

text \<open>
  A request of four images: a small new one, one that is stored already, a large one with a pending
  attempt from an earlier request, and a repetition of the first.
\<close>

definition sample_images :: "ImageFile list" where
  "sample_images = [sample_image CHR ''a'' 100, sample_image CHR ''b'' 5, sample_image CHR ''c'' 157286400,
     sample_image CHR ''a'' 7]"

lemma sample_images_good: "m \<in> set sample_images \<Longrightarrow> good_image m"
  using sample_good_image by (auto simp: sample_images_def)

lemma sample_images_servable: "m \<in> set sample_images \<Longrightarrow> servable (upload_of m)"
  using sample_servable by (auto simp: sample_images_def)

lemma sample_upload_run:
  "\<exists>res w'. initiateUpload sample_env (Some sample_store) (map upload_of sample_images) sample_lot_text sample_world = (Ret res, w')"
  by (rule initiateUpload_succeeds [OF sample_outside sample_world_wf _ sample_parse sample_lot sample_can_resume])
    (use sample_images_servable in auto)

text \<open>The same world with a connection that fails on the first statement of an upload request.\<close>

definition broken_env :: "unit env" where
  "broken_env = sample_env\<lparr>e_faults := (\<lambda>q. if q = QInsertIdentical then Some (errors_New ''conn closed'') else None)\<rparr>"

lemma broken_commit: "e_commit broken_env = CommitOk"
  by (simp add: broken_env_def sample_env_def)

lemma broken_upload_run:
  "\<exists>e. initiateUpload broken_env (Some sample_store) fs sample_lot_text sample_world = (Fail e, sample_world)"
proof -
  have "on_db (InsertIdenticalImageBlobsToLotImages (e_faults broken_env) p) sample_world = (Fail (errors_New ''conn closed''), sample_world)" for p
    by (simp add: on_db_def InsertIdenticalImageBlobsToLotImages_def run_query_def broken_env_def)
  then obtain e where body: "upload_body broken_env (is_s3Storage sample_store) sample_lot_id (fst (intentBatchUpload fs)) sample_world
      = (Fail e, sample_world)"
    by (simp add: upload_body_def skipUploadForIdenticalImageBlobs_def Let_def on_error_def bindp_def)
  have "in_tx broken_env begin_failure commit_failure
      (upload_body broken_env (is_s3Storage sample_store) sample_lot_id (fst (intentBatchUpload fs))) sample_world = (Fail e, sample_world)"
    using body by (simp add: in_tx_def rollback_to_def rolled_back_def broken_env_def sample_env_def)
  then show ?thesis by (simp add: initiateUpload_def case_prod_beta sample_parse)
qed

text \<open>Requests of the other two services.\<close>

definition sample_lot_msg :: LotMsg where
  "sample_lot_msg = \<lparr>lm_LotTitle = Some ''title'', lm_Description = Some ''text'', lm_Category = None, lm_BidOpeningPrice = Some 5\<rparr>"

definition sample_part :: PartEtag where
  "sample_part = \<lparr>pe_Etag = Some ''e1'', pe_Part = Some 1\<rparr>"

lemma sample_accepts: "accepts sample_server m"
  by (simp add: accepts_def sample_server_def)

lemma sample_create_hyps:
  "sv_validate sample_server (lot_request sample_lot_msg) = None" "lm_LotTitle sample_lot_msg \<noteq> None"
  "lm_Description sample_lot_msg \<noteq> None" "lot_fits sample_lot_msg" "e_faults sample_env QCreateLot = None"
  "gen_random_uuid (e_sql sample_env) (uuid_ctr (w_db sample_world)) = replicate 15 2 @ [0]"
  "replicate 15 2 @ [0] \<notin> lot_ids (w_db sample_world)"
  by (simp_all add: sample_defs sample_lot_msg_def lot_fits_def rune_count_def lot_ids_def numeral_eq_Suc)

lemma sample_complete_hyps:
  "p \<in> set [sample_part] \<Longrightarrow> pe_Part p \<noteq> None" "sv_imageStore sample_server = Some sample_store"
  "e_faults sample_env q = None" "find (\<lambda>a. at_ID a = sint (1 :: goint)) (attempts (w_db sample_world)) = Some sample_attempt"
  "at_PartCount sample_attempt = Some 1"
  "ListParts (e_s3 sample_env) i (w_s3 sample_world) = (Inr [\<lparr>s3p_ETag = Some ''e1'', s3p_PartNumber = Some 1\<rparr>], ())"
  "a \<in> set (attempts (w_db sample_world)) \<Longrightarrow> at_ID a \<noteq> sint (99 :: goint)"
  by (auto simp: sample_defs sample_part_def)

lemma sample_not_found:
  "serve sample_env sample_server (CallCompleteMultiPartUpload (Inr (complete_request 99 [sample_part]))) sample_world =
     (Fail (Leaf (Status (status_New NotFound (''multipart attempt Id '' @ itoa (sint (99 :: goint)) @ '' could not be found'')))), sample_world)"
  by (rule serve_complete_not_found [OF sample_accepts sample_complete_hyps(1-3,7)])

end
