(* ===== verification/Upload_Properties.thy ===== *)
theory Upload_Properties
  imports Sample_World
begin

text \<open>
  The properties of the upload request: that it succeeds, what its response says of the images of the
  message, what its URLs are for, and that a request that fails leaves no trace in the tables.
\<close>

section \<open>The whole request\<close>

text \<open>C1: when nothing outside fails, the lot exists, every image has all its fields, a lower-case SHA-256 and a name
  that fits its column, and a large one can go on with the pending attempt of its hash and lot, if there is one (the attempt has an
  upload id and a part size that is large enough), then \<open>GeneratePresignedUrl\<close> answers; its response lists every image of the message
  exactly once, as a duplicate, as already uploaded or with a presigned URL, and no hash appears twice
  among the last two.\<close>

theorem upload_request_succeeds:
  assumes "outside_ok env" and "db_wf (w_db w)" and "uuid_Parse lotId = Inr lot" and "lot \<in> lot_ids (w_db w)"
    and "\<And>m. m \<in> set ms \<Longrightarrow> good_image m \<and> servable (upload_of m) \<and> can_resume lot (w_db w) (upload_of m)"
  shows "\<exists>ds as ps w'. GeneratePresignedUrl env (Some store) (upload_request ms lotId) w =
      (Ret (Some (upload_response ds as ps)), w') \<and>
    mset ds + mset as + mset (map presigned_image ps) = mset ms \<and>
    distinct (map if_Sha256 (as @ map presigned_image ps))"
proof -
  have good: "\<And>m. m \<in> set ms \<Longrightarrow> good_image m" using assms(5) by simp
  have files: "\<And>f. f \<in> set (map upload_of ms) \<Longrightarrow> servable f \<and> can_resume lot (w_db w) f" using assms(5) by auto
  obtain res w' where run: "initiateUpload env (Some store) (map upload_of ms) lotId w = (Ret res, w')"
    using initiateUpload_succeeds [OF assms(1,2) _ assms(3,4)] files by blast
  show ?thesis using GeneratePresignedUrl_after [OF assms(2) outside_okD(4,6) [OF assms(1)] good run] by blast
qed

theorem upload_request_succeeds_witness:
  "\<exists>ds as ps w'. GeneratePresignedUrl sample_env (Some sample_store) (upload_request sample_images sample_lot_text) sample_world =
      (Ret (Some (upload_response ds as ps)), w') \<and>
    mset ds + mset as + mset (map presigned_image ps) = mset sample_images \<and>
    distinct (map if_Sha256 (as @ map presigned_image ps))"
  by (rule upload_request_succeeds [OF sample_outside sample_world_wf sample_parse sample_lot])
    (simp add: sample_images_good sample_images_servable sample_can_resume)

text \<open>C10: whatever the outside does, a response of \<open>GeneratePresignedUrl\<close> to images with lower-case
  SHA-256 hashes is never partial: it covers the images of the message exactly once.\<close>

theorem upload_response_complete:
  assumes "db_wf (w_db w)" and "random_ok env" and "range_ok env" and "\<And>m. m \<in> set ms \<Longrightarrow> good_image m"
    and "GeneratePresignedUrl env store (upload_request ms lotId) w = (Ret r, w')"
  shows "\<exists>ds as ps. r = Some (upload_response ds as ps) \<and>
    mset ds + mset as + mset (map presigned_image ps) = mset ms \<and>
    distinct (map if_Sha256 (as @ map presigned_image ps))"
proof -
  have "\<And>m. m \<in> set ms \<Longrightarrow> complete_image m" using assms(4) by (simp add: good_image_def)
  then have "GeneratePresignedUrl env store (upload_request ms lotId) = bindp (initiateUpload env store (map upload_of ms) lotId) upload_reply"
    by (rule GeneratePresignedUrl_upload_request)
  with assms(5) obtain res w1 where "initiateUpload env store (map upload_of ms) lotId w = (Ret res, w1)"
    by (auto simp: bindp_Ret_iff)
  from GeneratePresignedUrl_after [OF assms(1-4) this] assms(5) show ?thesis by auto
qed

theorem upload_response_complete_witness:
  "\<exists>ds as ps w'. GeneratePresignedUrl sample_env (Some sample_store) (upload_request sample_images sample_lot_text) sample_world
      = (Ret (Some (upload_response ds as ps)), w') \<and>
    mset ds + mset as + mset (map presigned_image ps) = mset sample_images \<and>
    distinct (map if_Sha256 (as @ map presigned_image ps))"
proof -
  obtain res w1 where "initiateUpload sample_env (Some sample_store) (map upload_of sample_images) sample_lot_text sample_world = (Ret res, w1)"
    using sample_upload_run by blast
  from GeneratePresignedUrl_after [OF sample_world_wf outside_okD(4,6) [OF sample_outside] sample_images_good this]
  obtain r w' where "GeneratePresignedUrl sample_env (Some sample_store) (upload_request sample_images sample_lot_text) sample_world = (Ret r, w')"
    by blast
  from upload_response_complete [OF sample_world_wf outside_okD(4,6) [OF sample_outside] sample_images_good this] this
  show ?thesis by auto
qed

text \<open>C2: a successful \<open>initiateUpload\<close> of files whose hashes are SHA-256 in lower case meets
  its specification \<open>upload_done\<close>: the stored files are linked to the lot, and every other file has a pending attempt in the database and a URL that the
  presigner made for the storage key (and the upload id and the missing parts) of that attempt.\<close>

theorem initiate_upload_refines:
  assumes "db_wf (w_db w)" and "random_ok env" and "range_ok env" and "\<And>f. f \<in> set fs \<Longrightarrow> lower_sha (uf_Sha256 f)"
    and "initiateUpload env store fs lotId w = (Ret res, w')"
  shows "\<exists>lot s. uuid_Parse lotId = Inr lot \<and> store = Some s \<and>
    upload_done env (is_s3Storage s) lot (w_db w) (w_db w') fs res"
  using assms by (rule initiateUpload_Ret)

theorem initiate_upload_refines_witness:
  "\<exists>lot res w'. initiateUpload sample_env (Some sample_store) (map upload_of sample_images) sample_lot_text sample_world = (Ret res, w') \<and>
    upload_done sample_env (is_s3Storage sample_store) lot (w_db sample_world) (w_db w') (map upload_of sample_images) res"
proof -
  obtain res w' where run: "initiateUpload sample_env (Some sample_store) (map upload_of sample_images) sample_lot_text sample_world = (Ret res, w')"
    using sample_upload_run by blast
  have "\<And>f. f \<in> set (map upload_of sample_images) \<Longrightarrow> lower_sha (uf_Sha256 f)"
    using sample_images_servable by (auto simp: servable_def)
  from initiate_upload_refines [OF sample_world_wf outside_okD(4,6) [OF sample_outside] this run] run
  show ?thesis by auto
qed

text \<open>C9: a \<open>GeneratePresignedUrl\<close> of images that have all their fields and lower-case SHA-256 hashes, when it fails or
  panics, leaves every table as it was, unless the commit reached the database and only its answer was lost.\<close>

theorem upload_request_atomic:
  assumes "db_wf (w_db w)" and "random_ok env" and "range_ok env" and "\<And>m. m \<in> set ms \<Longrightarrow> good_image m"
    and "GeneratePresignedUrl env store (upload_request ms lotId) w = (r, w')" and "\<And>a. r \<noteq> Ret a"
  shows "same_tables (w_db w) (w_db w') \<or> (\<exists>e. e_commit env = CommitLost e)"
  using assms by (rule GeneratePresignedUrl_atomic)

theorem upload_request_atomic_witness:
  "\<exists>e w'. GeneratePresignedUrl broken_env (Some sample_store) (upload_request sample_images sample_lot_text) sample_world = (Fail e, w') \<and>
     same_tables (w_db sample_world) (w_db w')"
proof -
  have ok: "random_ok broken_env" "range_ok broken_env"
    using sample_outside by (simp_all add: outside_ok_def broken_env_def random_ok_def range_ok_def)
  obtain e where "initiateUpload broken_env (Some sample_store) (map upload_of sample_images) sample_lot_text sample_world = (Fail e, sample_world)"
    using broken_upload_run by blast
  then have run: "GeneratePresignedUrl broken_env (Some sample_store) (upload_request sample_images sample_lot_text) sample_world = (Fail e, sample_world)"
    using sample_images_good by (simp add: GeneratePresignedUrl_upload_request good_image_def)
  have "same_tables (w_db sample_world) (w_db sample_world) \<or> (\<exists>e. e_commit broken_env = CommitLost e)"
    by (rule upload_request_atomic [OF sample_world_wf ok sample_images_good run]) simp_all
  with run broken_commit show ?thesis by auto
qed

end
