(* ===== verification/Server_Properties.thy ===== *)
theory Server_Properties
  imports Sample_World
begin

text \<open>
  The properties of the server: what any run of it keeps of the database, what the chain of
  interceptors answers, and the services for lots and for completing an upload from the decoded message to the status.
\<close>

section \<open>Runs of the server\<close>

text \<open>C5: in any run of the server, whatever requests come and whatever the outside answers, the database
  stays well formed, and nothing it held is lost: lots and links are only added, blobs are
  left alone, and every upload attempt keeps its identity.\<close>

theorem server_keeps_database:
  assumes "server_run sv s s'" and "db_wf (w_db (world_of s))"
  shows "db_wf (w_db (world_of s')) \<and> history (w_db (world_of s)) (w_db (world_of s'))"
  using server_run_grown [OF assms] by (simp add: grown_def)

theorem server_keeps_database_witness:
  "\<exists>s'. server_run sample_server (Up sample_world) s' \<and> lots (w_db (world_of s')) \<noteq> lots sample_db \<and>
     db_wf (w_db (world_of s')) \<and> history sample_db (w_db (world_of s'))"
proof -
  note created = serve_create_lot [OF sample_accepts sample_create_hyps]
  let ?s' = "Up (snd (serve sample_env sample_server (CallCreateLot (Inr (lot_request sample_lot_msg))) sample_world))"
  have "server_step sample_server (Up sample_world) ?s'"
    unfolding created snd_conv by (rule server_step.answered [OF created]) simp
  then have run: "server_run sample_server (Up sample_world) ?s'" by blast
  have "db_wf (w_db (world_of (Up sample_world)))" using sample_world_wf by simp
  from server_keeps_database [OF run this]
  have "db_wf (w_db (world_of ?s')) \<and> history sample_db (w_db (world_of ?s'))" by (simp add: sample_world_def)
  moreover have "lots (w_db (world_of ?s')) \<noteq> lots sample_db"
    unfolding created by (simp add: sample_world_def)
  ultimately show ?thesis using run by blast
qed

text \<open>C21: an error that leaves the server for a decoded request is always a gRPC status.\<close>

theorem errors_are_statuses:
  assumes "serve env sv call w = (Fail e, w')" and "decoded call = Inr m"
  shows "status_FromError_ok (Some e)"
  using assms by (rule serve_status)

theorem errors_are_statuses_witness:
  "\<exists>e. serve sample_env sample_server (CallCompleteMultiPartUpload (Inr (complete_request 99 [sample_part]))) sample_world = (Fail e, sample_world) \<and>
     status_FromError_ok (Some e)"
  using errors_are_statuses [OF sample_not_found] sample_not_found by (simp del: serve.simps status_FromError_ok.simps)

text \<open>C29: a message that breaks a validation rule never reaches a service: the world is as it was, and the
  client gets \<open>InvalidArgument\<close> with one field violation for each broken rule.\<close>

theorem invalid_message_refused:
  assumes "decoded call = Inr m" and "sv_validator sv = Some v" and "v m = ValidationError vs"
    and "sv_any_new sv (violations_detail vs) = None"
  shows "serve env sv call w = (Fail (Leaf (Status \<lparr>st_Code = InvalidArgument, st_Message = ''invalid request'',
    st_Details = [BadRequest (map (\<lambda>x. \<lparr>fv_Field = vi_Field x, fv_Description = vi_Message x\<rparr>) vs)]\<rparr>)), w)"
  using assms by (simp add: serve_eq invalid_request_def violations_detail_def del: serve.simps)

theorem invalid_message_refused_witness:
  "serve sample_env (sample_server\<lparr>sv_validator := Some (\<lambda>m. ValidationError [\<lparr>vi_Field = ''lot'', vi_Message = ''required''\<rparr>])\<rparr>)
     (CallCreateLot (Inr \<lparr>kq_Lot = None\<rparr>)) sample_world =
   (Fail (Leaf (Status \<lparr>st_Code = InvalidArgument, st_Message = ''invalid request'',
      st_Details = [BadRequest [\<lparr>fv_Field = ''lot'', fv_Description = ''required''\<rparr>]]\<rparr>)), sample_world)"
  by (subst invalid_message_refused [where m = "MsgCreateLot \<lparr>kq_Lot = None\<rparr>" and vs = "[\<lparr>vi_Field = ''lot'', vi_Message = ''required''\<rparr>]"])
    (simp_all add: sample_server_def)

text \<open>C40: when the validator could not be built and nothing else fails at start-up, the process serves all the same, and any
  request that can be decoded panics on the nil validator.\<close>

theorem nil_validator_panics:
  assumes "decoded call = Inr m"
  shows "\<exists>sv. main None (Connected c) None None (Inl e) validate any_new sort_parts = Serving sv \<and>
    serve env sv call w = (Panic nil_deref, w)"
  by (intro exI conjI, rule main_serves, rule serve_no_validator [OF _ assms]) simp

theorem nil_validator_panics_witness:
  "\<exists>sv. main None (Connected ()) None None (Inl (errors_New ''no validator'')) (\<lambda>_. None) (\<lambda>_. None) sample_sort = Serving sv \<and>
    serve sample_env sv (CallCreateLot (Inr (lot_request sample_lot_msg))) sample_world = (Panic nil_deref, sample_world)"
  by (rule nil_validator_panics) simp

section \<open>Completing a multipart upload\<close>

text \<open>C20: a completion request for a known attempt is answered by the number of parts that the object
  store lists: \<open>FailedPrecondition\<close> on the field \<open>parts\<close> when it is not the part count of the attempt, and success
  after one call of \<open>CompleteMultipartUpload\<close> when it is, with the client's parts, each once and in ascending order of their numbers, by
  the contract of \<open>slices.SortFunc\<close>.\<close>

theorem complete_upload_answer:
  assumes "sort_ok (sv_sort sv)" and "accepts sv (MsgCompleteMultiPartUpload (complete_request k es))" and "\<And>p. p \<in> set es \<Longrightarrow> pe_Part p \<noteq> None"
    and "sv_imageStore sv = Some store" and "e_faults env QGetItem = None"
    and "find (\<lambda>a. at_ID a = sint k) (attempts (w_db w)) = Some a" and "at_PartCount a = Some n"
    and "ListParts (e_s3 env) (list_input access_point a) (w_s3 w) = (Inr parts, t)"
  shows "\<exists>qs. mset qs = mset (map completed_part es) \<and> sorted (map part_number qs) \<and>
    serve env sv (CallCompleteMultiPartUpload (Inr (complete_request k es))) w =
     (if int (length parts) \<noteq> n
      then (Fail (Leaf (Status (precondition_status (sv_any_new sv) (parts_missing_details (sint k))))), w\<lparr>w_s3 := t\<rparr>)
      else (Ret (Some (RespCompleteMultiPartUpload upload_completed)),
        w\<lparr>w_s3 := snd (CompleteMultipartUpload (e_s3 env) (complete_input access_point a qs) t)\<rparr>))"
  by (intro exI conjI) (rule sorted_parts [OF assms(1)], rule sorted_parts [OF assms(1)], rule serve_complete_found [OF assms(2-)])

theorem complete_upload_answer_witness:
  "serve sample_env sample_server (CallCompleteMultiPartUpload (Inr (complete_request 1 [sample_part]))) sample_world =
     (Ret (Some (RespCompleteMultiPartUpload upload_completed)), sample_world)"
proof -
  note parts = sample_complete_hyps(1)
  from complete_upload_answer [OF sample_server_sort sample_accepts parts sample_complete_hyps(2-6), where es = "[sample_part]"]
  show ?thesis by (auto simp: sample_world_def simp del: serve.simps)
qed

text \<open>A completion request for an attempt that is not in the database is answered with \<open>NotFound\<close>, and
  the object store is not called.\<close>

theorem complete_unknown_attempt:
  assumes "accepts sv (MsgCompleteMultiPartUpload (complete_request k es))" and "\<And>p. p \<in> set es \<Longrightarrow> pe_Part p \<noteq> None"
    and "sv_imageStore sv = Some store" and "e_faults env QGetItem = None"
    and "\<And>a. a \<in> set (attempts (w_db w)) \<Longrightarrow> at_ID a \<noteq> sint k"
  shows "serve env sv (CallCompleteMultiPartUpload (Inr (complete_request k es))) w =
     (Fail (Leaf (Status (status_New NotFound (''multipart attempt Id '' @ itoa (sint k) @ '' could not be found'')))), w)"
  using assms by (rule serve_complete_not_found)

theorem complete_unknown_attempt_witness:
  "serve sample_env sample_server (CallCompleteMultiPartUpload (Inr (complete_request 99 [sample_part]))) sample_world =
     (Fail (Leaf (Status (status_New NotFound (''multipart attempt Id '' @ itoa (sint (99 :: goint)) @ '' could not be found'')))), sample_world)"
  by (rule complete_unknown_attempt [OF sample_accepts sample_complete_hyps(1-3,7)])

text \<open>C35: the outcome of a completion does not depend on what \<open>CompleteMultipartUpload\<close> answers: its error is
  built and dropped, so a client can be told \<open>Upload Completed\<close> when the object store refused.\<close>

theorem completion_error_dropped:
  "fst (completeMultiPartUpload (with_completion env c) sort_parts store k b ps w) =
   fst (completeMultiPartUpload env sort_parts store k b ps w)"
  by (rule completion_unread)

section \<open>Creating a lot\<close>

text \<open>C30: a valid lot whose texts fit their columns is added as it was sent, under a new id, and the
  response carries that id as text.\<close>

theorem create_lot_answer:
  assumes "accepts sv (MsgCreateLot (lot_request m))" and "sv_validate sv (lot_request m) = None"
    and "lm_LotTitle m \<noteq> None" and "lm_Description m \<noteq> None" and "lot_fits m" and "e_faults env QCreateLot = None"
    and "gen_random_uuid (e_sql env) (uuid_ctr (w_db w)) = i" and "i \<notin> lot_ids (w_db w)"
  shows "serve env sv (CallCreateLot (Inr (lot_request m))) w =
    (Ret (Some (RespCreateLot \<lparr>ks_Success = Some True, ks_Message = Some ''Lot Created'', ks_LotId = Some (uuid_String i)\<rparr>)),
     w\<lparr>w_db := (w_db w)\<lparr>uuid_ctr := uuid_ctr (w_db w) + 1, lots := lots (w_db w) @ [lot_of m i]\<rparr>\<rparr>)"
  using assms by (rule serve_create_lot)

theorem create_lot_answer_witness:
  "fst (serve sample_env sample_server (CallCreateLot (Inr (lot_request sample_lot_msg))) sample_world) =
    Ret (Some (RespCreateLot \<lparr>ks_Success = Some True, ks_Message = Some ''Lot Created'',
      ks_LotId = Some (uuid_String (replicate 15 2 @ [0]))\<rparr>))"
  using create_lot_answer [OF sample_accepts sample_create_hyps] by (simp del: serve.simps)

end
