(* ===== verification/Upload_Refusal.thy ===== *)
theory Upload_Refusal
  imports Upload_Success Service_Laws
begin

text \<open>
  When an upload request is refused or breaks off: an unknown lot, a context that ends, and the one
  situation that makes it panic. A request for a lot that is not in the database fails at the first statement
  that writes a row for it, whatever the sizes of its files.
\<close>

section \<open>An unknown lot\<close>

lemma no_pending_for_unknown_lot: "db_wf d \<Longrightarrow> lot \<notin> lot_ids d \<Longrightarrow> find_pending (s, lot) (attempts d) = None"
  by (fastforce simp: find_pending_None_iff db_wf_def pending_key_def)

lemma stored_rows:
  assumes "\<And>f. f \<in> set fs \<Longrightarrow> lower_sha (uf_Sha256 f)"
  shows "\<exists>rs seq'. insert_identical d lot (map (\<lambda>f. (Some (uf_Sha256 f), Some (uf_FileName f))) fs) seq = (Inr rs, seq') \<and>
    (rs = [] \<longleftrightarrow> filter (stored d) fs = [])"
proof -
  have "\<exists>rs seq'. insert_identical d lot (map (\<lambda>f. (Some (uf_Sha256 f), Some (uf_FileName f))) fs) seq = (Inr rs, seq')"
    using assms by (intro insert_identical_succeeds lower_sha_text)
  then obtain rs seq' where run: "insert_identical d lot (map (\<lambda>f. (Some (uf_Sha256 f), Some (uf_FileName f))) fs) seq = (Inr rs, seq')"
    by auto
  have "list_all2 (\<lambda>f (img, row). links d lot f img \<and> ir_Sha256 row = uf_Sha256 f) (filter (stored d) fs) rs"
    using assms run by (rule insert_identical_Ret)
  then have "length (filter (stored d) fs) = length rs" by (rule list_all2_lengthD)
  then have "rs = [] \<longleftrightarrow> filter (stored d) fs = []" by (simp only: length_0_conv [symmetric])
  with run show ?thesis by blast
qed

definition skip_failure :: "err \<Rightarrow> err" where
  "skip_failure = storage_failure ''imagestore.skipUploadForIdenticalImageBlobs''
     ''insert identical image blob to log_images table failed:'' ''internal error''"

lemma skip_unknown_lot:
  assumes ok: "outside_ok env" and sha: "\<And>f. f \<in> set fs \<Longrightarrow> lower_sha (uf_Sha256 f)" and lot: "lot \<notin> lot_ids (w_db w)"
  shows "\<exists>r w'. skipUploadForIdenticalImageBlobs env fs lot w =
      (if filter (stored (w_db w)) fs = [] then Ret r else Fail (skip_failure (fk_violation ''lot_images'' lot_images_lot_fkey)), w') \<and>
    lots (w_db w') = lots (w_db w)"
proof -
  let ?p = "\<lparr>ip_LotID = lot, ip_Sha256s = map uf_Sha256 fs, ip_FileNames = map uf_FileName fs\<rparr>"
  obtain rs seq where ins: "insert_identical (w_db w) lot (map (\<lambda>f. (Some (uf_Sha256 f), Some (uf_FileName f))) fs)
      (lot_image_seq (w_db w)) = (Inr rs, seq)" and rs: "rs = [] \<longleftrightarrow> filter (stored (w_db w)) fs = []"
    using stored_rows [OF sha] by blast
  have "on_db (InsertIdenticalImageBlobsToLotImages (e_faults env) ?p) w =
     (if rs = [] then Ret [] else Fail (fk_violation ''lot_images'' lot_images_lot_fkey), w\<lparr>w_db := (w_db w)\<lparr>lot_image_seq := seq\<rparr>\<rparr>)"
    using lot ins by (simp add: InsertIdenticalImageBlobsToLotImages_def run_query_def sql_InsertIdenticalImageBlobsToLotImages_def
        identical_inputs_eq Let_def on_db_def outside_okD(1) [OF ok])
  then show ?thesis
    unfolding rs [symmetric] skip_failure_def
    by (cases "rs = []") (simp_all add: skipUploadForIdenticalImageBlobs_def Let_def on_error_def bindp_def)
qed

definition attempt_refused :: "err \<Rightarrow> bool" where
  "attempt_refused e \<longleftrightarrow> (\<exists>op what msg. e = storage_failure op what msg (fk_violation ''image_blob_upload_attempts'' attempts_lot_fkey))"

lemma createSingle_unknown_lot:
  assumes ok: "outside_ok env" and wf: "db_wf (w_db w)"
    and sha: "\<And>f. f \<in> set fs \<Longrightarrow> lower_sha (uf_Sha256 f) \<and> name_fits f"
    and dist: "distinct (map uf_Sha256 fs)" and lot: "lot \<notin> lot_ids (w_db w)" and fs: "fs \<noteq> []"
  shows "\<exists>e w'. createSinglePresignedFileUrl env st lot (single_data fs) w = (Fail e, w') \<and> attempt_refused e"
proof -
  obtain d where "sql_InsertSinglePartUpload (e_sql env) (single_params lot (single_data fs)) (w_db w) =
      (Fail (fk_violation ''image_blob_upload_attempts'' attempts_lot_fkey), d)"
    using single_statement_answer [OF wf _ keys_distinct [OF dist], where lot = lot and env = "e_sql env"] sha lower_sha_text lot fs by auto
  then show ?thesis
    by (auto simp: createSinglePresignedFileUrl_def Let_def on_error_def on_db_def InsertSinglePartUpload_def run_query_def
        bindp_def outside_okD(1) [OF ok] attempt_refused_def)
qed

lemma createMultipart_unknown_lot:
  assumes ok: "outside_ok env" and wf: "db_wf (w_db w)"
    and sha: "\<And>t. t \<in> set ts \<Longrightarrow> lower_sha (uf_Sha256 (fst t))"
    and dist: "distinct (map uf_Sha256 (map fst ts))" and lot: "lot \<notin> lot_ids (w_db w)" and ts: "ts \<noteq> []"
  shows "\<exists>e w'. createMultipartPresignedFileUrl env st lot (multi_data ts) w = (Fail e, w') \<and> attempt_refused e"
proof -
  have old: "listable old" if "find_pending (file_key lot (fst t)) (attempts (w_db w)) = Some old" for t :: started and old
    using no_pending_for_unknown_lot [OF wf lot] that by (simp add: file_key_def)
  have keys: "distinct (map (file_key lot) (map fst ts))" using dist by (rule keys_distinct) (use sha in auto)
  have "\<exists>rs d. sql_InsertAndValidateMultiPartUpload (e_sql env) (multi_params lot (multi_data ts)) (w_db w) =
      (if ts = [] \<or> lot \<in> lot_ids (w_db w) then Ret rs else Fail (fk_violation ''image_blob_upload_attempts'' attempts_lot_fkey), d)"
    using wf lower_sha_text [OF sha] keys old by (rule multi_statement_answer)
  with lot ts obtain d where "sql_InsertAndValidateMultiPartUpload (e_sql env) (multi_params lot (multi_data ts)) (w_db w) =
      (Fail (fk_violation ''image_blob_upload_attempts'' attempts_lot_fkey), d)"
    by auto
  then show ?thesis
    by (auto simp: createMultipartPresignedFileUrl_def Let_def on_error_def on_db_def InsertAndValidateMultiPartUpload_def
        run_query_def bindp_def outside_okD(1) [OF ok] attempt_refused_def)
qed

lemma generateS3UploadUrl_unknown_lot:
  assumes ok: "outside_ok env" and wf: "db_wf (w_db w)" and fs: "\<And>f. f \<in> set fs \<Longrightarrow> servable f"
    and dist: "distinct (map uf_Sha256 fs)" and lot: "lot \<notin> lot_ids (w_db w)" and some: "fs \<noteq> []"
  shows "\<exists>e w'. generateS3UploadUrl env st lot fs w = (Fail e, w') \<and> attempt_refused e"
proof -
  let ?fs = "filter is_single fs"
  obtain ex w0 where ext: "extractFileData env st fs w = (Ret ex, w0)"
    using answeringD [OF answering_extractFileData [OF ok]] by blast
  then obtain ts where ex: "ex = extracted ?fs ts" and ts: "map fst ts = filter (\<lambda>f. \<not> is_single f) fs" and db0: "w_db w0 = w_db w"
    using extractFileData_Ret [OF outside_okD(4) [OF ok]] by metis
  have sel: "ex_singleFile ex = single_data ?fs" "ex_multipartFile ex = multi_data ts" by (simp_all add: ex extracted_def)
  have sha: "\<And>f. f \<in> set fs \<Longrightarrow> lower_sha (uf_Sha256 f) \<and> name_fits f" using fs by (simp add: servable_def)
  show ?thesis
  proof (cases "?fs = []")
    case True
    have "\<And>f. f \<in> set (map fst ts) \<Longrightarrow> lower_sha (uf_Sha256 f)" using sha unfolding ts by simp
    then have tsha: "\<And>t. t \<in> set ts \<Longrightarrow> lower_sha (uf_Sha256 (fst t))" by simp
    have tdist: "distinct (map uf_Sha256 (map fst ts))" unfolding ts by (rule distinct_map_filter) (rule dist)
    have "map fst ts \<noteq> []" unfolding ts using True some by (auto simp: filter_empty_conv)
    then have "ts \<noteq> []" by simp
    from createMultipart_unknown_lot [OF ok _ tsha tdist _ this, where w = w0 and lot = lot and st = st] wf lot db0
    obtain e w' where "createMultipartPresignedFileUrl env st lot (multi_data ts) w0 = (Fail e, w')" "attempt_refused e" by auto
    with ext sel True \<open>ts \<noteq> []\<close> show ?thesis unfolding generateS3UploadUrl_def by (simp add: single_data_def multi_data_def bindp_def)
  next
    case False
    have "\<And>f. f \<in> set ?fs \<Longrightarrow> lower_sha (uf_Sha256 f) \<and> name_fits f" using sha by simp
    from createSingle_unknown_lot [OF ok _ this distinct_map_filter [OF dist] _ False, where w = w0 and lot = lot and st = st] wf lot db0
    obtain e w' where "createSinglePresignedFileUrl env st lot (single_data ?fs) w0 = (Fail e, w')" "attempt_refused e" by auto
    with ext sel False show ?thesis unfolding generateS3UploadUrl_def by (simp add: single_data_def bindp_def)
  qed
qed

section \<open>From the transaction to the status\<close>

lemma initiateUpload_body_fails:
  assumes "uuid_Parse lotId = Inr lot" and "e_begin env = None"
    and "upload_body env (is_s3Storage store) lot (fst (intentBatchUpload fs)) w = (Fail e, w1)"
  shows "initiateUpload env (Some store) fs lotId w = (Fail e, rollback_to (w_db w) w1)"
  using assms by (simp add: initiateUpload_def case_prod_beta in_tx_def bindp_def)

lemma initiateUpload_body_panics:
  assumes "uuid_Parse lotId = Inr lot" and "e_begin env = None"
    and "upload_body env (is_s3Storage store) lot (fst (intentBatchUpload fs)) w = (Panic p, w1)"
  shows "initiateUpload env (Some store) fs lotId w = (Panic p, rollback_to (w_db w) w1)"
  using assms by (simp add: initiateUpload_def case_prod_beta in_tx_def bindp_def)

lemma serve_upload:
  assumes "accepts sv (MsgGeneratePresignedUrl (upload_request ms lotId))" and "\<And>m. m \<in> set ms \<Longrightarrow> complete_image m"
  shows "serve env sv (CallGeneratePresignedUrl (Inr (upload_request ms lotId))) w =
    map_failure (toGRPCError (sv_any_new sv)) (as_response RespGeneratePresignedUrl
      (bindp (initiateUpload env (sv_imageStore sv) (map upload_of ms) lotId) upload_reply)) w"
proof -
  have "serve env sv (CallGeneratePresignedUrl (Inr (upload_request ms lotId))) w =
      map_failure (toGRPCError (sv_any_new sv)) (rpc_method env sv (MsgGeneratePresignedUrl (upload_request ms lotId))) w"
    by (rule serve_accepted [OF _ assms(1)]) simp
  moreover have "GeneratePresignedUrl env (sv_imageStore sv) (upload_request ms lotId) =
      bindp (initiateUpload env (sv_imageStore sv) (map upload_of ms) lotId) upload_reply"
    using assms(2) by (rule GeneratePresignedUrl_upload_request)
  ultimately show ?thesis by simp
qed

lemma serve_upload_fails:
  assumes "accepts sv (MsgGeneratePresignedUrl (upload_request ms lotId))" and "\<And>m. m \<in> set ms \<Longrightarrow> complete_image m"
    and "initiateUpload env (sv_imageStore sv) (map upload_of ms) lotId w = (Fail e, w')"
    and "toGRPCError (sv_any_new sv) (Some e) = Some e'"
  shows "serve env sv (CallGeneratePresignedUrl (Inr (upload_request ms lotId))) w = (Fail e', w')"
proof -
  have "serve env sv (CallGeneratePresignedUrl (Inr (upload_request ms lotId))) w =
    map_failure (toGRPCError (sv_any_new sv)) (as_response RespGeneratePresignedUrl
      (bindp (initiateUpload env (sv_imageStore sv) (map upload_of ms) lotId) upload_reply)) w"
    using assms(1,2) by (rule serve_upload)
  with assms(3,4) show ?thesis by (simp add: map_failure_def as_response_def bindp_def)
qed

lemma serve_upload_panics:
  assumes "accepts sv (MsgGeneratePresignedUrl (upload_request ms lotId))" and "\<And>m. m \<in> set ms \<Longrightarrow> complete_image m"
    and "initiateUpload env (sv_imageStore sv) (map upload_of ms) lotId w = (Panic p, w')"
  shows "serve env sv (CallGeneratePresignedUrl (Inr (upload_request ms lotId))) w = (Panic p, w')"
proof -
  have "serve env sv (CallGeneratePresignedUrl (Inr (upload_request ms lotId))) w =
    map_failure (toGRPCError (sv_any_new sv)) (as_response RespGeneratePresignedUrl
      (bindp (initiateUpload env (sv_imageStore sv) (map upload_of ms) lotId) upload_reply)) w"
    using assms(1,2) by (rule serve_upload)
  with assms(3) show ?thesis by (simp add: map_failure_def as_response_def bindp_def)
qed

text \<open>What the client of a request for an unknown lot is told.\<close>

definition unknown_lot_description :: "db \<Rightarrow> uploadFile list \<Rightarrow> string" where
  "unknown_lot_description d fs =
     (if \<exists>f \<in> set fs. stored d f then ''lot with given id does not exist'' else ''lotId does not match'')"

lemma fresh_stored: "filter (stored d) (fresh_files {} fs) = [] \<longleftrightarrow> \<not> (\<exists>f \<in> set fs. stored d f)"
proof -
  have "(\<exists>f \<in> set gs. stored d f) \<longleftrightarrow> (\<exists>s \<in> uf_Sha256 ` set gs. completed_blob d (sha_bytes s) \<noteq> None)" for gs
    by (simp add: stored_def)
  from this [of fs] this [of "fresh_files {} fs"]
  have "(\<exists>f \<in> set (fresh_files {} fs). stored d f) \<longleftrightarrow> (\<exists>f \<in> set fs. stored d f)"
    by (simp only: fresh_shas Diff_empty)
  then show ?thesis unfolding filter_empty_conv by blast
qed

lemma upload_body_unknown_lot:
  assumes ok: "outside_ok env" and wf: "db_wf (w_db w)" and fs: "\<And>f. f \<in> set fs \<Longrightarrow> servable f"
    and lot: "lot \<notin> lot_ids (w_db w)" and some: "fs \<noteq> []"
  shows "\<exists>e w1. upload_body env st lot (fst (intentBatchUpload fs)) w = (Fail e, w1) \<and>
    (if \<exists>f \<in> set fs. stored (w_db w) f then e = skip_failure (fk_violation ''lot_images'' lot_images_lot_fkey) else attempt_refused e)"
proof -
  let ?files = "fresh_files {} fs"
  have fdist: "distinct (map uf_Sha256 ?files)" by (rule fresh_distinct)
  have sub: "\<And>f. f \<in> set ?files \<Longrightarrow> f \<in> set fs" by (rule fresh_subset)
  have fsha: "\<And>f. f \<in> set ?files \<Longrightarrow> lower_sha (uf_Sha256 f)" using fs sub by (simp add: servable_def)
  have files: "fst (intentBatchUpload fs) = ?files" by (simp add: intentBatchUpload_eq)
  have "\<exists>r w'. skipUploadForIdenticalImageBlobs env ?files lot w =
      (if filter (stored (w_db w)) ?files = [] then Ret r else Fail (skip_failure (fk_violation ''lot_images'' lot_images_lot_fkey)), w') \<and>
    lots (w_db w') = lots (w_db w)"
    using ok fsha lot by (rule skip_unknown_lot)
  then obtain r w1 where skip: "skipUploadForIdenticalImageBlobs env ?files lot w =
      (if filter (stored (w_db w)) ?files = [] then Ret r else Fail (skip_failure (fk_violation ''lot_images'' lot_images_lot_fkey)), w1)"
    and lots: "lots (w_db w1) = lots (w_db w)" by blast
  show ?thesis
  proof (cases "filter (stored (w_db w)) ?files = []")
    case False
    with skip have "upload_body env st lot ?files w = (Fail (skip_failure (fk_violation ''lot_images'' lot_images_lot_fkey)), w1)"
      by (simp add: upload_body_def bindp_def)
    with False files fresh_stored show ?thesis by auto
  next
    case True
    obtain need already where r: "r = (need, already)" by (cases r)
    from skip True r have ret: "skipUploadForIdenticalImageBlobs env ?files lot w = (Ret (need, already), w1)" by simp
    note sk = skip_Ret [OF fsha fdist outside_okD(6) [OF ok] ret]
    have "filter (\<lambda>f. \<not> stored (w_db w) f) ?files = ?files" using True by (auto simp: filter_empty_conv filter_id_conv)
    with sk(1) have need: "mset need = mset ?files" by simp
    have "distinct (map uf_Sha256 need)" using fdist need by (metis mset_eq_imp_distinct_iff mset_map)
    moreover have "?files \<noteq> []" using some by (cases fs) auto
    then have "need \<noteq> []" using need by auto
    moreover have "servable f" if "f \<in> set need" for f using that mset_eq_setD [OF need] sub fs by blast
    moreover have "db_wf (w_db w1)" using keepsD [OF keeps_skip [of "w_db w"] _ ret] grown_refl [OF wf] by (simp add: grown_def)
    moreover have "lot \<notin> lot_ids (w_db w1)" using lot lots by (simp add: lot_ids_def)
    ultimately obtain e w2 where "generateS3UploadUrl env st lot need w1 = (Fail e, w2)" and e: "attempt_refused e"
      using generateS3UploadUrl_unknown_lot [OF ok, where w = w1 and fs = need and lot = lot and st = st] by blast
    then have "upload_body env st lot ?files w = (Fail e, w2)" using ret by (simp add: upload_body_def bindp_def)
    with e True files fresh_stored show ?thesis by auto
  qed
qed

lemma databaseConstraint_lots:
  "databaseConstraint lot_images_lot_fkey = Some [\<lparr>sf_Subject = ''Storage'', sf_Description = ''lot with given id does not exist''\<rparr>]"
  "databaseConstraint attempts_lot_fkey = Some [\<lparr>sf_Subject = ''Storage'', sf_Description = ''lotId does not match''\<rparr>]"
  by (simp_all add: databaseConstraint_def constraint_names)

lemma serve_unknown_lot:
  assumes ok: "outside_ok env" and wf: "db_wf (w_db w)" and acc: "accepts sv (MsgGeneratePresignedUrl (upload_request ms lotId))"
    and store: "sv_imageStore sv = Some store" and any: "\<And>d. sv_any_new sv d = None"
    and ms: "\<And>m. m \<in> set ms \<Longrightarrow> complete_image m \<and> servable (upload_of m)" and some: "ms \<noteq> []"
    and lotId: "uuid_Parse lotId = Inr lot" and lot: "lot \<notin> lot_ids (w_db w)"
  shows "\<exists>msg w'. serve env sv (CallGeneratePresignedUrl (Inr (upload_request ms lotId))) w =
      (Fail (Leaf (Status (storage_refusal msg (unknown_lot_description (w_db w) (map upload_of ms))))), w') \<and>
    same_tables (w_db w) (w_db w')"
proof -
  have "servable f" if "f \<in> set (map upload_of ms)" for f using that ms by auto
  from upload_body_unknown_lot [OF ok wf this lot, where st = "is_s3Storage store"] some
  obtain e w1 where body: "upload_body env (is_s3Storage store) lot (fst (intentBatchUpload (map upload_of ms))) w = (Fail e, w1)"
    and e: "if \<exists>f \<in> set (map upload_of ms). stored (w_db w) f
      then e = skip_failure (fk_violation ''lot_images'' lot_images_lot_fkey) else attempt_refused e" by blast
  have "\<exists>msg. toGRPCError (sv_any_new sv) (Some e) =
      Some (Leaf (Status (storage_refusal msg (unknown_lot_description (w_db w) (map upload_of ms)))))"
  proof (cases "\<exists>f \<in> set (map upload_of ms). stored (w_db w) f")
    case True
    with e have "e = skip_failure (fk_violation ''lot_images'' lot_images_lot_fkey)" by simp
    with True toGRPCError_fk_violation [OF databaseConstraint_lots(1) any] show ?thesis
      unfolding unknown_lot_description_def skip_failure_def by auto
  next
    case False
    with e have "attempt_refused e" by (simp only: if_False)
    with False toGRPCError_fk_violation [OF databaseConstraint_lots(2) any] show ?thesis
      unfolding unknown_lot_description_def attempt_refused_def by auto
  qed
  then obtain msg where st: "toGRPCError (sv_any_new sv) (Some e) =
      Some (Leaf (Status (storage_refusal msg (unknown_lot_description (w_db w) (map upload_of ms)))))" by blast
  have compl: "\<And>m. m \<in> set ms \<Longrightarrow> complete_image m" using ms by blast
  have init: "initiateUpload env (sv_imageStore sv) (map upload_of ms) lotId w = (Fail e, rollback_to (w_db w) w1)"
    unfolding store by (rule initiateUpload_body_fails [OF lotId outside_okD(2) [OF ok] body])
  have "serve env sv (CallGeneratePresignedUrl (Inr (upload_request ms lotId))) w =
      (Fail (Leaf (Status (storage_refusal msg (unknown_lot_description (w_db w) (map upload_of ms))))), rollback_to (w_db w) w1)"
    using acc compl init st by (rule serve_upload_fails)
  then show ?thesis using rolled_back_tables by (metis w_db_rollback_to)
qed

section \<open>A context that ends\<close>

text \<open>
  The status of a request that breaks off with the error \<open>e\<close> of the connection or of the context, wrapped or not.
\<close>

definition broken_off_status :: "err \<Rightarrow> grpc_status" where
  "broken_off_status e =
     (if errors_Is e CtxDeadlineExceeded then status_New DeadlineExceeded ''deadline exceeded''
      else if errors_Is e CtxCanceled then status_New Canceled ''request cancelled''
      else status_New Internal '''')"

lemma toGRPCError_broken_off:
  assumes "errors_find as_status e = None"
  shows "toGRPCError any_new (Some (client_err (InternalServerError op (Some (Errorf what (Some e) '''')) msg))) =
    Some (Leaf (Status (broken_off_status e)))"
proof (cases "errors_Is e CtxDeadlineExceeded \<or> errors_Is e CtxCanceled")
  case True
  with assms show ?thesis
    by (auto simp: toGRPCError_def client_err_def InternalServerError_def broken_off_status_def status_Error_eq)
next
  case False
  with assms have "plain_error e" by (simp add: plain_error_def)
  with False show ?thesis by (simp add: toGRPCError_internal plain_simps broken_off_status_def)
qed

lemma initiateUpload_broken_off:
  assumes "uuid_Parse lotId = Inr lot" and "errors_find as_pg e = None"
    and "e_begin env = Some e \<or> e_begin env = None \<and> e_faults env QInsertIdentical = Some e"
  shows "\<exists>op what msg. initiateUpload env (Some store) fs lotId w =
    (Fail (client_err (InternalServerError op (Some (Errorf what (Some e) '''')) msg)), w)"
  using assms(3)
proof
  assume "e_begin env = Some e"
  with assms(1) have "initiateUpload env (Some store) fs lotId w = (Fail (begin_failure e), w)"
    by (simp add: initiateUpload_def case_prod_beta in_tx_def bindp_def)
  then show ?thesis by (auto simp: begin_failure_def)
next
  assume e: "e_begin env = None \<and> e_faults env QInsertIdentical = Some e"
  then have "on_db (InsertIdenticalImageBlobsToLotImages (e_faults env) p) w = (Fail e, w)" for p
    by (simp add: on_db_def InsertIdenticalImageBlobsToLotImages_def run_query_def)
  then have "upload_body env (is_s3Storage store) lot (fst (intentBatchUpload fs)) w = (Fail (skip_failure e), w)"
    by (simp add: upload_body_def skipUploadForIdenticalImageBlobs_def Let_def on_error_def bindp_def skip_failure_def)
  from initiateUpload_body_fails [OF assms(1) _ this] e
  have "initiateUpload env (Some store) fs lotId w = (Fail (skip_failure e), w)"
    by (simp add: rollback_to_def rolled_back_def)
  then show ?thesis by (auto simp: skip_failure_def storage_failure_def Derive_no_pg [OF assms(2)])
qed

section \<open>A large file after a small one\<close>

lemma initiateUpload_panics:
  assumes ok: "outside_ok env" and wf: "db_wf (w_db w)" and fs: "\<And>f. f \<in> set fs \<Longrightarrow> servable f"
    and lotId: "uuid_Parse lotId = Inr lot" and lot: "lot \<in> lot_ids (w_db w)"
    and old: "\<And>a. a \<in> set (attempts (w_db w)) \<Longrightarrow> listable a"
    and f: "f \<in> set (fst (intentBatchUpload fs))" "\<not> stored (w_db w) f" "\<not> is_single f"
    and a: "find_pending (file_key lot f) (attempts (w_db w)) = Some a" "at_UploadID a = None"
  shows "\<exists>w'. initiateUpload env (Some store) fs lotId w = (Panic nil_deref, w') \<and> same_tables (w_db w) (w_db w')"
proof -
  let ?body = "upload_body env (is_s3Storage store) lot (fst (intentBatchUpload fs))"
  obtain need already w1 where eq: "?body w = bindp (generateS3UploadUrl env (is_s3Storage store) lot need) (\<lambda>us. liftp (Ret (already, us))) w1"
    and ndist: "distinct (map uf_Sha256 need)" and need: "set need = {f \<in> set (fresh_files {} fs). \<not> stored (w_db w) f}"
    and w1: "db_wf (w_db w1)" "lot \<in> lot_ids (w_db w1)" "attempts (w_db w1) = attempts (w_db w)"
    using upload_body_front [OF ok wf fs lot] by blast
  have "\<exists>w2. generateS3UploadUrl env (is_s3Storage store) lot need w1 = (Panic nil_deref, w2)"
  proof (rule generateS3UploadUrl_panics [OF ok w1(1) _ ndist w1(2) _ _ f(3)])
    show "servable g" if "g \<in> set need" for g using that need fresh_subset fs by blast
    show "f \<in> set need" using f(1,2) by (simp add: need intentBatchUpload_eq)
    show "listable b" if "b \<in> set (attempts (w_db w1))" for b using old that by (simp add: w1(3))
  qed (use a w1(3) in auto)
  then obtain w2 where "generateS3UploadUrl env (is_s3Storage store) lot need w1 = (Panic nil_deref, w2)" by blast
  then have "?body w = (Panic nil_deref, w2)" unfolding eq by (simp add: bindp_def)
  from initiateUpload_body_panics [OF lotId outside_okD(2) [OF ok] this] show ?thesis by simp
qed

end
