(* ===== verification/Upload_Safety.thy ===== *)
theory Upload_Safety
  imports Upload_Refusal
begin

text \<open>
  The upload request does not panic. Whatever fails outside, a request of complete images with lower-case
  SHA-256 hashes ends in a response or in an error, as long as the object store fills the fields of its
  answers and no large file meets a pending attempt without upload id or part size.
\<close>

section \<open>Programs that do not panic\<close>

definition calm :: "('s, 'e, 'a) prog \<Rightarrow> 's \<Rightarrow> bool" where
  "calm m s \<longleftrightarrow> (\<forall>p t. m s \<noteq> (Panic p, t))"

named_theorems calm_intros \<open>rules for \<open>calm\<close>\<close>

lemma calm_bindp: "calm m s \<Longrightarrow> (\<And>a t. m s = (Ret a, t) \<Longrightarrow> calm (f a) t) \<Longrightarrow> calm (bindp m f) s"
  by (auto simp: calm_def bindp_Panic_iff)

lemma calm_on_error [calm_intros]: "calm m s \<Longrightarrow> calm (on_error m h) s"
  by (auto simp: calm_def on_error_Panic_iff)

lemma calm_Ret [calm_intros]: "calm (liftp (Ret a)) s"
  by (simp add: calm_def)

lemma calm_on_s3 [calm_intros]: "calm (on_s3 c) w"
  by (simp add: calm_def)

lemma calm_NewRandom [calm_intros]: "calm (NewRandom env) w"
  by (simp add: calm_def)

lemma calm_on_db: "calm m (w_db w) \<Longrightarrow> calm (on_db m) w"
  by (auto simp: calm_def on_db_def split: prod.splits)

lemma calm_mapp: "(\<And>x s. x \<in> set xs \<Longrightarrow> calm (f x) s) \<Longrightarrow> calm (mapp f xs) s"
  unfolding calm_def using mapp_not_Panic by metis

lemma calm_then [calm_intros]: "calm m s \<Longrightarrow> (\<And>a t. calm (f a) t) \<Longrightarrow> calm (bindp m f) s"
  by (auto intro: calm_bindp)

lemma calm_hexToBase64 [calm_intros]: "calm (liftp (hexToBase64 h)) s"
  by (simp add: calm_def hexToBase64_def split: sum.splits)

lemma calm_single_url [calm_intros]: "calm (generateSinglePresignedPutObjectUrl env st k h) w"
  unfolding generateSinglePresignedPutObjectUrl_def by (intro calm_intros)

lemma calm_presign_part [calm_intros]: "calm (presign_part env st u wrap k) w"
  unfolding presign_part_def by (intro calm_intros)

lemma calm_makeUUIDText [calm_intros]: "calm (makeUUIDText env) w"
  unfolding makeUUIDText_def by (intro calm_intros)

section \<open>Answers of the object store\<close>

text \<open>An answer of the object store carries the fields that the program dereferences.\<close>

definition s3_sound :: "'s env \<Rightarrow> bool" where
  "s3_sound env \<longleftrightarrow>
     (\<forall>b k s i t. CreateMultipartUpload (e_s3 env) b k s = (Inr i, t) \<longrightarrow> i \<noteq> None) \<and>
     (\<forall>inp s ps t. ListParts (e_s3 env) inp s = (Inr ps, t) \<longrightarrow> (\<forall>p \<in> set ps. s3p_ETag p \<noteq> None \<and> s3p_PartNumber p \<noteq> None))"

lemma outside_ok_sound: "outside_ok env \<Longrightarrow> s3_sound env"
  unfolding outside_ok_def s3_sound_def answers_def by (metis Pair_inject sum.inject(2))

lemma s3_soundD:
  assumes "s3_sound env"
  shows "CreateMultipartUpload (e_s3 env) b k s = (Inr i, t) \<Longrightarrow> i \<noteq> None"
    and "ListParts (e_s3 env) inp s = (Inr ps, t) \<Longrightarrow> \<forall>p \<in> set ps. s3p_ETag p \<noteq> None \<and> s3p_PartNumber p \<noteq> None"
  using assms unfolding s3_sound_def by blast+

lemma calm_upload_id:
  assumes "s3_sound env"
  shows "calm (generateMultiPartUploadId env st k) w"
  unfolding generateMultiPartUploadId_def
proof (rule calm_bindp)
  fix i t assume "on_error (on_s3 (CreateMultipartUpload (e_s3 env) (bucketName st) k))
    (\<lambda>e. client_err (InternalServerError ''fileupload.generateMultiPartUploadId''
                 (Some (Errorf ''creation of multipart upload failed:'' (Some e) '''')) ''internal error'')) w = (Ret i, t)"
  then obtain u where "CreateMultipartUpload (e_s3 env) (bucketName st) k (w_s3 w) = (Inr i, u)"
    by (auto simp: on_error_Ret_iff on_s3_Ret_iff)
  from s3_soundD(1) [OF assms this] show "calm (liftp (deref i)) t" by (auto simp: calm_def)
qed (intro calm_intros)

lemma calm_listNotUploadedParts:
  assumes "s3_sound env"
  shows "calm (listNotUploadedParts env st u ks) w"
  unfolding listNotUploadedParts_def
proof (rule calm_bindp)
  fix ps t assume "on_error (on_s3 (ListParts (e_s3 env)
                \<lparr>lp_Bucket = bucketName st, lp_Key = ui_storageKey u, lp_UploadId = Some (ui_uploadId u)\<rparr>))
              (\<lambda>e. App (InternalServerError ''fileupload.listNotUploadedParts''
                 (Some (Errorf ''s3Client list parts api failed:'' (Some e) '''')) ''cannot find uploaded parts'')) w = (Ret ps, t)"
  then obtain v where "ListParts (e_s3 env)
      \<lparr>lp_Bucket = bucketName st, lp_Key = ui_storageKey u, lp_UploadId = Some (ui_uploadId u)\<rparr> (w_s3 w) = (Inr ps, v)"
    by (auto simp: on_error_Ret_iff on_s3_Ret_iff)
  from s3_soundD(2) [OF assms this] obtain ts where "mapo uploaded_etag ps = Ret ts" using uploaded_etags_Ret by blast
  then show "calm (bindp (liftp (mapo uploaded_etag ps)) (\<lambda>t. liftp (Ret (missing_parts t ks, t)))) t"
    by (simp add: calm_def)
qed (intro calm_intros)

lemma calm_new_urls: "calm (generateUrlsForNewUploads env st m gs) w"
  unfolding generateUrlsForNewUploads_def generateNewMultiPartUploadUrls_def by (intro calm_mapp calm_intros)

lemma calm_resumable_urls: "s3_sound env \<Longrightarrow> calm (genrateUrlsForResumableUploads env st m gs) w"
  unfolding genrateUrlsForResumableUploads_def generateResumeUploadUrls_def generateExistingMultiPartPresignedUrl_def
    case_prod_beta
  by (intro calm_mapp calm_intros calm_listNotUploadedParts)

lemma makeUUIDText_Ret:
  assumes "random_ok env" and "makeUUIDText env w = (Ret t, w')"
  shows "\<exists>u. valid_uuid u \<and> t = uuid_String u"
proof -
  from assms(2) obtain r where r: "e_rand env (w_rand w) = Inr r" and t: "t = uuid_String (uuid_of_random r)"
    by (auto simp: makeUUIDText_def bindp_Ret_iff on_error_Ret_iff dest!: NewRandom_Ret)
  with assms(1) have "valid_uuid (uuid_of_random r)" by (auto simp: random_ok_def intro: valid_uuid_of_random)
  with t show ?thesis by blast
qed

lemma calm_extract_loop:
  fixes env :: "'s env"
  assumes "s3_sound env" and "random_ok env"
  shows "calm (extract_loop env st fs acc) w"
proof (induction fs arbitrary: acc w)
  case (Cons f fs acc w)
  show ?case
  proof (cases "uint (uf_FileSize f) < multipartThreshold")
    case False
    have parsed: "calm (liftp (uuid_MustParse t) :: ('s, uuid) action) s" if "on_error (makeUUIDText env) h w = (Ret t, s)" for t s h
    proof -
      from that have "makeUUIDText env w = (Ret t, s)" by (simp add: on_error_Ret_iff)
      from makeUUIDText_Ret [OF assms(2) this] obtain u where "valid_uuid u" and "t = uuid_String u" by blast
      then have "uuid_MustParse t = (Ret u :: (err, uuid) outcome)" by (simp add: uuid_MustParse_String)
      then show ?thesis by (simp add: calm_def)
    qed
    have "calm (bindp (on_error (makeUUIDText env)
                 (\<lambda>e. client_err (InternalServerError ''fileupload.extractFileData''
                    (Some (Errorf ''cannot generate uuid:'' (Some e) '''')) ''internal error'')))
          (\<lambda>t. bindp (liftp (uuid_MustParse t)) (\<lambda>storageKey. bindp (generateMultiPartUploadId env st t) (\<lambda>uploadId.
        extract_loop env st fs (acc\<lparr>ex_multipartFile := add_multi f storageKey uploadId (ex_multipartFile acc)\<rparr>))))) w"
      by (rule calm_bindp, intro calm_intros, rule calm_then, erule parsed, rule calm_then, rule calm_upload_id [OF assms(1)], rule Cons.IH)
    with False show ?thesis by (simp del: bindp_liftp)
  qed (simp add: Cons.IH)
qed (simp add: calm_Ret)

section \<open>The statements\<close>

lemma calm_run_query: "calm q d \<Longrightarrow> calm (run_query fault q) d"
  by (simp add: calm_def run_query_def split: option.splits)

lemma calm_single_statement: "calm (InsertSinglePartUpload faults env p) d"
  unfolding InsertSinglePartUpload_def sql_InsertSinglePartUpload_def
  by (rule calm_run_query) (simp add: calm_def single_upsert.upsert_statement_no_panic)

lemma calm_multi_statement: "calm (InsertAndValidateMultiPartUpload faults env p) d"
  unfolding InsertAndValidateMultiPartUpload_def sql_InsertAndValidateMultiPartUpload_def
  by (rule calm_run_query) (simp add: calm_def multi_upsert.upsert_statement_no_panic)

lemma calm_identical_statement: "calm (InsertIdenticalImageBlobsToLotImages faults p) d"
  unfolding InsertIdenticalImageBlobsToLotImages_def sql_InsertIdenticalImageBlobsToLotImages_def
  by (rule calm_run_query) (auto simp: calm_def Let_def split: prod.splits sum.splits)

lemma calm_skip: "calm (skipUploadForIdenticalImageBlobs env fs lot) w"
  unfolding skipUploadForIdenticalImageBlobs_def Let_def by (intro calm_intros calm_on_db calm_identical_statement)

lemma calm_createSingle: "calm (createSinglePresignedFileUrl env st lot s) w"
  unfolding createSinglePresignedFileUrl_def Let_def
  by (intro calm_intros calm_on_db calm_single_statement calm_mapp)

lemma calm_createMultipart:
  assumes sound: "s3_sound env" and wf: "db_wf (w_db w)"
    and sha: "\<And>t. t \<in> set ts \<Longrightarrow> sha_text (uf_Sha256 (fst t))"
    and old: "\<And>t. t \<in> set ts \<Longrightarrow> taken_over lot (w_db w) (fst t)"
  shows "calm (createMultipartPresignedFileUrl env st lot (multi_data ts)) w"
  unfolding createMultipartPresignedFileUrl_def
proof (rule calm_bindp)
  fix rs w1 assume "on_error (on_db (InsertAndValidateMultiPartUpload (e_faults env) (e_sql env) (multi_params lot (multi_data ts))))
    (storage_failure ''imagestore.createMultipartPresignedFileUrl'' ''insert and validation of multipart upload failed,'' ''unknown lotId'') w
      = (Ret rs, w1)"
  then obtain d where "InsertAndValidateMultiPartUpload (e_faults env) (e_sql env) (multi_params lot (multi_data ts)) (w_db w) = (Ret rs, d)"
    by (auto simp: on_error_Ret_iff on_db_Ret_iff)
  from multi_rows(1) [OF wf sha this] have rows: "list_all2 (multi_row_ok (e_sql env) lot (w_db w) d) ts rs" by blast
  have "complete_row r" if r: "r \<in> set rs" for r
  proof -
    from rows r obtain t where "t \<in> set ts" and "multi_row_ok (e_sql env) lot (w_db w) d t r"
      by (metis in_set_conv_nth list_all2_conv_all_nth)
    with old show ?thesis by (blast intro: complete_row_iff)
  qed
  then have seg: "segregateMultiUploadFiles rs = Ret (map row_data (filter is_new rs), map row_data (filter (\<lambda>r. \<not> is_new r) rs))"
    by (simp add: segregate_eq)
  show "calm (bindp (liftp (segregateMultiUploadFiles rs)) (\<lambda>(news, olds).
     bindp (generateUrlsForNewUploads env st (md_multiFileUploadMap (multi_data ts)) news) (\<lambda>us.
     bindp (genrateUrlsForResumableUploads env st (md_multiFileUploadMap (multi_data ts)) olds) (\<lambda>us'. liftp (Ret (us @ us')))))) w1"
    unfolding seg bindp_liftp outcome.case prod.case by (intro calm_then calm_new_urls calm_resumable_urls sound calm_Ret)
qed (intro calm_intros calm_on_db calm_multi_statement)

section \<open>The request\<close>

lemma taken_over_cong:
  "find_pending (file_key lot f) (attempts d') = find_pending (file_key lot f) (attempts d) \<Longrightarrow> taken_over lot d f \<Longrightarrow> taken_over lot d' f"
  by (simp add: taken_over_def)

lemma calm_generateS3UploadUrl:
  assumes sound: "s3_sound env" and rnd: "random_ok env" and wf: "db_wf (w_db w)"
    and sha: "\<And>f. f \<in> set fs \<Longrightarrow> lower_sha (uf_Sha256 f)" and dist: "distinct (map uf_Sha256 fs)"
    and old: "\<And>f. f \<in> set fs \<Longrightarrow> \<not> is_single f \<Longrightarrow> taken_over lot (w_db w) f"
  shows "calm (generateS3UploadUrl env st lot fs) w"
  unfolding generateS3UploadUrl_def
proof (rule calm_bindp)
  show "calm (extractFileData env st fs) w" unfolding extractFileData_def by (rule calm_extract_loop [OF sound rnd])
  let ?fs = "filter is_single fs" and ?d = "w_db w"
  fix ex w0 assume ext: "extractFileData env st fs w = (Ret ex, w0)"
  then obtain ts where ex: "ex = extracted ?fs ts" and ts: "map fst ts = filter (\<lambda>f. \<not> is_single f) fs" and db0: "w_db w0 = ?d"
    using extractFileData_Ret [OF rnd] by metis
  note large = large_files [OF ts]
  have sel: "ex_singleFile ex = single_data ?fs" "ex_multipartFile ex = multi_data ts" by (simp_all add: ex extracted_def)
  have hex: "\<And>f. f \<in> set fs \<Longrightarrow> sha_text (uf_Sha256 f)" using sha lower_sha_text by blast
  have fdist: "distinct (map uf_Sha256 ?fs)" by (rule distinct_map_filter) (rule dist)
  have keys: "file_key lot (fst t) \<notin> file_key lot ` set ?fs" if t: "t \<in> set ts" for t
  proof
    assume "file_key lot (fst t) \<in> file_key lot ` set ?fs"
    then obtain f where f: "f \<in> set ?fs" and "file_key lot (fst t) = file_key lot f" by blast
    with sha large(1) [OF t] have "uf_Sha256 (fst t) = uf_Sha256 f" by (auto intro: file_key_inj)
    with dist f large(1) [OF t] have "fst t = f" by (auto simp: distinct_map dest: inj_onD)
    with f large(1) [OF t] show False by auto
  qed
  show "calm (bindp (if length (sd_Sha256s (ex_singleFile ex)) > 0
            then createSinglePresignedFileUrl env st lot (ex_singleFile ex) else liftp (Ret []))
       (\<lambda>us. bindp (if length (md_Sha256s (ex_multipartFile ex)) > 0
            then createMultipartPresignedFileUrl env st lot (ex_multipartFile ex) else liftp (Ret []))
       (\<lambda>us'. liftp (Ret (us @ us'))))) w0"
  proof (rule calm_bindp)
    fix us w1 assume run: "(if length (sd_Sha256s (ex_singleFile ex)) > 0
        then createSinglePresignedFileUrl env st lot (ex_singleFile ex) else liftp (Ret [])) w0 = (Ret us, w1)"
    have w1: "db_wf (w_db w1) \<and> (\<forall>t \<in> set ts. find_pending (file_key lot (fst t)) (attempts (w_db w1)) =
        find_pending (file_key lot (fst t)) (attempts ?d))"
    proof (cases "?fs = []")
      case True
      with run sel db0 wf show ?thesis by (simp add: single_data_def)
    next
      case False
      with run sel have run': "createSinglePresignedFileUrl env st lot (single_data ?fs) w0 = (Ret us, w1)" by simp
      have "grown ?d (w_db w1)" by (rule keepsD [OF keeps_createSingle _ run']) (simp add: db0 grown_refl wf)
      moreover from createSingle_Ret [OF _ _ fdist run'] wf db0 sha
      have "\<exists>rs. InsertSinglePartUpload (e_faults env) (e_sql env) (single_params lot (single_data ?fs)) ?d = (Ret rs, w_db w1)" by auto
      then have "find_pending (file_key lot (fst t)) (attempts (w_db w1)) = find_pending (file_key lot (fst t)) (attempts ?d)"
        if "t \<in> set ts" for t
        using single_other_keys [OF wf _ _ keys [OF that]] hex by fastforce
      ultimately show ?thesis by (simp add: grown_def)
    qed
    have "calm (createMultipartPresignedFileUrl env st lot (multi_data ts)) w1"
    proof (rule calm_createMultipart [OF sound])
      show "db_wf (w_db w1)" using w1 by blast
      show "sha_text (uf_Sha256 (fst t))" if "t \<in> set ts" for t using hex large(1) [OF that] by blast
      show "taken_over lot (w_db w1) (fst t)" if "t \<in> set ts" for t
      proof (rule taken_over_cong)
        show "find_pending (file_key lot (fst t)) (attempts (w_db w1)) = find_pending (file_key lot (fst t)) (attempts ?d)"
          using w1 that by blast
        show "taken_over lot ?d (fst t)" using old large(1) [OF that] by blast
      qed
    qed
    then show "calm (bindp (if length (md_Sha256s (ex_multipartFile ex)) > 0
            then createMultipartPresignedFileUrl env st lot (ex_multipartFile ex) else liftp (Ret []))
       (\<lambda>us'. liftp (Ret (us @ us')))) w1"
      unfolding sel by (intro calm_then calm_Ret) (simp add: calm_Ret)
  qed (simp add: calm_createSingle calm_Ret)
qed

lemma initiateUpload_calm:
  assumes sound: "s3_sound env" and rnd: "random_ok env" and rng: "range_ok env" and wf: "db_wf (w_db w)"
    and sha: "\<And>f. f \<in> set fs \<Longrightarrow> lower_sha (uf_Sha256 f)"
    and old: "\<And>f lot. f \<in> set fs \<Longrightarrow> uuid_Parse lotId = Inr lot \<Longrightarrow> \<not> is_single f \<Longrightarrow> taken_over lot (w_db w) f"
  shows "calm (initiateUpload env (Some store) fs lotId) w"
proof (cases "uuid_Parse lotId")
  case (Inl e)
  then show ?thesis by (simp add: initiateUpload_def case_prod_beta calm_def)
next
  case (Inr lot)
  let ?files = "fresh_files {} fs"
  have files: "fst (intentBatchUpload fs) = ?files" by (simp add: intentBatchUpload_eq)
  have sub: "\<And>f. f \<in> set ?files \<Longrightarrow> f \<in> set fs" by (rule fresh_subset)
  have fsha: "\<And>f. f \<in> set ?files \<Longrightarrow> lower_sha (uf_Sha256 f)" using sha sub by blast
  have "calm (upload_body env (is_s3Storage store) lot ?files) w"
    unfolding upload_body_def
  proof (rule calm_bindp [OF calm_skip])
    fix r w1 assume "skipUploadForIdenticalImageBlobs env ?files lot w = (Ret r, w1)"
    then obtain need already where r: "r = (need, already)"
      and skip: "skipUploadForIdenticalImageBlobs env ?files lot w = (Ret (need, already), w1)" by (cases r) auto
    note sk = skip_Ret [OF fsha fresh_distinct rng skip]
    have g: "grown (w_db w) (w_db w1)" by (rule keepsD [OF keeps_skip _ skip]) (rule grown_refl [OF wf])
    have needin: "f \<in> set fs" if "f \<in> set need" for f using mset_eq_setD [OF sk(1)] sub that by auto
    have "mset (map uf_Sha256 need) = mset (map uf_Sha256 (filter (\<lambda>f. \<not> stored (w_db w) f) ?files))"
      using sk(1) by (simp only: mset_map)
    then have ndist: "distinct (map uf_Sha256 need)"
      using distinct_map_filter [OF fresh_distinct] by (metis mset_eq_imp_distinct_iff)
    have "calm (generateS3UploadUrl env (is_s3Storage store) lot need) w1"
    proof (rule calm_generateS3UploadUrl [OF sound rnd _ _ ndist])
      show "db_wf (w_db w1)" using g by (simp add: grown_def)
      show "lower_sha (uf_Sha256 f)" if "f \<in> set need" for f using sha needin that by blast
      show "taken_over lot (w_db w1) f" if "f \<in> set need" and "\<not> is_single f" for f
        using old [OF needin [OF that(1)] Inr that(2)] by (simp add: taken_over_def sk(3))
    qed
    then show "calm (case r of (need, already) \<Rightarrow> bindp (generateS3UploadUrl env (is_s3Storage store) lot need)
        (\<lambda>us. liftp (Ret (already, us)))) w1"
      by (simp only: r prod.case calm_then calm_Ret)
  qed
  then have body: "upload_body env (is_s3Storage store) lot ?files w \<noteq> (Panic p, t)" for p t by (simp add: calm_def)
  have "in_tx env begin_failure commit_failure (upload_body env (is_s3Storage store) lot ?files) w \<noteq> (Panic p, t)" for p t
    using in_tx_Panic body by metis
  with Inr files show ?thesis by (auto simp: initiateUpload_def case_prod_beta calm_def bindp_Panic_iff)
qed

text \<open>Serving an upload request does not panic.\<close>

lemma return_err_not_Panic [simp]: "return_err x s \<noteq> (Panic p, t)"
  by (cases x) simp_all

lemma serve_upload_calm:
  assumes acc: "accepts sv (MsgGeneratePresignedUrl (upload_request ms lotId))" and store: "sv_imageStore sv = Some store"
    and sound: "s3_sound env" and rnd: "random_ok env" and rng: "range_ok env" and wf: "db_wf (w_db w)"
    and ms: "\<And>m. m \<in> set ms \<Longrightarrow> good_image m"
    and old: "\<And>m lot. m \<in> set ms \<Longrightarrow> uuid_Parse lotId = Inr lot \<Longrightarrow> \<not> is_single (upload_of m) \<Longrightarrow> taken_over lot (w_db w) (upload_of m)"
  shows "serve env sv (CallGeneratePresignedUrl (Inr (upload_request ms lotId))) w \<noteq> (Panic p, w')"
proof -
  have compl: "\<And>m. m \<in> set ms \<Longrightarrow> complete_image m" using ms by (simp add: good_image_def)
  obtain r w1 where init: "initiateUpload env (Some store) (map upload_of ms) lotId w = (r, w1)" by fastforce
  have "calm (initiateUpload env (Some store) (map upload_of ms) lotId) w"
  proof (rule initiateUpload_calm [OF sound rnd rng wf])
    show "lower_sha (uf_Sha256 f)" if "f \<in> set (map upload_of ms)" for f
      using that ms by (auto simp: good_image_def upload_of_sha)
    show "taken_over lot (w_db w) f" if "f \<in> set (map upload_of ms)" "uuid_Parse lotId = Inr lot" "\<not> is_single f" for f lot
      using that old by auto
  qed
  with init have nopanic: "r \<noteq> Panic q" for q by (auto simp: calm_def)
  have upload: "GeneratePresignedUrl env (Some store) (upload_request ms lotId) w \<noteq> (Panic q, t)" for q t
  proof (cases r)
    case (Ret res)
    from GeneratePresignedUrl_after [OF wf rnd rng ms init [unfolded Ret]] show ?thesis by auto
  next
    case (Fail e)
    have "GeneratePresignedUrl env (Some store) (upload_request ms lotId) =
        bindp (initiateUpload env (Some store) (map upload_of ms) lotId) upload_reply"
      using compl by (rule GeneratePresignedUrl_upload_request)
    with init Fail show ?thesis by simp
  qed (use nopanic in auto)
  have "serve env sv (CallGeneratePresignedUrl (Inr (upload_request ms lotId))) w =
      map_failure (toGRPCError (sv_any_new sv)) (rpc_method env sv (MsgGeneratePresignedUrl (upload_request ms lotId))) w"
    by (rule serve_accepted [OF _ acc]) simp
  with upload show ?thesis
    by (auto simp: map_failure_def as_response_def bindp_def store split: prod.splits outcome.splits option.splits)
qed

end
