(* ===== verification/Upload_Resume.thy ===== *)
theory Upload_Resume
  imports Server_Laws
begin

text \<open>
  A presigned URL read back to the attempt it serves: \<open>serves_attempt\<close> forgets how the request got the URL, and
  keeps the object, the upload and the parts that it is for. Two requests for the same hash and lot serve the
  same attempt, whatever the server did in between.
\<close>

definition serves_attempt :: "'s env \<Rightarrow> s3Storage \<Rightarrow> ImageBlobUploadAttempt \<Rightarrow> presignedFileUrl \<Rightarrow> bool" where
  "serves_attempt env st a u \<longleftrightarrow>
     (\<exists>q. presigned_put env st (uuid_String (at_StorageKey a)) (at_Sha256 a) q \<and>
        u = single_url (pF_uploadFile u) \<lparr>sU_request = Some q\<rparr>) \<or>
     (\<exists>i ps parts tags reqs. ui_storageKey i = uuid_String (at_StorageKey a) \<and> at_UploadID a = Some (ui_uploadId i) \<and>
        parts_array (at_PartCount a) = Inr parts \<and> list_all2 (presigned_part env st i) (missing_parts tags parts) reqs \<and>
        u = multi_url (pF_uploadFile u) \<lparr>mU_requests = reqs, mU_multipartAttemptId = at_ID a, mU_partSize = ps, mU_imageEtags = tags\<rparr>)"

lemma url_file [simp]: "pF_uploadFile (single_url f s) = f" "pF_uploadFile (multi_url f m) = f"
  by (simp_all add: single_url_def multi_url_def)

lemma pending_sha: "find_pending (file_key lot f) as = Some a \<Longrightarrow> at_Sha256 a = sha_bytes (uf_Sha256 f)"
  by (auto simp: pending_key_def file_key_def dest: find_pending_SomeD)

lemma single_answer_serves:
  assumes "single_answer env st lot d d' f u"
  shows "pF_uploadFile u = f \<and> (\<exists>a. find_pending (file_key lot f) (attempts d') = Some a \<and> serves_attempt env st a u)"
  using assms pending_sha [of lot f "attempts d'"] unfolding single_answer_def serves_attempt_def by fastforce

lemma multi_answer_serves:
  assumes "multi_answer env st lot d d' t u"
  shows "pF_uploadFile u = fst t \<and> (\<exists>a. find_pending (file_key lot (fst t)) (attempts d') = Some a \<and> serves_attempt env st a u)"
proof -
  from assms obtain a i ps parts tags reqs where
    a: "find_pending (file_key lot (fst t)) (attempts d') = Some a"
    and i: "ui_storageKey i = uuid_String (at_StorageKey a)" "at_UploadID a = Some (ui_uploadId i)"
    and parts: "parts_array (at_PartCount a) = Inr parts" "list_all2 (presigned_part env st i) (missing_parts tags parts) reqs"
    and u: "u = multi_url (fst t) \<lparr>mU_requests = reqs, mU_multipartAttemptId = at_ID a, mU_partSize = ps, mU_imageEtags = tags\<rparr>"
    unfolding multi_answer_def by blast
  have "serves_attempt env st a u"
    unfolding serves_attempt_def u url_file using i parts by blast
  with a u show ?thesis by simp
qed

lemma upload_answers_serve:
  assumes "upload_answers env st lot d d' fs us" and "u \<in> set us"
  shows "\<exists>a. find_pending (file_key lot (pF_uploadFile u)) (attempts d') = Some a \<and> serves_attempt env st a u"
proof -
  from assms(1) obtain ts us1 us2 where single: "list_all2 (single_answer env st lot d d') (filter is_single fs) us1"
    and multi: "list_all2 (multi_answer env st lot d d') ts us2" and us: "mset us = mset us1 + mset us2"
    unfolding upload_answers_def by blast
  from us have "mset us = mset (us1 @ us2)" by simp
  then have "set us = set (us1 @ us2)" by (rule mset_eq_setD)
  with assms(2) consider "u \<in> set us1" | "u \<in> set us2" by auto
  then show ?thesis
  proof cases
    case 1
    with single obtain f where "single_answer env st lot d d' f u" by (metis in_set_conv_nth list_all2_conv_all_nth)
    from single_answer_serves [OF this] show ?thesis by blast
  next
    case 2
    with multi obtain t where "multi_answer env st lot d d' t u" by (metis in_set_conv_nth list_all2_conv_all_nth)
    from multi_answer_serves [OF this] show ?thesis by auto
  qed
qed

lemma initiateUpload_serves:
  assumes "db_wf (w_db w)" and "random_ok env" and "range_ok env" and "\<And>f. f \<in> set fs \<Longrightarrow> lower_sha (uf_Sha256 f)"
    and "initiateUpload env (Some store) fs lotId w = (Ret res, w')" and "u \<in> set (ur_presignedFileUrls res)"
  shows "\<exists>lot a. uuid_Parse lotId = Inr lot \<and>
    find_pending (file_key lot (pF_uploadFile u)) (attempts (w_db w')) = Some a \<and> serves_attempt env (is_s3Storage store) a u"
proof -
  have "\<exists>lot s. uuid_Parse lotId = Inr lot \<and> Some store = Some s \<and>
    upload_done env (is_s3Storage s) lot (w_db w) (w_db w') fs res"
    using assms(1-5) by (rule initiateUpload_Ret)
  then obtain lot where lot: "uuid_Parse lotId = Inr lot" and "upload_done env (is_s3Storage store) lot (w_db w) (w_db w') fs res" by auto
  then obtain need where "upload_answers env (is_s3Storage store) lot (w_db w) (w_db w') need (ur_presignedFileUrls res)"
    unfolding upload_done_def by blast
  from upload_answers_serve [OF this assms(6)] lot show ?thesis by blast
qed

text \<open>From a URL of one request to a URL of a later one.\<close>

lemma later_request_same_attempt:
  assumes wf: "db_wf (w_db w)" and ok: "random_ok env" "range_ok env" "random_ok env'" "range_ok env'"
    and sha: "\<And>f. f \<in> set fs \<Longrightarrow> lower_sha (uf_Sha256 f)" and sha': "\<And>f. f \<in> set fs' \<Longrightarrow> lower_sha (uf_Sha256 f)"
    and first: "initiateUpload env (Some store) fs lotId w = (Ret res, w1)" and run: "server_run sv (Up w1) s"
    and second: "initiateUpload env' (Some store') fs' lotId' (world_of s) = (Ret res', w2)"
    and lots: "uuid_Parse lotId' = uuid_Parse lotId"
    and u: "u \<in> set (ur_presignedFileUrls res)" and u': "u' \<in> set (ur_presignedFileUrls res')"
    and same: "uf_Sha256 (pF_uploadFile u') = uf_Sha256 (pF_uploadFile u)"
  shows "\<exists>a a'. same_identity a a' \<and> serves_attempt env (is_s3Storage store) a u \<and> serves_attempt env' (is_s3Storage store') a' u'"
proof -
  have g1: "grown (w_db w) (w_db w1)" using initiateUpload_grown [OF wf, of env "Some store" fs lotId] first by simp
  then have wf1: "db_wf (w_db w1)" by (simp add: grown_def)
  with server_run_grown [OF run] have g2: "grown (w_db w1) (w_db (world_of s))" by simp
  then have wf2: "db_wf (w_db (world_of s))" by (simp add: grown_def)
  have g3: "grown (w_db (world_of s)) (w_db w2)"
    using initiateUpload_grown [OF wf2, of env' "Some store'" fs' lotId'] second by simp
  have "\<exists>lot a. uuid_Parse lotId = Inr lot \<and> find_pending (file_key lot (pF_uploadFile u)) (attempts (w_db w1)) = Some a \<and>
      serves_attempt env (is_s3Storage store) a u"
    using wf ok(1,2) sha first u by (rule initiateUpload_serves)
  then obtain lot a where lot: "uuid_Parse lotId = Inr lot"
    and a: "find_pending (file_key lot (pF_uploadFile u)) (attempts (w_db w1)) = Some a" and serves: "serves_attempt env (is_s3Storage store) a u"
    by blast
  have "\<exists>lot b. uuid_Parse lotId' = Inr lot \<and> find_pending (file_key lot (pF_uploadFile u')) (attempts (w_db w2)) = Some b \<and>
      serves_attempt env' (is_s3Storage store') b u'"
    using wf2 ok(3,4) sha' second u' by (rule initiateUpload_serves)
  then obtain b where b: "find_pending (file_key lot (pF_uploadFile u')) (attempts (w_db w2)) = Some b"
    and serves': "serves_attempt env' (is_s3Storage store') b u'" using lot lots by auto
  from grown_pending [OF grown_trans [OF g2 g3] a] obtain c where
    "find_pending (file_key lot (pF_uploadFile u)) (attempts (w_db w2)) = Some c" and "same_identity a c" by blast
  moreover have "file_key lot (pF_uploadFile u') = file_key lot (pF_uploadFile u)" by (simp add: file_key_def same)
  ultimately have "same_identity a b" using b by simp
  with serves serves' show ?thesis by blast
qed

section \<open>A stored image, announced again\<close>

text \<open>Nothing keeps a lot from having two links to one image: every request that lists a stored image adds one.\<close>

definition link_count :: "db \<Rightarrow> uuid \<Rightarrow> ImageBlob \<Rightarrow> nat" where
  "link_count d lot b = length (filter (\<lambda>l. li_LotID l = lot \<and> li_ImageBlobID l = ib_ImageBlobID b) (lot_images d))"

lemma links_to_blob:
  assumes wf: "db_wf d" and b: "completed_blob d (sha_bytes s) = Some b" and "lower_sha s" "lower_sha (uf_Sha256 g)" and l: "links d lot g l"
  shows "li_LotID l = lot \<and> li_ImageBlobID l = ib_ImageBlobID b \<longleftrightarrow> uf_Sha256 g = s"
proof -
  from l obtain c where c: "completed_blob d (sha_bytes (uf_Sha256 g)) = Some c" "li_LotID l = lot" "li_ImageBlobID l = ib_ImageBlobID c"
    by (auto simp: links_def)
  have "c = b" if "ib_ImageBlobID c = ib_ImageBlobID b"
    using that wf completed_blob_SomeD [OF b] completed_blob_SomeD [OF c(1)]
    by (auto simp: db_wf_def distinct_map dest: inj_onD)
  then have "ib_ImageBlobID c = ib_ImageBlobID b \<longleftrightarrow> sha_bytes (uf_Sha256 g) = sha_bytes s"
    using completed_blob_SomeD [OF b] completed_blob_SomeD [OF c(1)] b c(1) by auto
  also have "\<dots> \<longleftrightarrow> uf_Sha256 g = s" using sha_bytes_inj assms(3,4) by metis
  finally show ?thesis using c by auto
qed

lemma list_all2_filter_length:
  "list_all2 R xs ys \<Longrightarrow> (\<And>x y. x \<in> set xs \<Longrightarrow> R x y \<Longrightarrow> P x \<longleftrightarrow> Q y) \<Longrightarrow> length (filter P xs) = length (filter Q ys)"
  by (induction xs ys rule: list_all2_induct) auto

lemma distinct_one:
  assumes "distinct (map h xs)" and "x \<in> set xs"
  shows "length (filter (\<lambda>y. h y = h x) xs) = 1"
proof -
  obtain ys zs where xs: "xs = ys @ x # zs" using split_list [OF assms(2)] by blast
  then have "h x \<notin> h ` set ys" and "h x \<notin> h ` set zs" using assms(1) by simp_all
  then have "\<forall>y \<in> set ys. h y \<noteq> h x" and "\<forall>y \<in> set zs. h y \<noteq> h x" by (metis imageI)+
  then have "filter (\<lambda>y. h y = h x) ys = []" and "filter (\<lambda>y. h y = h x) zs = []" by (simp_all only: filter_empty_conv not_False_eq_True)
  then show ?thesis by (simp add: xs)
qed

lemma initiateUpload_link_count:
  assumes wf: "db_wf (w_db w)" and ok: "random_ok env" "range_ok env" and sha: "\<And>f. f \<in> set fs \<Longrightarrow> lower_sha (uf_Sha256 f)"
    and run: "initiateUpload env store fs lotId w = (Ret res, w')" and lot: "uuid_Parse lotId = Inr lot"
    and f: "f \<in> set fs" and b: "completed_blob (w_db w) (sha_bytes (uf_Sha256 f)) = Some b"
  shows "link_count (w_db w') lot b = link_count (w_db w) lot b + 1"
proof -
  have "\<exists>lot s. uuid_Parse lotId = Inr lot \<and> store = Some s \<and> upload_done env (is_s3Storage s) lot (w_db w) (w_db w') fs res"
    using wf ok sha run by (rule initiateUpload_Ret)
  then obtain files imgs where files: "files = fresh_files {} fs" and li: "lot_images (w_db w') = lot_images (w_db w) @ imgs"
    and all: "list_all2 (links (w_db w) lot) (filter (stored (w_db w)) files) imgs"
    using lot by (auto simp: upload_done_def intentBatchUpload_eq)
  have fsha: "lower_sha (uf_Sha256 g)" if "g \<in> set files" for g using that files fresh_subset sha by metis
  have "uf_Sha256 f \<in> uf_Sha256 ` set files" using f by (simp add: files fresh_shas)
  then obtain g where g: "g \<in> set files" "uf_Sha256 g = uf_Sha256 f" by auto
  have "length (filter (\<lambda>l. li_LotID l = lot \<and> li_ImageBlobID l = ib_ImageBlobID b) imgs) =
      length (filter (\<lambda>h. uf_Sha256 h = uf_Sha256 g) (filter (stored (w_db w)) files))"
    by (rule sym, rule list_all2_filter_length [OF all])
      (use links_to_blob [OF wf b] fsha sha [OF f] g in auto)
  also have "\<dots> = 1"
  proof (rule distinct_one)
    show "distinct (map uf_Sha256 (filter (stored (w_db w)) files))"
      unfolding files by (intro distinct_map_filter fresh_distinct)
    show "g \<in> set (filter (stored (w_db w)) files)" using g b by (simp add: stored_def)
  qed
  finally show ?thesis by (simp add: link_count_def li)
qed

end
