(* ===== verification/Request_Properties.thy ===== *)
theory Request_Properties
  imports Sample_World Upload_Safety Upload_Resume
begin

text \<open>
  The properties of upload requests beyond a single success: requests that are refused or break off, the requests that
  panic and those that cannot, and what a later request for the same file is answered.
\<close>

section \<open>Samples\<close>

definition other_lot_text :: string where
  "other_lot_text = ''02020202-0202-0202-0202-020202020202''"

lemma other_lot_parse: "uuid_Parse other_lot_text = Inr (replicate 16 2)"
  unfolding other_lot_text_def by code_simp

lemma other_lot_unknown: "replicate 16 2 \<notin> lot_ids (w_db sample_world)"
  by (simp add: sample_defs lot_ids_def numeral_eq_Suc)

lemma sample_any_new: "sv_any_new sample_server d = None"
  by (simp add: sample_server_def)

lemma sample_server_store: "sv_imageStore sample_server = Some sample_store"
  by (simp add: sample_server_def)

text \<open>The sample database when the pending attempt is that of a small file.\<close>

definition small_attempt :: ImageBlobUploadAttempt where
  "small_attempt = sample_attempt\<lparr>at_UploadType := SingleUpload, at_UploadID := None, at_PartSize := None, at_PartCount := None\<rparr>"

definition small_world :: "unit world" where
  "small_world = sample_world\<lparr>w_db := sample_db\<lparr>attempts := [small_attempt]\<rparr>\<rparr>"

lemma small_world_wf: "db_wf (w_db small_world)"
  by (simp add: db_wf_def small_world_def sample_world_def sample_db_def attempts_wf_def small_attempt_def sample_attempt_def
      lot_ids_def is_pending_def gen_part_count_def)

lemma small_world_lot: "sample_lot_id \<in> lot_ids (w_db small_world)"
  by (simp add: small_world_def sample_world_def sample_db_def lot_ids_def)

lemma small_world_attempts: "attempts (w_db small_world) = [small_attempt]"
  by (simp add: small_world_def)

lemma sample_sha_bytes:
  "sha_bytes (sample_sha CHR ''a'') = replicate 32 0xaa" "sha_bytes (sample_sha CHR ''c'') = replicate 32 0xcc"
  unfolding sha_bytes_def sample_sha_def by (simp_all add: numeral_eq_Suc hex_byte_def hex_val_def)

lemma sample_all_good: "m \<in> set sample_images \<Longrightarrow> good_image m \<and> servable (upload_of m)"
  using sample_images_good sample_images_servable by blast

text \<open>A request for one small file of the sample gets a URL for it.\<close>

definition sample_file :: uploadFile where
  "sample_file = upload_of (sample_image CHR ''a'' 100)"

lemma sample_file_sha: "f \<in> set [sample_file] \<Longrightarrow> lower_sha (uf_Sha256 f)"
  using sample_servable [of "CHR ''a''" 100] by (simp add: sample_file_def servable_def)

lemma sample_file_run:
  assumes "db_wf (w_db w)" and "sample_lot_id \<in> lot_ids (w_db w)"
  shows "\<exists>res w'. initiateUpload sample_env (Some sample_store) [sample_file] sample_lot_text w = (Ret res, w')"
proof (rule initiateUpload_succeeds [OF sample_outside assms(1) _ sample_parse assms(2)])
  show "servable f" if "f \<in> set [sample_file]" for f using that sample_servable [of "CHR ''a''" 100] by (simp add: sample_file_def)
  show "can_resume sample_lot_id (w_db w) f" if "f \<in> set [sample_file]" for f
    using that by (simp add: can_resume_def is_single_def sample_file_def upload_of_def sample_image_def multipartThreshold_def)
qed

lemma sample_file_url:
  assumes "initiateUpload sample_env (Some sample_store) [sample_file] sample_lot_text w = (Ret res, w')"
    and "db_wf (w_db w)" and "image_blobs (w_db w) = image_blobs sample_db"
  shows "\<exists>u \<in> set (ur_presignedFileUrls res). pF_uploadFile u = sample_file"
proof -
  have "uf_Sha256 sample_file = sample_sha CHR ''a''" by (simp add: sample_file_def upload_of_def sample_image_def)
  then have new: "\<not> stored (w_db w) sample_file"
    by (simp add: stored_def sample_sha_bytes completed_blob_def assms(3)) (simp add: sample_db_def replicate_eq_replicate)
  have "\<exists>lot s. uuid_Parse sample_lot_text = Inr lot \<and> Some sample_store = Some s \<and>
    upload_done sample_env (is_s3Storage s) lot (w_db w) (w_db w') [sample_file] res"
    using assms(2) outside_okD(4,6) [OF sample_outside] sample_file_sha assms(1) by (rule initiateUpload_Ret)
  then obtain lot and s :: ImageStore where "upload_done sample_env (is_s3Storage s) lot (w_db w) (w_db w') [sample_file] res" by blast
  then obtain files need where files: "intentBatchUpload [sample_file] = (files, ur_duplicateFiles res)"
    and need: "mset need = mset (filter (\<lambda>f. \<not> stored (w_db w) f) files)"
    and "upload_answers sample_env (is_s3Storage s) lot (w_db w) (w_db w') need (ur_presignedFileUrls res)"
    unfolding upload_done_def by blast
  with upload_answers_files(1) have "mset (map pF_uploadFile (ur_presignedFileUrls res)) = mset (filter (\<lambda>f. \<not> stored (w_db w) f) files)"
    by metis
  moreover have "files = [sample_file]" using files by (simp add: intentBatchUpload_eq)
  ultimately have "mset (map pF_uploadFile (ur_presignedFileUrls res)) = mset [sample_file]" using new by simp
  then have "set (map pF_uploadFile (ur_presignedFileUrls res)) = set [sample_file]" by (rule mset_eq_setD)
  then have "sample_file \<in> pF_uploadFile ` set (ur_presignedFileUrls res)" by simp
  then show ?thesis by (metis imageE)
qed

section \<open>Requests that are refused\<close>

text \<open>C22: a request of at least one image, each with all its fields, a lower-case SHA-256 and a name that fits its column, for a lot that
  is not in the database, when nothing outside fails and details can be added to a status, is answered \<open>FailedPrecondition\<close>, with the
  description of the foreign key that was violated: that of the links when one of its images is stored already, that of the attempts
  otherwise. Every table is as it was.\<close>

theorem unknown_lot_refused:
  assumes "outside_ok env" and "db_wf (w_db w)" and "accepts sv (MsgGeneratePresignedUrl (upload_request ms lotId))"
    and "sv_imageStore sv = Some store" and "\<And>d. sv_any_new sv d = None"
    and "\<And>m. m \<in> set ms \<Longrightarrow> good_image m \<and> servable (upload_of m)" and "ms \<noteq> []"
    and "uuid_Parse lotId = Inr lot" and "lot \<notin> lot_ids (w_db w)"
  shows "\<exists>msg w'. serve env sv (CallGeneratePresignedUrl (Inr (upload_request ms lotId))) w =
      (Fail (Leaf (Status \<lparr>st_Code = FailedPrecondition, st_Message = msg, st_Details = [PreconditionFailure
         [\<lparr>pv_Subject = ''Storage'', pv_Description =
            (if \<exists>f \<in> set (map upload_of ms). stored (w_db w) f then ''lot with given id does not exist'' else ''lotId does not match'')\<rparr>]]\<rparr>)), w') \<and>
    same_tables (w_db w) (w_db w')"
proof -
  have "complete_image m \<and> servable (upload_of m)" if "m \<in> set ms" for m using assms(6) [OF that] by (simp add: good_image_def)
  with assms(1-5) have "\<exists>msg w'. serve env sv (CallGeneratePresignedUrl (Inr (upload_request ms lotId))) w =
      (Fail (Leaf (Status (storage_refusal msg (unknown_lot_description (w_db w) (map upload_of ms))))), w') \<and>
    same_tables (w_db w) (w_db w')"
    using assms(7-9) by (rule serve_unknown_lot)
  then show ?thesis unfolding storage_refusal_def unknown_lot_description_def .
qed

theorem unknown_lot_refused_witness:
  "\<exists>msg w'. serve sample_env sample_server (CallGeneratePresignedUrl (Inr (upload_request sample_images other_lot_text))) sample_world =
      (Fail (Leaf (Status \<lparr>st_Code = FailedPrecondition, st_Message = msg, st_Details = [PreconditionFailure
         [\<lparr>pv_Subject = ''Storage'', pv_Description =
            (if \<exists>f \<in> set (map upload_of sample_images). stored (w_db sample_world) f
             then ''lot with given id does not exist'' else ''lotId does not match'')\<rparr>]]\<rparr>)), w') \<and>
    same_tables (w_db sample_world) (w_db w')"
  by (rule unknown_lot_refused [OF sample_outside sample_world_wf sample_accepts sample_server_store sample_any_new
        sample_all_good _ other_lot_parse other_lot_unknown])
    (simp_all add: sample_images_def)

text \<open>C24: a request whose context ends, or whose connection breaks, before its first row is written is answered by
  the kind of the error, however deep it is wrapped: \<open>DeadlineExceeded\<close>, \<open>Canceled\<close>, or an empty
  \<open>Internal\<close>. The world is as it was.\<close>

theorem broken_off_request:
  assumes "accepts sv (MsgGeneratePresignedUrl (upload_request ms lotId))" and "sv_imageStore sv = Some store"
    and "\<And>m. m \<in> set ms \<Longrightarrow> complete_image m" and "uuid_Parse lotId = Inr lot"
    and "errors_find as_pg e = None" and "errors_find as_status e = None"
    and "e_begin env = Some e \<or> e_begin env = None \<and> e_faults env QInsertIdentical = Some e"
  shows "serve env sv (CallGeneratePresignedUrl (Inr (upload_request ms lotId))) w =
    (Fail (Leaf (Status
      (if errors_Is e CtxDeadlineExceeded then status_New DeadlineExceeded ''deadline exceeded''
       else if errors_Is e CtxCanceled then status_New Canceled ''request cancelled''
       else status_New Internal ''''))), w)"
proof -
  obtain op what msg where "initiateUpload env (sv_imageStore sv) (map upload_of ms) lotId w =
      (Fail (client_err (InternalServerError op (Some (Errorf what (Some e) '''')) msg)), w)"
    using initiateUpload_broken_off [OF assms(4,5,7)] assms(2) by metis
  with assms(1,3) have "serve env sv (CallGeneratePresignedUrl (Inr (upload_request ms lotId))) w = (Fail (Leaf (Status (broken_off_status e))), w)"
    using toGRPCError_broken_off [OF assms(6)] by (rule serve_upload_fails)
  then show ?thesis unfolding broken_off_status_def .
qed

theorem broken_off_request_witness:
  "serve (sample_env\<lparr>e_begin := Some (Errorf ''begin: '' (Some (Leaf CtxDeadlineExceeded)) '''')\<rparr>) sample_server
     (CallGeneratePresignedUrl (Inr (upload_request sample_images sample_lot_text))) sample_world =
   (Fail (Leaf (Status (status_New DeadlineExceeded ''deadline exceeded''))), sample_world)"
proof -
  have "complete_image m" if "m \<in> set sample_images" for m using sample_images_good [OF that] by (simp add: good_image_def)
  from broken_off_request [OF sample_accepts sample_server_store this sample_parse,
      where e = "Errorf ''begin: '' (Some (Leaf CtxDeadlineExceeded)) ''''"
        and env = "sample_env\<lparr>e_begin := Some (Errorf ''begin: '' (Some (Leaf CtxDeadlineExceeded)) '''')\<rparr>" and w = sample_world]
  show ?thesis by (simp del: serve.simps)
qed

section \<open>Panics\<close>

text \<open>C13: a request of complete images with lower-case SHA-256 hashes does not panic, whatever fails outside, as long as
  the object store fills the fields of its answers and no large file meets a pending attempt that has no upload id
  or no part size.\<close>

theorem upload_never_panics:
  assumes "accepts sv (MsgGeneratePresignedUrl (upload_request ms lotId))" and "sv_imageStore sv = Some store"
    and "s3_sound env" and "random_ok env" and "range_ok env" and "db_wf (w_db w)"
    and "\<And>m. m \<in> set ms \<Longrightarrow> good_image m"
    and "\<And>m lot. m \<in> set ms \<Longrightarrow> uuid_Parse lotId = Inr lot \<Longrightarrow> \<not> is_single (upload_of m) \<Longrightarrow>
      taken_over lot (w_db w) (upload_of m)"
  shows "serve env sv (CallGeneratePresignedUrl (Inr (upload_request ms lotId))) w \<noteq> (Panic p, w')"
  using assms by (rule serve_upload_calm)

theorem upload_never_panics_witness:
  "\<forall>p. fst (serve broken_env sample_server (CallGeneratePresignedUrl (Inr (upload_request sample_images sample_lot_text))) sample_world) \<noteq> Panic p"
proof -
  have ok: "s3_sound broken_env" "random_ok broken_env" "range_ok broken_env"
    using outside_ok_sound [OF sample_outside] sample_outside
    by (simp_all add: s3_sound_def outside_ok_def broken_env_def random_ok_def range_ok_def)
  have old: "taken_over lot (w_db sample_world) f" for lot f
    by (simp add: taken_over_def sample_world_def sample_db_def sample_attempt_def find_pending_def)
  have "serve broken_env sample_server (CallGeneratePresignedUrl (Inr (upload_request sample_images sample_lot_text))) sample_world
      \<noteq> (Panic p, w')" for p w'
    by (rule upload_never_panics [OF sample_accepts sample_server_store ok sample_world_wf sample_images_good old])
  then show ?thesis by (metis prod.collapse)
qed

text \<open>C23: when a file was announced as a small one and is announced again, in the same lot, as a large one before its
  upload is complete, the request panics: the conflict update keeps the single attempt, which has no upload
  id.\<close>

theorem large_after_small_panics:
  assumes "outside_ok env" and "db_wf (w_db w)" and "accepts sv (MsgGeneratePresignedUrl (upload_request ms lotId))"
    and "sv_imageStore sv = Some store" and "\<And>m. m \<in> set ms \<Longrightarrow> good_image m \<and> servable (upload_of m)"
    and "uuid_Parse lotId = Inr lot" and "lot \<in> lot_ids (w_db w)" and "\<And>a. a \<in> set (attempts (w_db w)) \<Longrightarrow> listable a"
    and "f \<in> set (fst (intentBatchUpload (map upload_of ms)))" and "\<not> stored (w_db w) f"
    and "multipartThreshold \<le> uint (uf_FileSize f)"
    and "find_pending (sha_bytes (uf_Sha256 f), lot) (attempts (w_db w)) = Some a" and "at_UploadID a = None"
  shows "\<exists>w'. serve env sv (CallGeneratePresignedUrl (Inr (upload_request ms lotId))) w = (Panic nil_deref, w') \<and>
    same_tables (w_db w) (w_db w')"
proof -
  have files: "servable g" if "g \<in> set (map upload_of ms)" for g using that assms(5) by auto
  have compl: "complete_image m" if "m \<in> set ms" for m using assms(5) [OF that] by (simp add: good_image_def)
  have "\<not> is_single f" using assms(11) by (simp add: is_single_def)
  from initiateUpload_panics [OF assms(1,2) files assms(6,7,8,9,10) this assms(12) [folded file_key_def] assms(13)]
  obtain w' where run: "initiateUpload env (Some store) (map upload_of ms) lotId w = (Panic nil_deref, w')"
    and same: "same_tables (w_db w) (w_db w')" by blast
  from run have "initiateUpload env (sv_imageStore sv) (map upload_of ms) lotId w = (Panic nil_deref, w')"
    by (simp add: assms(4))
  with assms(3) compl have "serve env sv (CallGeneratePresignedUrl (Inr (upload_request ms lotId))) w = (Panic nil_deref, w')"
    by (rule serve_upload_panics)
  with same show ?thesis by blast
qed

theorem large_after_small_panics_witness:
  "\<exists>w'. serve sample_env sample_server (CallGeneratePresignedUrl (Inr (upload_request [sample_image CHR ''c'' 157286400] sample_lot_text)))
     small_world = (Panic nil_deref, w')"
proof -
  let ?m = "sample_image CHR ''c'' 157286400"
  have m: "good_image m \<and> servable (upload_of m)" if "m \<in> set [?m]" for m
    using that sample_good_image [of "CHR ''c''"] sample_servable [of "CHR ''c''"] by simp
  have sha: "uf_Sha256 (upload_of ?m) = sample_sha CHR ''c''" by (simp add: upload_of_def sample_image_def)
  have "find_pending (sha_bytes (uf_Sha256 (upload_of ?m)), sample_lot_id) (attempts (w_db small_world)) = Some small_attempt"
    unfolding small_world_attempts sha sample_sha_bytes
    by (simp add: find_pending_def small_attempt_def sample_attempt_def is_pending_def pending_key_def)
  moreover have "\<not> stored (w_db small_world) (upload_of ?m)"
    unfolding stored_def sha sample_sha_bytes
    by (simp add: completed_blob_def small_world_def sample_world_def sample_db_def replicate_eq_replicate)
  moreover have "listable b" if "b \<in> set (attempts (w_db small_world))" for b
    using that by (simp add: small_world_attempts small_attempt_def listable_def)
  ultimately have "\<exists>w'. serve sample_env sample_server (CallGeneratePresignedUrl (Inr (upload_request [?m] sample_lot_text))) small_world
      = (Panic nil_deref, w') \<and> same_tables (w_db small_world) (w_db w')"
    by (intro large_after_small_panics [OF sample_outside small_world_wf sample_accepts sample_server_store m sample_parse
          small_world_lot, where f = "upload_of ?m" and a = small_attempt])
      (simp_all add: intentBatchUpload_eq upload_of_def sample_image_def multipartThreshold_def small_attempt_def del: serve.simps)
  then show ?thesis by blast
qed

section \<open>Later requests\<close>

text \<open>C12: two successful requests, all of whose files have lower-case SHA-256 hashes, serve the same upload attempt for a hash
  and lot that they share, whatever requests the server answered in between: a URL of the later one is for the same object, and for the
  same multipart upload if it is one.\<close>

theorem later_request_resumes:
  assumes "db_wf (w_db w)" and "random_ok env" and "range_ok env" and "random_ok env'" and "range_ok env'"
    and "\<And>f. f \<in> set fs \<Longrightarrow> lower_sha (uf_Sha256 f)" and "\<And>f. f \<in> set fs' \<Longrightarrow> lower_sha (uf_Sha256 f)"
    and "initiateUpload env (Some store) fs lotId w = (Ret res, w1)" and "server_run sv (Up w1) s"
    and "initiateUpload env' (Some store') fs' lotId' (world_of s) = (Ret res', w2)"
    and "uuid_Parse lotId' = uuid_Parse lotId"
    and "u \<in> set (ur_presignedFileUrls res)" and "u' \<in> set (ur_presignedFileUrls res')"
    and "uf_Sha256 (pF_uploadFile u') = uf_Sha256 (pF_uploadFile u)"
  shows "\<exists>a a'. at_StorageKey a' = at_StorageKey a \<and> at_UploadID a' = at_UploadID a \<and> at_ID a' = at_ID a \<and>
    serves_attempt env (is_s3Storage store) a u \<and> serves_attempt env' (is_s3Storage store') a' u'"
proof -
  have "\<exists>a a'. same_identity a a' \<and> serves_attempt env (is_s3Storage store) a u \<and> serves_attempt env' (is_s3Storage store') a' u'"
    using assms by (rule later_request_same_attempt)
  then show ?thesis unfolding same_identity_def by blast
qed

theorem later_request_resumes_witness:
  "\<exists>res w1 res' w2 u u'. initiateUpload sample_env (Some sample_store) [sample_file] sample_lot_text sample_world = (Ret res, w1) \<and>
     initiateUpload sample_env (Some sample_store) [sample_file] sample_lot_text w1 = (Ret res', w2) \<and>
     u \<in> set (ur_presignedFileUrls res) \<and> u' \<in> set (ur_presignedFileUrls res') \<and>
     (\<exists>a a'. at_StorageKey a' = at_StorageKey a \<and> at_UploadID a' = at_UploadID a \<and> at_ID a' = at_ID a \<and>
       serves_attempt sample_env (is_s3Storage sample_store) a u \<and> serves_attempt sample_env (is_s3Storage sample_store) a' u')"
proof -
  obtain res w1 where first: "initiateUpload sample_env (Some sample_store) [sample_file] sample_lot_text sample_world = (Ret res, w1)"
    using sample_file_run [OF sample_world_wf sample_lot] by blast
  have g: "grown (w_db sample_world) (w_db w1)"
    using initiateUpload_grown [OF sample_world_wf, of sample_env "Some sample_store" "[sample_file]" sample_lot_text] first by simp
  then have wf: "db_wf (w_db w1)" and lot: "sample_lot_id \<in> lot_ids (w_db w1)" and blobs: "image_blobs (w_db w1) = image_blobs sample_db"
    using grown_lot_ids [OF g] sample_lot by (auto simp: grown_def history_def sample_world_def)
  obtain res' w2 where second: "initiateUpload sample_env (Some sample_store) [sample_file] sample_lot_text w1 = (Ret res', w2)"
    using sample_file_run [OF wf lot] by blast
  obtain u where u: "u \<in> set (ur_presignedFileUrls res)" "pF_uploadFile u = sample_file"
    using sample_file_url [OF first sample_world_wf] by (auto simp: sample_world_def)
  obtain u' where u': "u' \<in> set (ur_presignedFileUrls res')" "pF_uploadFile u' = sample_file"
    using sample_file_url [OF second wf blobs] by blast
  have run: "server_run sample_server (Up w1) (Up w1)" by simp
  have second': "initiateUpload sample_env (Some sample_store) [sample_file] sample_lot_text (world_of (Up w1)) = (Ret res', w2)"
    using second by simp
  note outside = outside_okD(4,6) [OF sample_outside]
  have "\<exists>a a'. at_StorageKey a' = at_StorageKey a \<and> at_UploadID a' = at_UploadID a \<and> at_ID a' = at_ID a \<and>
       serves_attempt sample_env (is_s3Storage sample_store) a u \<and> serves_attempt sample_env (is_s3Storage sample_store) a' u'"
    by (rule later_request_resumes [OF sample_world_wf outside outside sample_file_sha sample_file_sha first run second' refl u(1) u'(1)])
      (simp_all add: u(2) u'(2))
  with first second u(1) u'(1) show ?thesis by blast
qed

end
