(* ===== verification/Processes.thy ===== *)
theory Processes
  imports Go_Prelude
begin

text \<open>
  Handlers that run concurrently. A \<open>prog\<close> of \<open>Go_Prelude\<close> is one step from a state to a state; a \<open>proc\<close> is a
  tree of such steps, between which the steps of other handlers may come. \<open>alone\<close> runs one without interruption, and is a morphism from
  the operators on processes to those on programs; \<open>pool_step\<close> interleaves the processes of a pool.
\<close>

section \<open>Processes\<close>

text \<open>A step changes the state and goes on with a process that depends on the state it found.\<close>

datatype ('s, 'e, 'a) proc =
    Done "('e, 'a) outcome"
  | Step "'s \<Rightarrow> 's" "'s \<Rightarrow> ('s, 'e, 'a) proc"

definition atom :: "('s, 'e, 'a) prog \<Rightarrow> ('s, 'e, 'a) proc" where
  "atom m = Step (\<lambda>s. snd (m s)) (\<lambda>s. Done (fst (m s)))"

primrec pbind :: "('s, 'e, 'a) proc \<Rightarrow> ('a \<Rightarrow> ('s, 'e, 'b) proc) \<Rightarrow> ('s, 'e, 'b) proc" where
  "pbind (Done r) f = (case r of Ret a \<Rightarrow> f a | Fail e \<Rightarrow> Done (Fail e) | Panic p \<Rightarrow> Done (Panic p))"
| "pbind (Step u k) f = Step u (\<lambda>s. pbind (k s) f)"

text \<open>What follows whatever the outcome, as a deferred call does.\<close>

primrec pthen :: "('s, 'e, 'a) proc \<Rightarrow> (('e, 'a) outcome \<Rightarrow> ('s, 'e, 'b) proc) \<Rightarrow> ('s, 'e, 'b) proc" where
  "pthen (Done r) f = f r"
| "pthen (Step u k) f = Step u (\<lambda>s. pthen (k s) f)"

definition perror :: "('s, 'e, 'a) proc \<Rightarrow> ('e \<Rightarrow> 'e) \<Rightarrow> ('s, 'e, 'a) proc" where
  "perror p h = pthen p (\<lambda>r. Done (case r of Ret a \<Rightarrow> Ret a | Fail e \<Rightarrow> Fail (h e) | Panic q \<Rightarrow> Panic q))"

fun pmapp :: "('a \<Rightarrow> ('s, 'e, 'b) proc) \<Rightarrow> 'a list \<Rightarrow> ('s, 'e, 'b list) proc" where
  "pmapp f [] = Done (Ret [])"
| "pmapp f (x # xs) = pbind (f x) (\<lambda>y. pbind (pmapp f xs) (\<lambda>ys. Done (Ret (y # ys))))"

section \<open>A process without interruption\<close>

primrec alone :: "('s, 'e, 'a) proc \<Rightarrow> ('s, 'e, 'a) prog" where
  "alone (Done r) = liftp r"
| "alone (Step u k) = (\<lambda>s. alone (k s) (u s))"

definition thenp :: "('s, 'e, 'a) prog \<Rightarrow> (('e, 'a) outcome \<Rightarrow> ('s, 'e, 'b) prog) \<Rightarrow> ('s, 'e, 'b) prog" where
  "thenp m f = (\<lambda>s. case m s of (r, s') \<Rightarrow> f r s')"

lemma alone_atom [simp]: "alone (atom m) = m"
  by (simp add: atom_def fun_eq_iff)

lemma alone_pthen [simp]: "alone (pthen p f) = thenp (alone p) (\<lambda>r. alone (f r))"
  by (induction p) (simp_all add: thenp_def fun_eq_iff)

lemma alone_pbind [simp]: "alone (pbind p f) = bindp (alone p) (\<lambda>a. alone (f a))"
  by (induction p) (auto simp: bindp_def fun_eq_iff split: outcome.splits)

lemma alone_perror [simp]: "alone (perror p h) = on_error (alone p) h"
  by (auto simp: perror_def thenp_def on_error_def fun_eq_iff split: prod.splits outcome.splits)

lemma alone_pmapp [simp]: "alone (pmapp f xs) = mapp (\<lambda>x. alone (f x)) xs"
  by (induction xs) simp_all

section \<open>Normal form\<close>

text \<open>A handler is a call, followed by what its outcome leads to.\<close>

lemma pthen_assoc: "pthen (pthen p f) g = pthen p (\<lambda>r. pthen (f r) g)"
  by (induction p) simp_all

lemma pbind_pthen: "pbind p f = pthen p (\<lambda>r. case r of Ret a \<Rightarrow> f a | Fail e \<Rightarrow> Done (Fail e) | Panic q \<Rightarrow> Done (Panic q))"
  by (induction p) simp_all

lemma pthen_atom: "pthen (atom m) f = Step (\<lambda>s. snd (m s)) (\<lambda>s. f (fst (m s)))"
  by (simp add: atom_def)

section \<open>What every step does\<close>

primrec every_step :: "('s \<Rightarrow> 's \<Rightarrow> bool) \<Rightarrow> ('s, 'e, 'a) proc \<Rightarrow> bool" where
  "every_step R (Done r) \<longleftrightarrow> True"
| "every_step R (Step u k) \<longleftrightarrow> (\<forall>s. R s (u s) \<and> every_step R (k s))"

named_theorems every_step_intros

lemma every_step_Done [every_step_intros]: "every_step R (Done r)"
  by simp

lemma every_step_atom: "(\<And>s. R s (snd (m s))) \<Longrightarrow> every_step R (atom m)"
  by (simp add: atom_def)

lemma every_step_pthen [every_step_intros]: "every_step R p \<Longrightarrow> (\<And>r. every_step R (f r)) \<Longrightarrow> every_step R (pthen p f)"
  by (induction p) simp_all

lemma every_step_pbind [every_step_intros]: "every_step R p \<Longrightarrow> (\<And>a. every_step R (f a)) \<Longrightarrow> every_step R (pbind p f)"
  by (induction p) (simp_all split: outcome.splits)

lemma every_step_perror [every_step_intros]: "every_step R p \<Longrightarrow> every_step R (perror p h)"
  unfolding perror_def by (intro every_step_intros)

lemma every_step_pmapp [every_step_intros]: "(\<And>x. every_step R (f x)) \<Longrightarrow> every_step R (pmapp f xs)"
  by (induction xs) (auto intro!: every_step_intros)

section \<open>Pools\<close>

text \<open>Any process of the pool makes the next step. A panic in one of them ends them all.\<close>

fun panicked :: "('s, 'e, 'a) proc \<Rightarrow> bool" where
  "panicked (Done (Panic p)) \<longleftrightarrow> True"
| "panicked _ \<longleftrightarrow> False"

type_synonym ('s, 'e, 'a) pool = "('s, 'e, 'a) proc list \<times> 's"

inductive pool_step :: "('s, 'e, 'a) pool \<Rightarrow> ('s, 'e, 'a) pool \<Rightarrow> bool" where
  move: "i < length ps \<Longrightarrow> ps ! i = Step u k \<Longrightarrow> \<not> list_ex panicked ps \<Longrightarrow> pool_step (ps, s) (ps[i := k s], u s)"

inductive_cases pool_stepE: "pool_step (ps, s) t"

text \<open>The schedule as a list of the processes that move.\<close>

fun schedule :: "nat list \<Rightarrow> ('s, 'e, 'a) pool \<Rightarrow> ('s, 'e, 'a) pool" where
  "schedule [] c = c"
| "schedule (i # is) (ps, s) = (if i < length ps \<and> \<not> list_ex panicked ps
     then (case ps ! i of Done r \<Rightarrow> schedule is (ps, s) | Step u k \<Rightarrow> schedule is (ps[i := k s], u s))
     else schedule is (ps, s))"

lemma schedule_steps: "pool_step\<^sup>*\<^sup>* c (schedule is c)"
proof (induction "is" c rule: schedule.induct)
  case (2 i "is" ps s)
  show ?case
  proof (cases "i < length ps \<and> \<not> list_ex panicked ps")
    case True
    show ?thesis
    proof (cases "ps ! i")
      case (Step u k)
      with True have "pool_step (ps, s) (ps[i := k s], u s)" by (intro pool_step.move) simp_all
      with 2(2) [OF True Step] True Step show ?thesis by (simp add: converse_rtranclp_into_rtranclp)
    qed (use 2(1) True in simp)
  qed (use 2(3) in auto)
qed simp

text \<open>A pool that cannot move has been answered, or has panicked.\<close>

fun finished :: "('s, 'e, 'a) proc \<Rightarrow> bool" where
  "finished (Done r) \<longleftrightarrow> True"
| "finished (Step u k) \<longleftrightarrow> False"

lemma pool_stuck: "\<nexists>c'. pool_step (ps, s) c' \<Longrightarrow> list_all finished ps \<or> list_ex panicked ps"
proof (cases "list_all finished ps \<or> list_ex panicked ps")
  case False
  then obtain i where i: "i < length ps" "\<not> finished (ps ! i)" and calm: "\<not> list_ex panicked ps" unfolding list_all_length by blast
  from i(2) obtain u k where "ps ! i = Step u k" by (cases "ps ! i") simp_all
  from pool_step.move [OF i(1) this calm] have "pool_step (ps, s) (ps[i := k s], u s)" .
  moreover assume "\<nexists>c'. pool_step (ps, s) c'"
  ultimately show ?thesis by blast
qed

text \<open>A pool of one runs its process without interruption.\<close>

lemma pool_alone: "pool_step\<^sup>*\<^sup>* ([p], s) ([Done (fst (alone p s))], snd (alone p s))"
proof (induction p arbitrary: s)
  case (Step u k)
  have "pool_step ([Step u k], s) ([Step u k][0 := k s], u s)" by (rule pool_step.move) simp_all
  with Step [of "k s" "u s"] show ?case by (simp add: converse_rtranclp_into_rtranclp)
qed simp

text \<open>One process of a pool runs its next part, while the others wait.\<close>

lemma pool_part:
  assumes "i < length ps" and "\<And>j. j < length ps \<Longrightarrow> j \<noteq> i \<Longrightarrow> \<not> panicked (ps ! j)"
  shows "pool_step\<^sup>*\<^sup>* (ps[i := pthen p f], s) (ps[i := f (fst (alone p s))], snd (alone p s))"
proof (induction p arbitrary: s)
  case (Step u k)
  have "\<not> list_ex panicked (ps[i := Step u (\<lambda>s. pthen (k s) f)])"
    using assms by (auto simp: list_ex_length nth_list_update split: if_splits)
  then have "pool_step (ps[i := Step u (\<lambda>s. pthen (k s) f)], s) ((ps[i := Step u (\<lambda>s. pthen (k s) f)])[i := pthen (k s) f], u s)"
    using assms(1) by (intro pool_step.move) simp_all
  then have "pool_step (ps[i := pthen (Step u k) f], s) (ps[i := pthen (k s) f], u s)" by simp
  from converse_rtranclp_into_rtranclp [OF this Step] show ?case by simp
qed simp

section \<open>How many calls a process makes\<close>

text \<open>
  In states with \<open>I\<close>, whatever other processes do between its steps, the process makes at most \<open>n\<close> steps and ends with an
  outcome with \<open>P\<close>.
\<close>

primrec calls_within :: "('s \<Rightarrow> bool) \<Rightarrow> (('e, 'a) outcome \<Rightarrow> bool) \<Rightarrow> ('s, 'e, 'a) proc \<Rightarrow> nat \<Rightarrow> bool" where
  "calls_within I P (Done r) = (\<lambda>n. P r)"
| "calls_within I P (Step u k) = (\<lambda>n. 0 < n \<and> (\<forall>s. I s \<longrightarrow> calls_within I P (k s) (n - 1)))"

text \<open>The usual condition speaks of the results only.\<close>

abbreviation yields_within :: "('s \<Rightarrow> bool) \<Rightarrow> ('a \<Rightarrow> bool) \<Rightarrow> ('s, 'e, 'a) proc \<Rightarrow> nat \<Rightarrow> bool" where
  "yields_within I P \<equiv> calls_within I (\<lambda>r. \<forall>a. r = Ret a \<longrightarrow> P a)"

lemma calls_within_mono: "calls_within I P p n \<Longrightarrow> n \<le> m \<Longrightarrow> (\<And>r. P r \<Longrightarrow> Q r) \<Longrightarrow> calls_within I Q p m"
proof (induction p arbitrary: n m)
  case (Step u k)
  then have "calls_within I Q (k s) (m - 1)" if "I s" for s
    using Step.prems(1) that by (intro Step.IH [where n = "n - 1"]) auto
  with Step.prems(1,2) show ?case by simp
qed simp

lemma calls_within_pthen:
  "calls_within I P p n \<Longrightarrow> (\<And>r. P r \<Longrightarrow> calls_within I Q (f r) m) \<Longrightarrow> calls_within I Q (pthen p f) (n + m)"
proof (induction p arbitrary: n)
  case (Done r)
  then show ?case by (auto intro: calls_within_mono [of I Q _ m])
next
  case (Step u k)
  then have n: "0 < n" and k: "\<And>s. I s \<Longrightarrow> calls_within I P (k s) (n - 1)" by simp_all
  have "calls_within I Q (pthen (k s) f) (n - 1 + m)" if "I s" for s by (rule Step.IH [OF _ k [OF that] Step.prems(2)]) simp
  with n show ?case by simp
qed

lemma yields_within_pbind:
  assumes "yields_within I P p n" and "\<And>a. P a \<Longrightarrow> yields_within I Q (f a) m"
  shows "yields_within I Q (pbind p f) (n + m)"
  unfolding pbind_pthen by (rule calls_within_pthen [OF assms(1)]) (auto simp: assms(2) split: outcome.split)

lemma yields_within_perror: "yields_within I P p n \<Longrightarrow> yields_within I P (perror p h) n"
  unfolding perror_def by (drule calls_within_pthen [where m = 0]) (auto split: outcome.split)

lemma yields_within_Done: "(\<And>a. r = Ret a \<Longrightarrow> P a) \<Longrightarrow> yields_within I P (Done r) n"
  by simp

lemma yields_within_atom: "(\<And>s a t. I s \<Longrightarrow> m s = (Ret a, t) \<Longrightarrow> P a) \<Longrightarrow> yields_within I P (atom m) (Suc n)"
  by (auto simp: atom_def prod_eq_iff)

lemma yields_within_pmapp:
  assumes "\<And>x. x \<in> set xs \<Longrightarrow> yields_within I (\<lambda>_. True) (f x) n"
  shows "yields_within I (\<lambda>_. True) (pmapp f xs) (length xs * n)"
  using assms
proof (induction xs)
  case (Cons x xs)
  have "yields_within I (\<lambda>_. True) (pbind (f x) (\<lambda>y. pbind (pmapp f xs) (\<lambda>ys. Done (Ret (y # ys))))) (n + (length xs * n + 0))"
    using Cons.prems by (intro yields_within_pbind [where P = "\<lambda>_. True"] Cons.IH) simp_all
  then show ?case by simp
qed simp

lemma pool_calls:
  assumes "(pool_step ^^ k) (ps, s) (ps', s')" and "list_all2 (calls_within (\<lambda>_. True) P) ps ns"
  shows "\<exists>ns'. list_all2 (calls_within (\<lambda>_. True) P) ps' ns' \<and> k + sum_list ns' \<le> sum_list ns"
  using assms(1)
proof (induction k arbitrary: ps' s')
  case 0
  with assms(2) show ?case by auto
next
  case (Suc k)
  then obtain qs t where run: "(pool_step ^^ k) (ps, s) (qs, t)" and last: "pool_step (qs, t) (ps', s')" by auto
  from Suc.IH [OF run] obtain ms where ms: "list_all2 (calls_within (\<lambda>_. True) P) qs ms" "k + sum_list ms \<le> sum_list ns" by blast
  from last show ?case
  proof (cases rule: pool_step.cases)
    case (move i u f)
    with ms(1) have i: "i < length ms" and "calls_within (\<lambda>_. True) P (Step u f) (ms ! i)"
      by (auto dest: list_all2_lengthD list_all2_nthD)
    then have pos: "0 < ms ! i" and f: "calls_within (\<lambda>_. True) P (f t) (ms ! i - 1)" by simp_all
    have "list_all2 (calls_within (\<lambda>_. True) P) ps' (ms[i := ms ! i - 1])"
      using ms(1) f move(1) by (simp add: list_all2_update_cong)
    moreover have "sum_list (ms[i := ms ! i - 1]) + 1 = sum_list ms"
      using i pos elem_le_sum_list [OF i] by (simp add: sum_list_update)
    ultimately show ?thesis using ms(2) by (intro exI [of _ "ms[i := ms ! i - 1]"]) simp
  qed
qed

section \<open>Relations that every step keeps\<close>

locale step_relation =
  fixes R :: "'s \<Rightarrow> 's \<Rightarrow> bool"
  assumes R_refl: "R s s" and R_trans: "R s t \<Longrightarrow> R t u \<Longrightarrow> R s u"
begin

lemma every_step_alone: "every_step R p \<Longrightarrow> R s (snd (alone p s))"
  by (induction p arbitrary: s) (auto intro: R_refl R_trans)

lemma pool_step_related:
  "pool_step c c' \<Longrightarrow> list_all (every_step R) (fst c) \<Longrightarrow> list_all (every_step R) (fst c') \<and> R (snd c) (snd c')"
proof (induction rule: pool_step.induct)
  case (move i ps u k s)
  then have "every_step R (Step u k)" by (auto simp: list_all_length)
  with move show ?case by (auto simp: list_all_length nth_list_update)
qed

end

end
