(* ===== verification/Shared_Connection.thy ===== *)
theory Shared_Connection
  imports Server_Laws
begin

text \<open>
  The one database connection of the process. \<open>createRpc\<close> (src/cmd/api/main.go) hands the connection of
  \<open>ConnectToDB\<close> to both servers: upload requests open transactions on it, and every other request runs its
  statements on it. The transactions are those of the vendored pgx (github.com/jackc/pgx/v5, tx.go and
  conn.go), on top of a PostgreSQL session.

  \<^item> \<open>pg_conn\<close>: the tables as committed and as the session sees them, the transaction status of the session, and whether
    the connection has been closed, for good: nothing in the program opens it again.
  \<^item> \<open>wire\<close>: what happens to one command on its way: it is answered, it is not sent because its context has ended, or
    the connection breaks, before or after the server has run it.
  \<^item> \<open>conn_Begin\<close>, \<open>tx_Commit\<close>, \<open>tx_Rollback\<close>, \<open>dbtx_query\<close>: what the handlers call. Commands that overlap are refused with
    \<open>conn busy\<close>, an error of the kind \<open>NotSent\<close>. The handlers that call them are in \<open>Request_Processes\<close>.
\<close>

section \<open>The session\<close>

datatype tx_status = TxIdle | TxActive | TxAborted

record pg_conn =
  pc_committed :: db
  pc_current :: db
  pc_status :: tx_status
  pc_closed :: bool

definition idle_conn :: "db \<Rightarrow> pg_conn" where
  "idle_conn d = \<lparr>pc_committed = d, pc_current = d, pc_status = TxIdle, pc_closed = False\<rparr>"

text \<open>Leaving a transaction without committing it: the tables go back, sequences do not.\<close>

definition conn_back :: "pg_conn \<Rightarrow> pg_conn" where
  "conn_back c = (let d = rolled_back (pc_committed c) (pc_current c)
     in c\<lparr>pc_committed := d, pc_current := d, pc_status := TxIdle\<rparr>)"

text \<open>\<open>Conn.die\<close>: the session ends, and with it its transaction.\<close>

definition conn_die :: "pg_conn \<Rightarrow> pg_conn" where
  "conn_die c = (if pc_closed c then c else (conn_back c)\<lparr>pc_closed := True\<rparr>)"

definition conn_closed :: err where
  "conn_closed = errors_New ''conn closed''"

definition tx_aborted :: err where
  "tx_aborted = pg_err ''25P02'' ''current transaction is aborted, commands ignored until end of transaction block'' ''''"

definition ErrTxCommitRollback :: err where
  "ErrTxCommitRollback = errors_New ''commit unexpectedly resulted in rollback''"

section \<open>Commands\<close>

datatype wire = Sent | NotSent err | Cut bool err

type_synonym 'a conn_cmd = "(pg_conn, err, 'a) prog"

definition conn_exec :: "wire \<Rightarrow> 'a conn_cmd \<Rightarrow> 'a conn_cmd" where
  "conn_exec wr cmd = (\<lambda>c.
     if pc_closed c then (Fail conn_closed, c)
     else case wr of
            Sent \<Rightarrow> cmd c
          | NotSent e \<Rightarrow> (Fail e, c)
          | Cut reached e \<Rightarrow> (Fail e, conn_die (if reached then snd (cmd c) else c)))"

text \<open>\<open>BEGIN\<close> inside a transaction is only a warning, and so are \<open>COMMIT\<close> and \<open>ROLLBACK\<close> outside one.\<close>

definition begin_cmd :: "unit conn_cmd" where
  "begin_cmd = (\<lambda>c. case pc_status c of
      TxAborted \<Rightarrow> (Fail tx_aborted, c)
    | _ \<Rightarrow> (Ret (), c\<lparr>pc_status := TxActive\<rparr>))"

definition commit_cmd :: "string conn_cmd" where
  "commit_cmd = (\<lambda>c. case pc_status c of
      TxIdle \<Rightarrow> (Ret ''COMMIT'', c)
    | TxActive \<Rightarrow> (Ret ''COMMIT'', c\<lparr>pc_committed := pc_current c, pc_status := TxIdle\<rparr>)
    | TxAborted \<Rightarrow> (Ret ''ROLLBACK'', conn_back c))"

definition rollback_cmd :: "string conn_cmd" where
  "rollback_cmd = (\<lambda>c. (Ret ''ROLLBACK'', if pc_status c = TxIdle then c else conn_back c))"

text \<open>A statement: outside a transaction it is committed at once; an error of the server inside one aborts it.\<close>

definition query_cmd :: "(db, err, 'a) prog \<Rightarrow> 'a conn_cmd" where
  "query_cmd stmt = (\<lambda>c.
     let (r, d) = stmt (pc_current c)
     in case pc_status c of
          TxAborted \<Rightarrow> (Fail tx_aborted, c)
        | TxIdle \<Rightarrow> (r, c\<lparr>pc_committed := d, pc_current := d\<rparr>)
        | TxActive \<Rightarrow> (r, c\<lparr>pc_current := d,
            pc_status := (case r of Fail e \<Rightarrow> if errors_find as_pg e \<noteq> None then TxAborted else TxActive | _ \<Rightarrow> TxActive)\<rparr>))"

section \<open>Transactions of pgx\<close>

text \<open>
  \<open>BeginTx\<close>, and \<open>Commit\<close> and \<open>Rollback\<close> of a transaction; \<open>closed\<close> is the field of \<open>dbTx\<close> that either of them sets.
\<close>

definition ErrTxClosed :: err where
  "ErrTxClosed = errors_New ''tx is closed''"

definition conn_Begin :: "wire \<Rightarrow> unit conn_cmd" where
  "conn_Begin wr = (\<lambda>c. case conn_exec wr begin_cmd c of
      (Fail e, c') \<Rightarrow> (Fail e, conn_die c')
    | (r, c') \<Rightarrow> (r, c'))"

definition tx_Commit :: "bool \<Rightarrow> wire \<Rightarrow> unit conn_cmd" where
  "tx_Commit closed wr = (\<lambda>c. if closed then (Fail ErrTxClosed, c) else case conn_exec wr commit_cmd c of
      (Fail e, c') \<Rightarrow> (Fail e, if pc_status c' \<noteq> TxIdle then conn_die c' else c')
    | (Panic p, c') \<Rightarrow> (Panic p, c')
    | (Ret tag, c') \<Rightarrow> (if tag = ''ROLLBACK'' then Fail ErrTxCommitRollback else Ret (), c'))"

definition tx_Rollback :: "bool \<Rightarrow> wire \<Rightarrow> unit conn_cmd" where
  "tx_Rollback closed wr = (\<lambda>c. if closed then (Fail ErrTxClosed, c) else case conn_exec wr rollback_cmd c of
      (Fail e, c') \<Rightarrow> (Fail e, conn_die c')
    | (Panic p, c') \<Rightarrow> (Panic p, c')
    | (Ret tag, c') \<Rightarrow> (Ret (), c'))"

section \<open>Queries on a connection or in a transaction\<close>

text \<open>
  src/internal/database/filestore/db.go: \<open>Queries\<close> sends its statements to a \<open>DBTX\<close>, the connection itself
  (\<open>New\<close>) or a transaction on it (\<open>WithTx\<close>). A transaction only adds the check that it is not closed.
\<close>

datatype DBTX = OnConn | OnTx bool

record Queries =
  q_db :: DBTX

definition New :: "DBTX \<Rightarrow> Queries" where
  "New d = \<lparr>q_db = d\<rparr>"

definition WithTx :: "Queries \<Rightarrow> DBTX \<Rightarrow> Queries" where
  "WithTx q tx = \<lparr>q_db = tx\<rparr>"

definition dbtx_query :: "Queries \<Rightarrow> wire \<Rightarrow> (db, err, 'a) prog \<Rightarrow> 'a conn_cmd" where
  "dbtx_query q wr stmt = (case q_db q of
      OnConn \<Rightarrow> conn_exec wr (query_cmd stmt)
    | OnTx closed \<Rightarrow> if closed then liftp (Fail ErrTxClosed) else conn_exec wr (query_cmd stmt))"

text \<open>The queries of \<open>NewLotServer\<close> and of the image store before \<open>WithTx\<close>.\<close>

definition server_queries :: Queries where
  "server_queries = New OnConn"

section \<open>A closed connection\<close>

lemma dbtx_query_open [simp]:
  "dbtx_query server_queries wr q = conn_exec wr (query_cmd q)"
  "dbtx_query (WithTx s (OnTx False)) wr q = conn_exec wr (query_cmd q)"
  by (simp_all add: dbtx_query_def server_queries_def New_def WithTx_def)

lemma conn_exec_closed: "pc_closed c \<Longrightarrow> conn_exec wr cmd c = (Fail conn_closed, c)"
  by (simp add: conn_exec_def)

lemma conn_die_closed [simp]: "pc_closed (conn_die c)"
  by (simp add: conn_die_def)

section \<open>Invariant of the connection\<close>

definition conn_wf :: "pg_conn \<Rightarrow> bool" where
  "conn_wf c \<longleftrightarrow> db_wf (pc_committed c) \<and> grown (pc_committed c) (pc_current c) \<and>
     (pc_status c = TxIdle \<longrightarrow> pc_current c = pc_committed c)"

text \<open>What one command may do: the invariant stays, and the committed tables only grow.\<close>

definition conn_ok :: "pg_conn \<Rightarrow> pg_conn \<Rightarrow> bool" where
  "conn_ok c c' \<longleftrightarrow> (conn_wf c \<longrightarrow> conn_wf c' \<and> grown (pc_committed c) (pc_committed c'))"

lemma conn_ok_refl: "conn_ok c c"
  by (simp add: conn_ok_def conn_wf_def grown_refl)

lemma conn_ok_trans: "conn_ok c c' \<Longrightarrow> conn_ok c' c'' \<Longrightarrow> conn_ok c c''"
  using grown_trans by (auto simp: conn_ok_def)

lemma rolled_back_grown: "db_wf d0 \<Longrightarrow> grown d0 d \<Longrightarrow> grown d0 (rolled_back d0 d)"
  using rolled_back_wf by (auto simp: grown_def seqs_le_def history_def rolled_back_def)

lemma conn_ok_back: "conn_ok c (conn_back c)"
  using rolled_back_grown [of "pc_committed c" "pc_current c"]
  by (auto simp: conn_ok_def conn_wf_def conn_back_def Let_def grown_refl grown_def)

lemma conn_ok_die: "conn_ok c (conn_die c)"
  using conn_ok_back [of c] by (auto simp: conn_ok_def conn_die_def conn_wf_def grown_refl)

lemma conn_ok_begin: "conn_ok c (snd (begin_cmd c))"
  by (cases "pc_status c") (auto simp: begin_cmd_def conn_ok_def conn_wf_def grown_refl)

lemma conn_ok_commit: "conn_ok c (snd (commit_cmd c))"
proof (cases "pc_status c")
  case TxAborted
  then show ?thesis using conn_ok_back by (simp add: commit_cmd_def)
qed (auto simp: commit_cmd_def conn_ok_def conn_wf_def grown_refl, auto simp: grown_def)

lemma conn_ok_rollback: "conn_ok c (snd (rollback_cmd c))"
  using conn_ok_back conn_ok_refl by (simp add: rollback_cmd_def)

lemma conn_ok_query_cmd:
  assumes grow: "\<And>d0 d. grown d0 d \<Longrightarrow> grown d0 (snd (stmt d))"
  shows "conn_ok c (snd (query_cmd stmt c))"
proof -
  obtain r d where run: "stmt (pc_current c) = (r, d)" by fastforce
  then have grow: "grown d0 (pc_current c) \<Longrightarrow> grown d0 d" for d0 using grow [of d0 "pc_current c"] by simp
  show ?thesis
  proof (cases "pc_status c")
    case TxIdle
    then show ?thesis using run grow grown_refl by (auto simp: query_cmd_def conn_ok_def conn_wf_def grown_def)
  next
    case TxActive
    then show ?thesis using run grow grown_refl
      by (auto simp: query_cmd_def conn_ok_def conn_wf_def split: outcome.splits)
  qed (simp add: query_cmd_def run conn_ok_refl)
qed

lemma conn_ok_exec: "conn_ok c (snd (cmd c)) \<Longrightarrow> conn_ok c (snd (conn_exec wr cmd c))"
  using conn_ok_trans [OF _ conn_ok_die] conn_ok_refl conn_ok_die by (auto simp: conn_exec_def split: wire.splits)

lemma conn_ok_transaction:
  "conn_ok c (snd (conn_Begin wr c))" "conn_ok c (snd (tx_Commit closed wr c))" "conn_ok c (snd (tx_Rollback closed wr c))"
proof -
  have "conn_ok c (snd (conn_exec wr begin_cmd c))" "conn_ok c (snd (conn_exec wr commit_cmd c))" "conn_ok c (snd (conn_exec wr rollback_cmd c))"
    by (rule conn_ok_exec, rule conn_ok_begin conn_ok_commit conn_ok_rollback)+
  then show "conn_ok c (snd (conn_Begin wr c))" "conn_ok c (snd (tx_Commit closed wr c))" "conn_ok c (snd (tx_Rollback closed wr c))"
    using conn_ok_trans [OF _ conn_ok_die] conn_ok_refl
    by (auto simp: conn_Begin_def tx_Commit_def tx_Rollback_def split: prod.splits outcome.splits)
qed

lemma conn_wf_idle: "db_wf d \<Longrightarrow> conn_wf (idle_conn d)"
  by (simp add: conn_wf_def idle_conn_def grown_refl)

end
