(* ===== verification/Request_Processes.thy ===== *)
theory Request_Processes
  imports Processes Shared_Connection
begin

text \<open>
  The handlers of the server as processes over the one connection that they share. \<open>serve\<close> runs a request from beginning to
  end, with a transaction that nothing disturbs; here each call to the outside is a step of its own, and
  the commands of the transaction go over the connection of \<open>Shared_Connection\<close>. The calls with their errors are those of \<open>Image_Upload\<close> and
  \<open>Image_Store\<close>: a function that makes one call is its step (\<open>outside\<close>, \<open>send\<close>), a function that makes several is written
  out once more as a process, with the suffix \<open>_proc\<close>.
\<close>

section \<open>What the handlers share\<close>

record 's shared =
  sh_conn :: pg_conn
  sh_s3 :: 's
  sh_rand :: nat

type_synonym ('s, 'a) handler_proc = "('s shared, err, 'a) proc"

text \<open>What becomes of the commands of one request on their way; the rest of the outside is the request's \<open>env\<close>.\<close>

record wires =
  wr_begin :: wire
  wr_query :: "query \<Rightarrow> wire"
  wr_commit :: wire
  wr_rollback :: wire

definition on_conn :: "'a conn_cmd \<Rightarrow> ('s shared, err, 'a) prog" where
  "on_conn cmd = (\<lambda>s. case cmd (sh_conn s) of (r, c) \<Rightarrow> (r, s\<lparr>sh_conn := c\<rparr>))"

definition send :: "'a conn_cmd \<Rightarrow> ('s, 'a) handler_proc" where
  "send cmd = atom (on_conn cmd)"

text \<open>A call of the object store or of the random source, as the functions of \<open>Image_Upload\<close> make them.\<close>

definition off_conn :: "('s, 'a) action \<Rightarrow> ('s shared, err, 'a) prog" where
  "off_conn m = (\<lambda>s. case m \<lparr>w_db = pc_current (sh_conn s), w_s3 = sh_s3 s, w_rand = sh_rand s\<rparr> of
     (r, w) \<Rightarrow> (r, s\<lparr>sh_s3 := w_s3 w, sh_rand := w_rand w\<rparr>))"

definition outside :: "('s, 'a) action \<Rightarrow> ('s, 'a) handler_proc" where
  "outside m = atom (off_conn m)"

section \<open>URLs\<close>

definition generateNewMultiPartUploadUrls_proc ::
  "'s env \<Rightarrow> s3Storage \<Rightarrow> uploadIdentity \<Rightarrow> int16 list \<Rightarrow> ('s, multiPresignedRequest list) handler_proc" where
  "generateNewMultiPartUploadUrls_proc env st u fileParts =
     pmapp (\<lambda>partNumber. outside (presign_part env st u
        (\<lambda>e. client_err (InternalServerError ''fileupload.generateNewMultiPartUploadUrls''
           (Some (Errorf ''creating mulipart upload url failed: '' (Some e) ''''))
           ''generation of multipart upload url failed'')) partNumber)) fileParts"

definition generateExistingMultiPartPresignedUrl_proc ::
  "'s env \<Rightarrow> s3Storage \<Rightarrow> uploadIdentity \<Rightarrow> int16 list \<Rightarrow> ('s, multiPresignedRequest list) handler_proc" where
  "generateExistingMultiPartPresignedUrl_proc env st u nonUploadedParts =
     pmapp (\<lambda>partNumber. outside (presign_part env st u
        (\<lambda>e. client_err (InternalServerError ''fileupload.generateExistingMultiPartPresignedUrl''
           (Some (Errorf ''cannot create presigned url for resumable multipart upload:'' (Some e) ''''))
           ''internal error'')) partNumber)) nonUploadedParts"

definition generateResumeUploadUrls_proc ::
  "'s env \<Rightarrow> s3Storage \<Rightarrow> uploadIdentity \<Rightarrow> int16 list \<Rightarrow> ('s, multiPresignedRequest list \<times> imageEtag list) handler_proc" where
  "generateResumeUploadUrls_proc env st u allParts =
     pbind (perror (outside (listNotUploadedParts env st u allParts))
              (\<lambda>e. client_err (InternalServerError ''fileupload.generateResumeUploadUrls''
                 (Some (Errorf ''listing of non-uploaded parts failed:'' (Some e) '''')) ''internal error'')))
       (\<lambda>(nonUploadedParts, uploadedEtags).
     pbind (generateExistingMultiPartPresignedUrl_proc env st u nonUploadedParts)
       (\<lambda>resumeMultiParts. Done (Ret (resumeMultiParts, uploadedEtags))))"

fun extract_loop_proc :: "'s env \<Rightarrow> s3Storage \<Rightarrow> uploadFile list \<Rightarrow> extractFile \<Rightarrow> ('s, extractFile) handler_proc" where
  "extract_loop_proc env st [] acc = Done (Ret acc)"
| "extract_loop_proc env st (file # files) acc =
     (if uint (uf_FileSize file) < multipartThreshold
      then extract_loop_proc env st files (acc\<lparr>ex_singleFile := add_single file (ex_singleFile acc)\<rparr>)
      else
        pbind (perror (outside (makeUUIDText env))
                 (\<lambda>e. client_err (InternalServerError ''fileupload.extractFileData''
                    (Some (Errorf ''cannot generate uuid:'' (Some e) '''')) ''internal error'')))
          (\<lambda>generatedUUID.
        pbind (Done (uuid_MustParse generatedUUID)) (\<lambda>storageKey.
        pbind (outside (generateMultiPartUploadId env st generatedUUID)) (\<lambda>uploadId.
          extract_loop_proc env st files
            (acc\<lparr>ex_multipartFile := add_multi file storageKey uploadId (ex_multipartFile acc)\<rparr>)))))"

section \<open>The statements of an upload request\<close>

definition createSinglePresignedFileUrl_proc ::
  "'s env \<Rightarrow> wires \<Rightarrow> Queries \<Rightarrow> s3Storage \<Rightarrow> uuid \<Rightarrow> singleFileData \<Rightarrow> ('s, presignedFileUrl list) handler_proc" where
  "createSinglePresignedFileUrl_proc env ws qtx st lotId s =
     pbind (perror (send (dbtx_query qtx (wr_query ws QInsertSingle) (sql_InsertSinglePartUpload (e_sql env) (single_params lotId s))))
              (storage_failure ''fileupload.createSinglePresignedFileUrl'' ''insertion of singlepart upload failed,''
                 ''storage error''))
       (\<lambda>insertedSinglePartFiles.
     let insertedSinglePartFilesMap = map_build sr_Sha256 sr_StorageKey insertedSinglePartFiles in
     pmapp (\<lambda>file.
         pbind (outside (generateSinglePresignedPutObjectUrl env st
                  (uuid_String (map_get uuid_Nil insertedSinglePartFilesMap (uf_Sha256 file))) (uf_Sha256 file)))
           (\<lambda>u. Done (Ret (single_url file u))))
       (sd_singleFileUploads s))"

definition generateUrlsForNewUploads_proc ::
  "'s env \<Rightarrow> s3Storage \<Rightarrow> (string \<rightharpoonup> uploadFile) \<Rightarrow> newMultipartGenerationData list \<Rightarrow> ('s, presignedFileUrl list) handler_proc" where
  "generateUrlsForNewUploads_proc env st multiFileUploadMap newMultiUploads =
     pmapp (\<lambda>upload.
         pbind (generateNewMultiPartUploadUrls_proc env st (identity_of upload) (ng_fileParts upload)) (\<lambda>newMultiParts.
         Done (Ret (multi_url (map_get zero_uploadFile multiFileUploadMap (ng_sha256 upload))
           \<lparr>mU_requests = newMultiParts, mU_multipartAttemptId = ng_multipartAttemptId upload,
            mU_partSize = ng_partSize upload, mU_imageEtags = []\<rparr>))))
       newMultiUploads"

definition genrateUrlsForResumableUploads_proc ::
  "'s env \<Rightarrow> s3Storage \<Rightarrow> (string \<rightharpoonup> uploadFile) \<Rightarrow> newMultipartGenerationData list \<Rightarrow> ('s, presignedFileUrl list) handler_proc" where
  "genrateUrlsForResumableUploads_proc env st multiFileUploadMap resumableMultiUploads =
     pmapp (\<lambda>upload.
         pbind (generateResumeUploadUrls_proc env st (identity_of upload) (ng_fileParts upload)) (\<lambda>(resumeMultiParts, imageEtags).
         Done (Ret (multi_url (map_get zero_uploadFile multiFileUploadMap (ng_sha256 upload))
           \<lparr>mU_requests = resumeMultiParts, mU_multipartAttemptId = ng_multipartAttemptId upload,
            mU_partSize = ng_partSize upload, mU_imageEtags = imageEtags\<rparr>))))
       resumableMultiUploads"

definition createMultipartPresignedFileUrl_proc ::
  "'s env \<Rightarrow> wires \<Rightarrow> Queries \<Rightarrow> s3Storage \<Rightarrow> uuid \<Rightarrow> multipartFileData \<Rightarrow> ('s, presignedFileUrl list) handler_proc" where
  "createMultipartPresignedFileUrl_proc env ws qtx st lotId m =
     pbind (perror (send (dbtx_query qtx (wr_query ws QInsertMulti) (sql_InsertAndValidateMultiPartUpload (e_sql env) (multi_params lotId m))))
              (storage_failure ''imagestore.createMultipartPresignedFileUrl''
                 ''insert and validation of multipart upload failed,'' ''unknown lotId''))
       (\<lambda>multiUploadResult.
     pbind (Done (segregateMultiUploadFiles multiUploadResult)) (\<lambda>(newMultiUploads, resumableMultiUploads).
     pbind (generateUrlsForNewUploads_proc env st (md_multiFileUploadMap m) newMultiUploads) (\<lambda>newPresignedUrls.
     pbind (genrateUrlsForResumableUploads_proc env st (md_multiFileUploadMap m) resumableMultiUploads)
       (\<lambda>resumablePresignedUrls. Done (Ret (newPresignedUrls @ resumablePresignedUrls))))))"

definition generateS3UploadUrl_proc ::
  "'s env \<Rightarrow> wires \<Rightarrow> Queries \<Rightarrow> s3Storage \<Rightarrow> uuid \<Rightarrow> uploadFile list \<Rightarrow> ('s, presignedFileUrl list) handler_proc" where
  "generateS3UploadUrl_proc env ws qtx st lotId files =
     pbind (extract_loop_proc env st files zero_extractFile) (\<lambda>extractData.
     pbind (if length (sd_Sha256s (ex_singleFile extractData)) > 0
            then createSinglePresignedFileUrl_proc env ws qtx st lotId (ex_singleFile extractData) else Done (Ret []))
       (\<lambda>singlePresignedFileUrls.
     pbind (if length (md_Sha256s (ex_multipartFile extractData)) > 0
            then createMultipartPresignedFileUrl_proc env ws qtx st lotId (ex_multipartFile extractData) else Done (Ret []))
       (\<lambda>multipartPresignedFileUrls. Done (Ret (singlePresignedFileUrls @ multipartPresignedFileUrls)))))"

definition skipUploadForIdenticalImageBlobs_proc ::
  "'s env \<Rightarrow> wires \<Rightarrow> Queries \<Rightarrow> uploadFile list \<Rightarrow> uuid \<Rightarrow> ('s, uploadFile list \<times> uploadFile list) handler_proc" where
  "skipUploadForIdenticalImageBlobs_proc env ws qtx files lotId =
     (let sha256s = map uf_Sha256 files;
          fileMap = map_build uf_Sha256 id files
      in pbind (perror (send (dbtx_query qtx (wr_query ws QInsertIdentical) (sql_InsertIdenticalImageBlobsToLotImages
                  \<lparr>ip_LotID = lotId, ip_Sha256s = sha256s, ip_FileNames = map uf_FileName files\<rparr>)))
                (storage_failure ''imagestore.skipUploadForIdenticalImageBlobs''
                   ''insert identical image blob to log_images table failed:'' ''internal error''))
           (\<lambda>identicalBlobs.
              let existingFileMap = map_build ir_Sha256 id identicalBlobs
              in Done (Ret (separateUploadedAndNeedToBeUploadedFiles fileMap existingFileMap
                   (e_range env (remdups sha256s))))))"

section \<open>The transaction\<close>

text \<open>
  The end of the transaction: \<open>Commit\<close> when the body has a result, and the deferred \<open>Rollback\<close> after every outcome, a panic
  included. After \<open>Commit\<close>, successful or not, the transaction is closed and \<open>Rollback\<close> sends nothing.
\<close>

definition end_tx_proc :: "wires \<Rightarrow> (err, 'a) outcome \<Rightarrow> ('s, 'a) handler_proc" where
  "end_tx_proc ws r = (case r of
      Ret result \<Rightarrow> pthen (perror (send (tx_Commit False (wr_commit ws))) commit_failure)
        (\<lambda>c. pthen (send (tx_Rollback True (wr_rollback ws))) (\<lambda>_.
           Done (case c of Ret _ \<Rightarrow> Ret result | Fail e \<Rightarrow> Fail e | Panic p \<Rightarrow> Panic p)))
    | Fail e \<Rightarrow> pthen (send (tx_Rollback False (wr_rollback ws))) (\<lambda>_. Done (Fail e))
    | Panic p \<Rightarrow> pthen (send (tx_Rollback False (wr_rollback ws))) (\<lambda>_. Done (Panic p)))"

definition upload_body_proc ::
  "'s env \<Rightarrow> wires \<Rightarrow> Queries \<Rightarrow> s3Storage \<Rightarrow> uuid \<Rightarrow> uploadFile list \<Rightarrow> ('s, uploadFile list \<times> presignedFileUrl list) handler_proc" where
  "upload_body_proc env ws qtx st lotId files =
     pbind (skipUploadForIdenticalImageBlobs_proc env ws qtx files lotId) (\<lambda>(needToBeUploadFiles, alreadyUploadedFiles).
     pbind (generateS3UploadUrl_proc env ws qtx st lotId needToBeUploadFiles) (\<lambda>presignedUrls.
       Done (Ret (alreadyUploadedFiles, presignedUrls))))"

definition upload_tx_proc ::
  "'s env \<Rightarrow> wires \<Rightarrow> s3Storage \<Rightarrow> uuid \<Rightarrow> uploadFile list \<Rightarrow> ('s, uploadFile list \<times> presignedFileUrl list) handler_proc" where
  "upload_tx_proc env ws st lotId files =
     pbind (perror (send (conn_Begin (wr_begin ws))) begin_failure) (\<lambda>_.
     pthen (upload_body_proc env ws (WithTx server_queries (OnTx False)) st lotId files) (end_tx_proc ws))"

definition initiateUpload_proc ::
  "'s env \<Rightarrow> wires \<Rightarrow> ImageStore ptr \<Rightarrow> uploadFile list \<Rightarrow> string \<Rightarrow> ('s, uploadFileRequestResult) handler_proc" where
  "initiateUpload_proc env ws imageStore fileToUpload lotId =
     (let (files, duplicateFiles) = intentBatchUpload fileToUpload
      in case uuid_Parse lotId of
           Inl e \<Rightarrow> Done (Fail (unknown_lot_id e))
         | Inr lotIdUUID \<Rightarrow>
             pbind (Done (deref imageStore)) (\<lambda>store.
             pbind (upload_tx_proc env ws (is_s3Storage store) lotIdUUID files)
               (\<lambda>(alreadyUploadedFiles, presignedUrls).
                 Done (Ret \<lparr>ur_duplicateFiles = duplicateFiles, ur_alreadyUploadedFiles = alreadyUploadedFiles,
                   ur_presignedFileUrls = presignedUrls\<rparr>))))"

section \<open>The service methods\<close>

definition GeneratePresignedUrl_proc ::
  "'s env \<Rightarrow> wires \<Rightarrow> ImageStore ptr \<Rightarrow> GeneratePresignedUrlRequest \<Rightarrow> ('s, GeneratePresignedUrlResponse ptr) handler_proc" where
  "GeneratePresignedUrl_proc env ws imageStore request =
     pbind (Done (convertToUploadFiles (gq_LotImages request))) (\<lambda>files.
     pbind (Done (deref (gq_LotId request))) (\<lambda>lotId.
     pbind (initiateUpload_proc env ws imageStore files lotId) (\<lambda>result.
     pbind (Done (convertToImageFiles (ur_duplicateFiles result))) (\<lambda>duplicateImageFiles.
     pbind (Done (convertToImageFiles (ur_alreadyUploadedFiles result))) (\<lambda>alreadyUploadedImageFiles.
     pbind (Done (convertToPresignedImageFiles (ur_presignedFileUrls result))) (\<lambda>presignedImageFiles.
       Done (Ret (Some \<lparr>gs_Success = Some True, gs_Message = Some ''Presigned url created'',
         gs_PresignResult = Some \<lparr>fr_DuplicateFiles = duplicateImageFiles,
           fr_AlreadyUploadedFiles = alreadyUploadedImageFiles, fr_PresignedFiles = presignedImageFiles\<rparr>\<rparr>))))))))"

definition completeMultiPartUpload_proc ::
  "'s env \<Rightarrow> wires \<Rightarrow> CompletedPart sort_func \<Rightarrow> ImageStore ptr \<Rightarrow> int \<Rightarrow> string \<Rightarrow> CompletedPart list \<Rightarrow>
   ('s, unit) handler_proc" where
  "completeMultiPartUpload_proc env ws sort_parts imageStore multipartAttemptId bucket etagParts =
     pbind (Done (deref imageStore)) (\<lambda>store.
     pbind (perror (send (dbtx_query server_queries (wr_query ws QGetItem) (sql_GetMultiPartUploadItem multipartAttemptId)))
              (item_failure multipartAttemptId))
       (\<lambda>multipartItem.
     pbind (Done (SortFunc_parts sort_parts etagParts)) (\<lambda>sortedParts.
     pbind (perror (outside (on_s3 (ListParts (e_s3 env)
                \<lparr>lp_Bucket = bucket, lp_Key = uuid_String (gr_StorageKey multipartItem), lp_UploadId = gr_UploadID multipartItem\<rparr>)))
              (\<lambda>e. client_err (InternalServerError ''imagestore.completeMultiPartUpload''
                 (Some (Errorf (''cannot get uploaded image parts of key '' @ uuid_String (gr_StorageKey multipartItem) @
                    '' and bucket '' @ bucket @ '':'') (Some e) '''')) ''internal error'')))
       (\<lambda>parts.
     pbind (Done (deref (gr_PartCount multipartItem))) (\<lambda>partCount.
     if int (length parts) \<noteq> partCount then Done (Fail (parts_missing multipartAttemptId))
     else pthen (outside (on_s3 (CompleteMultipartUpload (e_s3 env)
                \<lparr>cm_Bucket = bucket, cm_Key = uuid_String (gr_StorageKey multipartItem),
                 cm_UploadId = gr_UploadID multipartItem, cm_Parts = sortedParts\<rparr>)))
            (\<lambda>r. Done (case r of Panic p \<Rightarrow> Panic p | _ \<Rightarrow> Ret ())))))))"

definition CompleteMultiPartUpload_proc ::
  "'s env \<Rightarrow> wires \<Rightarrow> CompletedPart sort_func \<Rightarrow> ImageStore ptr \<Rightarrow> CompleteMultiPartUploadRequest \<Rightarrow>
   ('s, CompleteMultiPartUploadResponse ptr) handler_proc" where
  "CompleteMultiPartUpload_proc env ws sort_parts imageStore request =
     pbind (Done (convertToCompletedPart (cq_PartEtags request))) (\<lambda>etagParts.
     pbind (Done (deref (cq_MultipartAttemptId request))) (\<lambda>multipartAttemptId.
     pbind (completeMultiPartUpload_proc env ws sort_parts imageStore (sint multipartAttemptId) access_point etagParts) (\<lambda>_.
       Done (Ret (Some \<lparr>cs_Success = Some True, cs_Message = Some ''Upload Completed''\<rparr>)))))"

text \<open>\<open>return nil, err\<close>, which is a success when \<open>err\<close> is nil.\<close>

definition returned_err :: "err option \<Rightarrow> (err, 'r option) outcome" where
  "returned_err e = (case e of None \<Rightarrow> Ret None | Some e' \<Rightarrow> Fail e')"

definition LotServer_CreateLot_proc ::
  "'s env \<Rightarrow> wires \<Rightarrow> (CreateLotRequest \<Rightarrow> err option) \<Rightarrow> CreateLotRequest \<Rightarrow> ('s, CreateLotResponse ptr) handler_proc" where
  "LotServer_CreateLot_proc env ws validate req =
     (case validate req of
        Some e \<Rightarrow> Done (returned_err (status_Error InvalidArgument ''invalid lot payload''))
      | None \<Rightarrow>
          pbind (Done (create_lot_params req)) (\<lambda>params.
          pthen (send (dbtx_query server_queries (wr_query ws QCreateLot) (sql_CreateLot (e_sql env) params))) (\<lambda>r.
            Done (case r of
              Fail e \<Rightarrow> returned_err (status_Error Internal ''error creating lot'')
            | Panic p \<Rightarrow> Panic p
            | Ret newId \<Rightarrow> Ret (Some \<lparr>ks_Success = Some True, ks_Message = Some ''Lot Created'',
                ks_LotId = Some (uuid_String newId)\<rparr>)))))"

section \<open>A request\<close>

definition as_response_proc :: "('r \<Rightarrow> rpc_response) \<Rightarrow> ('s, 'r ptr) handler_proc \<Rightarrow> ('s, rpc_response option) handler_proc" where
  "as_response_proc f p = pbind p (\<lambda>r. Done (Ret (map_option f r)))"

fun rpc_method_proc :: "'s env \<Rightarrow> wires \<Rightarrow> server \<Rightarrow> rpc_message \<Rightarrow> ('s, rpc_response option) handler_proc" where
  "rpc_method_proc env ws sv (MsgCreateLot m) =
     as_response_proc RespCreateLot (LotServer_CreateLot_proc env ws (sv_validate sv) m)"
| "rpc_method_proc env ws sv (MsgGeneratePresignedUrl m) =
     as_response_proc RespGeneratePresignedUrl (GeneratePresignedUrl_proc env ws (sv_imageStore sv) m)"
| "rpc_method_proc env ws sv (MsgCompleteMultiPartUpload m) =
     as_response_proc RespCompleteMultiPartUpload (CompleteMultiPartUpload_proc env ws (sv_sort sv) (sv_imageStore sv) m)"

text \<open>The chain around the method, as \<open>serve_eq\<close> has it: \<open>Validate\<close> makes no call, and \<open>ErrorResponseInterceptor\<close> none after the method.\<close>

definition ErrorResponseInterceptor_proc ::
  "(detail \<Rightarrow> err option) \<Rightarrow> ('s, rpc_response option) handler_proc \<Rightarrow> ('s, rpc_response option) handler_proc" where
  "ErrorResponseInterceptor_proc any_new p = pthen p (\<lambda>r. Done (case r of
      Ret a \<Rightarrow> Ret a | Fail e \<Rightarrow> returned_err (toGRPCError any_new (Some e)) | Panic q \<Rightarrow> Panic q))"

definition serve_proc :: "'s env \<Rightarrow> wires \<Rightarrow> server \<Rightarrow> rpc_call \<Rightarrow> ('s, rpc_response option) handler_proc" where
  "serve_proc env ws sv call = (case decoded call of
      Inl e \<Rightarrow> Done (Fail e)
    | Inr m \<Rightarrow> (case sv_validator sv of
        None \<Rightarrow> Done (Panic nil_deref)
      | Some v \<Rightarrow> (case v m of
          Valid \<Rightarrow> ErrorResponseInterceptor_proc (sv_any_new sv) (rpc_method_proc env ws sv m)
        | ValidatorFailure e \<Rightarrow> Done (returned_err (status_Error Internal ''validation failed''))
        | ValidationError vs \<Rightarrow> Done (Fail (invalid_request sv vs)))))"

section \<open>The server under concurrent requests\<close>

text \<open>
  Requests arrive at any time, each with an outside of its own, and are handled in a goroutine each (\<open>serveStreams\<close> in the vendored
  grpc server); any handler that is under way makes the next call. A panic that nobody recovers ends the process.
\<close>

type_synonym 's handlers = "('s shared, err, rpc_response option) pool"

inductive concurrent_step :: "server \<Rightarrow> 's handlers \<Rightarrow> 's handlers \<Rightarrow> bool" for sv where
  arrival: "\<not> list_ex panicked ps \<Longrightarrow> concurrent_step sv (ps, s) (ps @ [serve_proc env ws sv call], s)"
| progress: "pool_step c c' \<Longrightarrow> concurrent_step sv c c'"

inductive_cases concurrent_stepE: "concurrent_step sv c c'"

abbreviation concurrent_run :: "server \<Rightarrow> 's handlers \<Rightarrow> 's handlers \<Rightarrow> bool" where
  "concurrent_run sv \<equiv> (concurrent_step sv)\<^sup>*\<^sup>*"

lemma pool_steps_run: "pool_step\<^sup>*\<^sup>* c c' \<Longrightarrow> concurrent_run sv c c'"
  by (induction rule: rtranclp_induct) (auto intro: concurrent_step.progress rtranclp.rtrancl_into_rtrancl)

lemma two_arrive:
  assumes "\<not> panicked (serve_proc env ws sv call)"
  shows "concurrent_run sv ([], s) ([serve_proc env ws sv call, serve_proc env2 ws2 sv call2], s)"
proof -
  have "concurrent_step sv ([], s) ([] @ [serve_proc env ws sv call], s)" by (rule concurrent_step.arrival) simp
  moreover have "concurrent_step sv ([serve_proc env ws sv call], s) ([serve_proc env ws sv call] @ [serve_proc env2 ws2 sv call2], s)"
    by (rule concurrent_step.arrival) (use assms in simp)
  ultimately show ?thesis by simp
qed

end
