(* ===== verification/Process_Laws.thy ===== *)
theory Process_Laws
  imports Request_Processes
begin

text \<open>
  What the handlers do when they run concurrently, and that a handler that runs alone does what \<open>serve\<close> says: \<open>in_tx\<close>, with its
  atomic outcome, is what the commands of the transaction come to on a connection that nobody else uses meanwhile.
\<close>

section \<open>What every step does to the connection\<close>

definition in_shared :: "(pg_conn \<Rightarrow> pg_conn \<Rightarrow> bool) \<Rightarrow> 's shared \<Rightarrow> 's shared \<Rightarrow> bool" where
  "in_shared C s t \<longleftrightarrow> C (sh_conn s) (sh_conn t)"

lemmas handler_proc_defs = generateNewMultiPartUploadUrls_proc_def generateExistingMultiPartPresignedUrl_proc_def
  generateResumeUploadUrls_proc_def createSinglePresignedFileUrl_proc_def generateUrlsForNewUploads_proc_def
  genrateUrlsForResumableUploads_proc_def createMultipartPresignedFileUrl_proc_def generateS3UploadUrl_proc_def
  skipUploadForIdenticalImageBlobs_proc_def

lemma every_step_if [every_step_intros]: "every_step R p \<Longrightarrow> every_step R q \<Longrightarrow> every_step R (if b then p else q)"
  by simp

text \<open>The effect of a statement does not depend on what it returns.\<close>

definition no_rows :: "(db, err, 'a) prog \<Rightarrow> (db, err, unit) prog" where
  "no_rows stmt = bindp stmt (\<lambda>_. liftp (Ret ()))"

lemma keeps_no_rows: "keeps I stmt \<Longrightarrow> keeps I (no_rows stmt)"
  unfolding no_rows_def by (intro keeps_intros)

lemma conn_exec_no_rows: "snd (conn_exec wr (query_cmd (no_rows stmt)) c) = snd (conn_exec wr (query_cmd stmt) c)"
proof -
  obtain r d where run: "stmt (pc_current c) = (r, d)" by fastforce
  have "snd (query_cmd (no_rows stmt) c) = snd (query_cmd stmt c)"
    using run by (cases r; cases "pc_status c") (simp_all add: query_cmd_def no_rows_def bindp_def)
  then show ?thesis by (cases wr) (simp_all add: conn_exec_def)
qed

text \<open>
  A relation between connections that every command of the program keeps: the commands of a transaction, and any statement under
  which the tables only grow.
\<close>

locale connection_relation =
  fixes C :: "pg_conn \<Rightarrow> pg_conn \<Rightarrow> bool"
  assumes C_refl: "C c c" and C_trans: "C c c' \<Longrightarrow> C c' c'' \<Longrightarrow> C c c''"
    and C_transaction: "C c (snd (conn_Begin wr c))" "C c (snd (tx_Commit closed wr c))" "C c (snd (tx_Rollback closed wr c))"
    and C_statement: "\<And>stmt :: (db, err, unit) prog. (\<And>d0. keeps (grown d0) stmt) \<Longrightarrow> C c (snd (conn_exec wr (query_cmd stmt) c))"
begin

lemma step_relation_in_shared: "step_relation (in_shared C)"
  by unfold_locales (auto simp: in_shared_def intro: C_refl C_trans)

lemma every_step_outside: "every_step (in_shared C) (outside m)"
  unfolding outside_def by (rule every_step_atom) (simp add: off_conn_def in_shared_def C_refl split: prod.splits)

lemma every_step_send: "(\<And>c. C c (snd (cmd c))) \<Longrightarrow> every_step (in_shared C) (send cmd)"
  unfolding send_def by (rule every_step_atom) (simp add: on_conn_def in_shared_def case_prod_beta)

lemma every_step_query:
  assumes "\<And>d0. keeps (grown d0) stmt"
  shows "every_step (in_shared C) (send (dbtx_query server_queries wr stmt))"
    and "every_step (in_shared C) (send (dbtx_query (WithTx s (OnTx False)) wr stmt))"
proof -
  have "C c (snd (conn_exec wr (query_cmd (no_rows stmt)) c))" for c by (intro C_statement keeps_no_rows assms)
  then have "C c (snd (conn_exec wr (query_cmd stmt) c))" for c by (simp only: conn_exec_no_rows)
  then show "every_step (in_shared C) (send (dbtx_query server_queries wr stmt))"
    and "every_step (in_shared C) (send (dbtx_query (WithTx s (OnTx False)) wr stmt))"
    by (simp_all add: every_step_send)
qed

lemmas every_step_calls = every_step_outside every_step_send [OF C_transaction(1)] every_step_send [OF C_transaction(2)]
  every_step_send [OF C_transaction(3)] every_step_query [OF identical_grown] every_step_query [OF single_grown]
  every_step_query [OF multi_grown] every_step_query [OF create_lot_grown] every_step_query [OF get_item_wf]

lemma every_step_extract_loop: "every_step (in_shared C) (extract_loop_proc env st fs acc)"
proof (induction fs arbitrary: acc)
  case (Cons f fs)
  show ?case
  proof (cases "uint (uf_FileSize f) < multipartThreshold")
    case True
    with Cons.IH show ?thesis by simp
  next
    case False
    then show ?thesis by (simp only: extract_loop_proc.simps if_False) (intro every_step_intros every_step_calls Cons.IH)
  qed
qed simp

lemma every_step_end_tx: "every_step (in_shared C) (end_tx_proc ws r)"
  unfolding end_tx_proc_def by (cases r) (simp_all only: outcome.case, (intro every_step_intros every_step_calls)+)

lemma every_step_upload_tx: "every_step (in_shared C) (upload_tx_proc env ws st lot fs)"
proof -
  have "every_step (in_shared C) (upload_body_proc env ws (WithTx server_queries (OnTx False)) st lot fs)"
    unfolding upload_body_proc_def handler_proc_defs Let_def case_prod_beta
    by (intro every_step_intros every_step_calls every_step_extract_loop)+
  then show ?thesis unfolding upload_tx_proc_def by (intro every_step_intros every_step_calls every_step_end_tx)
qed

lemma every_step_serve: "every_step (in_shared C) (serve_proc env ws sv call)"
proof -
  have "every_step (in_shared C) (initiateUpload_proc env ws store fs lotId)" for store fs lotId
    unfolding initiateUpload_proc_def Let_def case_prod_beta
    by (cases "uuid_Parse lotId") (auto intro!: every_step_intros every_step_upload_tx split: outcome.split)
  then have "every_step (in_shared C) (GeneratePresignedUrl_proc env ws store m)" for store m
    unfolding GeneratePresignedUrl_proc_def by (intro every_step_intros)
  moreover have "every_step (in_shared C) (CompleteMultiPartUpload_proc env ws sort_parts store m)" for sort_parts store m
    unfolding CompleteMultiPartUpload_proc_def completeMultiPartUpload_proc_def by (intro every_step_intros every_step_calls)
  moreover have "every_step (in_shared C) (LotServer_CreateLot_proc env ws validate m)" for validate m
    unfolding LotServer_CreateLot_proc_def
    by (cases "validate m") (simp_all only: option.case, (intro every_step_intros every_step_calls)+)
  ultimately have "every_step (in_shared C) (rpc_method_proc env ws sv m)" for m
    by (cases m) (auto simp: as_response_proc_def intro!: every_step_intros)
  then show ?thesis
    by (auto simp: serve_proc_def ErrorResponseInterceptor_proc_def intro!: every_step_intros split: sum.split option.split validation.split)
qed

lemma concurrent_run_related:
  assumes "concurrent_run sv c c'" and "list_all (every_step (in_shared C)) (fst c)"
  shows "list_all (every_step (in_shared C)) (fst c') \<and> C (sh_conn (snd c)) (sh_conn (snd c'))"
  using assms(1)
proof (induction rule: rtranclp_induct)
  case base
  show ?case using assms(2) C_refl by simp
next
  case (step d e)
  from step(2) show ?case
  proof (cases rule: concurrent_step.cases)
    case (arrival ps s env ws call)
    with step.IH every_step_serve show ?thesis by auto
  next
    case (progress)
    have "list_all (every_step (in_shared C)) (fst e) \<and> in_shared C (snd d) (snd e)"
      by (rule step_relation.pool_step_related [OF step_relation_in_shared progress]) (use step.IH in blast)
    with step.IH C_trans show ?thesis by (auto simp: in_shared_def [of C "snd d" "snd e"])
  qed
qed

end

interpretation keeps_conn: connection_relation conn_ok
  by unfold_locales (auto intro: conn_ok_refl conn_ok_trans conn_ok_transaction conn_ok_exec conn_ok_query_cmd simp: keeps_def)

text \<open>A closed connection stays closed, and with it the tables stay as they are.\<close>

definition closed_stays :: "pg_conn \<Rightarrow> pg_conn \<Rightarrow> bool" where
  "closed_stays c c' \<longleftrightarrow> (pc_closed c \<longrightarrow> c' = c)"

interpretation stays_closed: connection_relation closed_stays
  by unfold_locales (auto simp: closed_stays_def conn_exec_closed conn_Begin_def tx_Commit_def tx_Rollback_def conn_die_def)

section \<open>A handler that nothing disturbs\<close>

text \<open>The world of \<open>serve\<close> as the session of an open transaction shows it.\<close>

definition view :: "'s shared \<Rightarrow> 's world" where
  "view s = \<lparr>w_db = pc_current (sh_conn s), w_s3 = sh_s3 s, w_rand = sh_rand s\<rparr>"

definition open_tx :: "db \<Rightarrow> 's shared \<Rightarrow> bool" where
  "open_tx d0 s \<longleftrightarrow> pc_committed (sh_conn s) = d0 \<and> pc_status (sh_conn s) \<noteq> TxIdle \<and> \<not> pc_closed (sh_conn s)"

definition undisturbed :: "db \<Rightarrow> ('s shared, err, 'a) prog \<Rightarrow> ('s, 'a) action \<Rightarrow> bool" where
  "undisturbed d0 m n \<longleftrightarrow> (\<forall>s r t. open_tx d0 s \<longrightarrow> pc_status (sh_conn s) = TxActive \<longrightarrow> m s = (r, t) \<longrightarrow>
     n (view s) = (r, view t) \<and> open_tx d0 t \<and> (\<forall>a. r = Ret a \<longrightarrow> pc_status (sh_conn t) = TxActive))"

named_theorems undisturbed_intros

lemma undisturbedD:
  assumes "undisturbed d0 m n" and "open_tx d0 s" and "pc_status (sh_conn s) = TxActive" and "m s = (r, t)"
  shows "n (view s) = (r, view t)" and "open_tx d0 t" and "r = Ret a \<Longrightarrow> pc_status (sh_conn t) = TxActive"
  using assms unfolding undisturbed_def by blast+

lemma undisturbed_liftp [undisturbed_intros]: "undisturbed d0 (liftp r) (liftp r)"
  by (simp add: undisturbed_def)

lemma undisturbed_bindp [undisturbed_intros]:
  assumes m: "undisturbed d0 m n" and f: "\<And>a. undisturbed d0 (f a) (g a)"
  shows "undisturbed d0 (bindp m f) (bindp n g)"
  unfolding undisturbed_def
proof (intro allI impI)
  fix s r t
  assume s: "open_tx d0 s" "pc_status (sh_conn s) = TxActive" and run: "bindp m f s = (r, t)"
  obtain x u where mu: "m s = (x, u)" by fastforce
  note u = undisturbedD [OF m s mu]
  show "bindp n g (view s) = (r, view t) \<and> open_tx d0 t \<and> (\<forall>a. r = Ret a \<longrightarrow> pc_status (sh_conn t) = TxActive)"
  proof (cases x)
    case (Ret a)
    with run mu have "f a u = (r, t)" by simp
    with undisturbedD [OF f u(2) u(3) [OF Ret] this] u(1) Ret show ?thesis by simp
  qed (use run mu u in auto)
qed

lemma undisturbed_on_error [undisturbed_intros]:
  assumes m: "undisturbed d0 m n"
  shows "undisturbed d0 (on_error m h) (on_error n h)"
  unfolding undisturbed_def
proof (intro allI impI)
  fix s r t
  assume s: "open_tx d0 s" "pc_status (sh_conn s) = TxActive" and run: "on_error m h s = (r, t)"
  obtain x u where mu: "m s = (x, u)" by fastforce
  note u = undisturbedD [OF m s mu]
  show "on_error n h (view s) = (r, view t) \<and> open_tx d0 t \<and> (\<forall>a. r = Ret a \<longrightarrow> pc_status (sh_conn t) = TxActive)"
    using run mu u by (cases x) auto
qed

lemma undisturbed_mapp [undisturbed_intros]: "(\<And>x. undisturbed d0 (f x) (g x)) \<Longrightarrow> undisturbed d0 (mapp f xs) (mapp g xs)"
  by (induction xs) (auto intro!: undisturbed_intros)

lemma undisturbed_if [undisturbed_intros]: "undisturbed d0 m n \<Longrightarrow> undisturbed d0 m' n' \<Longrightarrow> undisturbed d0 (if b then m else m') (if b then n else n')"
  by simp

lemma undisturbed_outside:
  assumes "\<And>I. keeps (\<lambda>w. I (w_db w)) m"
  shows "undisturbed d0 (alone (outside m)) m"
  unfolding undisturbed_def outside_def alone_atom
proof (intro allI impI)
  fix s r t
  assume s: "open_tx d0 s" "pc_status (sh_conn s) = TxActive" and run: "off_conn m s = (r, t)"
  obtain x w where m: "m (view s) = (x, w)" by fastforce
  have "w_db w = w_db (view s)" using db_same [OF assms m] .
  with m run s show "m (view s) = (r, view t) \<and> open_tx d0 t \<and> (\<forall>a. r = Ret a \<longrightarrow> pc_status (sh_conn t) = TxActive)"
    by (auto simp: off_conn_def view_def open_tx_def)
qed

text \<open>The wires that give the commands of a request the faults of its \<open>env\<close>; that of the deferred \<open>Rollback\<close> does not matter.\<close>

definition fault_wire :: "err option \<Rightarrow> wire" where
  "fault_wire f = (case f of None \<Rightarrow> Sent | Some e \<Rightarrow> NotSent e)"

definition wires_of :: "'s env \<Rightarrow> wire \<Rightarrow> wires" where
  "wires_of env wr = \<lparr>wr_begin = fault_wire (e_begin env), wr_query = (\<lambda>q. fault_wire (e_faults env q)),
     wr_commit = (case e_commit env of CommitOk \<Rightarrow> Sent | CommitFailed e \<Rightarrow> NotSent e | CommitLost e \<Rightarrow> Cut True e),
     wr_rollback = wr\<rparr>"

lemma undisturbed_query:
  "undisturbed d0 (alone (send (dbtx_query (WithTx q (OnTx False)) (fault_wire fault) stmt))) (on_db (run_query fault stmt))"
  by (auto simp: undisturbed_def send_def on_conn_def conn_exec_def fault_wire_def query_cmd_def on_db_def run_query_def view_def open_tx_def
      split: option.splits prod.splits outcome.splits if_splits)

lemmas undisturbed_calls [undisturbed_intros] =
  undisturbed_outside [OF keeps_presign_part] undisturbed_outside [OF keeps_listNotUploadedParts]
  undisturbed_outside [OF keeps_makeUUIDText] undisturbed_outside [OF keeps_generateMultiPartUploadId]
  undisturbed_outside [OF keeps_generateSinglePresigned]

lemma undisturbed_extract_loop [undisturbed_intros]:
  "undisturbed d0 (alone (extract_loop_proc env st fs acc)) (extract_loop env st fs acc)"
proof (induction fs arbitrary: acc)
  case (Cons f fs)
  show ?case
  proof (cases "uint (uf_FileSize f) < multipartThreshold")
    case True
    with Cons.IH show ?thesis by simp
  next
    case False
    then show ?thesis
      by (simp only: extract_loop_proc.simps extract_loop.simps if_False alone_pbind alone_perror alone.simps)
        (intro undisturbed_intros Cons.IH)
  qed
qed (simp add: undisturbed_intros)

lemmas alone_simps = alone_pbind alone_perror alone_pmapp alone.simps(1)

lemma undisturbed_createSingle [undisturbed_intros]:
  "undisturbed d0 (alone (createSinglePresignedFileUrl_proc env (wires_of env wr) (WithTx q (OnTx False)) st lot s))
     (createSinglePresignedFileUrl env st lot s)"
  unfolding createSinglePresignedFileUrl_proc_def createSinglePresignedFileUrl_def Let_def alone_simps query_defs wires_of_def wires.simps
  by (intro undisturbed_intros undisturbed_query)

lemma undisturbed_createMultipart [undisturbed_intros]:
  "undisturbed d0 (alone (createMultipartPresignedFileUrl_proc env (wires_of env wr) (WithTx q (OnTx False)) st lot m))
     (createMultipartPresignedFileUrl env st lot m)"
proof -
  have new: "undisturbed d0 (alone (generateUrlsForNewUploads_proc env st um gs)) (generateUrlsForNewUploads env st um gs)" for um gs
    unfolding generateUrlsForNewUploads_proc_def generateUrlsForNewUploads_def generateNewMultiPartUploadUrls_proc_def
      generateNewMultiPartUploadUrls_def alone_simps
    by (intro undisturbed_intros)
  have resumable: "undisturbed d0 (alone (genrateUrlsForResumableUploads_proc env st um gs)) (genrateUrlsForResumableUploads env st um gs)"
    for um gs
    unfolding genrateUrlsForResumableUploads_proc_def genrateUrlsForResumableUploads_def generateResumeUploadUrls_proc_def
      generateResumeUploadUrls_def generateExistingMultiPartPresignedUrl_proc_def generateExistingMultiPartPresignedUrl_def
      alone_simps case_prod_beta
    by (intro undisturbed_intros)
  show ?thesis
    unfolding createMultipartPresignedFileUrl_proc_def createMultipartPresignedFileUrl_def alone_simps case_prod_beta query_defs
      wires_of_def wires.simps
    by (intro undisturbed_intros undisturbed_query new resumable)
qed

lemma alone_if: "alone (if b then p else q) = (if b then alone p else alone q)"
  by simp

lemma undisturbed_generateS3UploadUrl [undisturbed_intros]:
  "undisturbed d0 (alone (generateS3UploadUrl_proc env (wires_of env wr) (WithTx q (OnTx False)) st lot fs))
     (generateS3UploadUrl env st lot fs)"
  unfolding generateS3UploadUrl_proc_def generateS3UploadUrl_def extractFileData_def alone_simps alone_if
  by (intro undisturbed_intros)

lemma undisturbed_skip [undisturbed_intros]:
  "undisturbed d0 (alone (skipUploadForIdenticalImageBlobs_proc env (wires_of env wr) (WithTx q (OnTx False)) fs lot))
     (skipUploadForIdenticalImageBlobs env fs lot)"
  unfolding skipUploadForIdenticalImageBlobs_proc_def skipUploadForIdenticalImageBlobs_def Let_def alone_simps query_defs
    wires_of_def wires.simps
  by (intro undisturbed_intros undisturbed_query)

lemma undisturbed_upload_body:
  "undisturbed d0 (alone (upload_body_proc env (wires_of env wr) (WithTx q (OnTx False)) st lot fs)) (upload_body env st lot fs)"
  unfolding upload_body_proc_def upload_body_def alone_simps case_prod_beta by (intro undisturbed_intros)

section \<open>The transaction comes to \<open>in_tx\<close>\<close>

text \<open>An idle connection before a request, and the same or a closed one after it.\<close>

definition idle_shared :: "'s world \<Rightarrow> 's shared" where
  "idle_shared w = \<lparr>sh_conn = idle_conn (w_db w), sh_s3 = w_s3 w, sh_rand = w_rand w\<rparr>"

definition ends_as :: "'s world \<Rightarrow> 's shared \<Rightarrow> bool" where
  "ends_as w s \<longleftrightarrow> pc_committed (sh_conn s) = w_db w \<and> sh_s3 s = w_s3 w \<and> sh_rand s = w_rand w \<and>
     (sh_conn s = idle_conn (w_db w) \<or> pc_closed (sh_conn s))"

definition comes_to :: "('s shared, err, 'a) prog \<Rightarrow> ('s, 'a) action \<Rightarrow> bool" where
  "comes_to m n \<longleftrightarrow> (\<forall>w r t. m (idle_shared w) = (r, t) \<longrightarrow> (\<exists>w'. n w = (r, w') \<and> ends_as w' t))"

lemma ends_as_idle [simp]: "ends_as w (idle_shared w)"
  by (simp add: ends_as_def idle_shared_def idle_conn_def)

lemma ends_as_rollback:
  assumes "open_tx d0 t"
  shows "ends_as (rollback_to d0 (view t)) (snd (on_conn (tx_Rollback False wr) t))"
  using assms
  by (cases wr) (auto simp: ends_as_def on_conn_def tx_Rollback_def conn_exec_def rollback_cmd_def conn_die_def conn_back_def
      rollback_to_def rolled_back_def view_def open_tx_def Let_def idle_conn_def)

lemma tx_Rollback_closed [simp]: "on_conn (tx_Rollback True wr) t = (Fail ErrTxClosed, t)"
  by (simp add: on_conn_def tx_Rollback_def)

lemma ends_as_commit:
  assumes "open_tx d0 t" and "pc_status (sh_conn t) = TxActive"
    and "on_conn (tx_Commit False (wr_commit (wires_of env wr))) t = (c, u)"
  shows "case e_commit env of
      CommitOk \<Rightarrow> c = Ret () \<and> ends_as (view t) u
    | CommitFailed e \<Rightarrow> c = Fail e \<and> ends_as (rollback_to d0 (view t)) u
    | CommitLost e \<Rightarrow> c = Fail e \<and> ends_as (view t) u"
  using assms
  by (auto simp: wires_of_def ends_as_def on_conn_def tx_Commit_def conn_exec_def commit_cmd_def conn_die_def conn_back_def
      rollback_to_def rolled_back_def view_def open_tx_def Let_def idle_conn_def split: commit_outcome.splits)

lemma begin_idle:
  "on_conn (conn_Begin (fault_wire f)) (idle_shared w) = (case f of
      None \<Rightarrow> (Ret (), (idle_shared w)\<lparr>sh_conn := (idle_conn (w_db w))\<lparr>pc_status := TxActive\<rparr>\<rparr>)
    | Some e \<Rightarrow> (Fail e, (idle_shared w)\<lparr>sh_conn := conn_die (idle_conn (w_db w))\<rparr>))"
  by (simp add: on_conn_def conn_Begin_def conn_exec_def begin_cmd_def fault_wire_def idle_shared_def idle_conn_def split: option.split)

lemma alone_end_tx:
  "alone (end_tx_proc ws (Fail e)) t = (Fail e, snd (on_conn (tx_Rollback False (wr_rollback ws)) t))"
  "alone (end_tx_proc ws (Panic q)) t = (Panic q, snd (on_conn (tx_Rollback False (wr_rollback ws)) t))"
  "on_conn (tx_Commit False (wr_commit ws)) t = (c, u) \<Longrightarrow> alone (end_tx_proc ws (Ret a)) t =
    ((case c of Ret _ \<Rightarrow> Ret a | Fail e \<Rightarrow> Fail (commit_failure e) | Panic p \<Rightarrow> Panic p), u)"
  by (auto simp: end_tx_proc_def send_def thenp_def on_error_def split: prod.splits outcome.splits)

lemma upload_tx_comes_to:
  "comes_to (alone (upload_tx_proc env (wires_of env wr) st lot fs)) (in_tx env begin_failure commit_failure (upload_body env st lot fs))"
  unfolding comes_to_def
proof (intro allI impI)
  fix w r t
  assume run: "alone (upload_tx_proc env (wires_of env wr) st lot fs) (idle_shared w) = (r, t)"
  let ?ws = "wires_of env wr" and ?c = "(idle_conn (w_db w))\<lparr>pc_status := TxActive\<rparr>"
  let ?body = "upload_body_proc env ?ws (WithTx server_queries (OnTx False)) st lot fs"
  have wires: "wr_begin ?ws = fault_wire (e_begin env)" "wr_rollback ?ws = wr" by (simp_all add: wires_of_def)
  show "\<exists>w'. in_tx env begin_failure commit_failure (upload_body env st lot fs) w = (r, w') \<and> ends_as w' t"
  proof (cases "e_begin env")
    case (Some e)
    then have "on_conn (conn_Begin (wr_begin ?ws)) (idle_shared w) = (Fail e, (idle_shared w)\<lparr>sh_conn := conn_die (idle_conn (w_db w))\<rparr>)"
      by (simp add: wires begin_idle)
    with run have "r = Fail (begin_failure e)" and "t = (idle_shared w)\<lparr>sh_conn := conn_die (idle_conn (w_db w))\<rparr>"
      by (simp_all add: upload_tx_proc_def send_def bindp_def on_error_def)
    with Some show ?thesis
      by (simp add: in_tx_def ends_as_def idle_shared_def conn_die_def conn_back_def idle_conn_def rolled_back_def Let_def)
  next
    case None
    let ?s = "(idle_shared w)\<lparr>sh_conn := ?c\<rparr>"
    have s: "open_tx (w_db w) ?s" "pc_status (sh_conn ?s) = TxActive" "view ?s = w"
      by (simp_all add: open_tx_def idle_shared_def idle_conn_def view_def)
    note body = undisturbed_upload_body [of "w_db w" env wr server_queries st lot fs]
    have "on_conn (conn_Begin (wr_begin ?ws)) (idle_shared w) = (Ret (), ?s)" using None by (simp add: wires begin_idle)
    then have tx: "thenp (alone ?body) (\<lambda>x. alone (end_tx_proc ?ws x)) ?s = (r, t)"
      using run by (simp add: upload_tx_proc_def send_def bindp_def on_error_def)
    obtain x u where b: "alone ?body ?s = (x, u)" by fastforce
    with tx have last: "alone (end_tx_proc ?ws x) u = (r, t)" by (simp add: thenp_def)
    note u = undisturbedD [OF body s(1,2) b, unfolded s(3)]
    show ?thesis
    proof (cases x)
      case (Ret res)
      obtain c v where commit: "on_conn (tx_Commit False (wr_commit ?ws)) u = (c, v)" by fastforce
      from alone_end_tx(3) [OF this, of res] last Ret
      have "t = v" and "r = (case c of Ret _ \<Rightarrow> Ret res | Fail e \<Rightarrow> Fail (commit_failure e) | Panic p \<Rightarrow> Panic p)" by simp_all
      with ends_as_commit [OF u(2) u(3) [OF Ret] commit] u(1) None Ret show ?thesis
        by (auto simp: in_tx_def split: commit_outcome.splits)
    next
      case (Fail e)
      with last have "t = snd (on_conn (tx_Rollback False wr) u)" and "r = Fail e" by (simp_all add: alone_end_tx wires)
      with ends_as_rollback [OF u(2)] u(1) None Fail show ?thesis by (auto simp: in_tx_def)
    next
      case (Panic q)
      with last have "t = snd (on_conn (tx_Rollback False wr) u)" and "r = Panic q" by (simp_all add: alone_end_tx wires)
      with ends_as_rollback [OF u(2)] u(1) None Panic show ?thesis by (auto simp: in_tx_def)
    qed
  qed
qed

section \<open>A request comes to \<open>serve\<close>\<close>

lemma comes_toI:
  assumes "\<And>w r w'. n w = (r, w') \<Longrightarrow> m (idle_shared w) = (r, idle_shared w')"
  shows "comes_to m n"
  unfolding comes_to_def
proof (intro allI impI)
  fix w r t
  assume run: "m (idle_shared w) = (r, t)"
  obtain x w' where "n w = (x, w')" by fastforce
  with assms [OF this] run show "\<exists>w'. n w = (r, w') \<and> ends_as w' t" by auto
qed

text \<open>After the transaction, and around the method, only the outcome is changed.\<close>

lemma comes_to_then:
  assumes "comes_to m n" and "\<And>r s. f r s = (h r, s)" and "\<And>r w. g r w = (h r, w)"
  shows "comes_to (thenp m f) (thenp n g)"
  unfolding comes_to_def
proof (intro allI impI)
  fix w r t
  assume run: "thenp m f (idle_shared w) = (r, t)"
  obtain x u where m: "m (idle_shared w) = (x, u)" by fastforce
  with assms(1) obtain w' where "n w = (x, w')" and "ends_as w' u" unfolding comes_to_def by blast
  with run m show "\<exists>w'. thenp n g w = (r, w') \<and> ends_as w' t" by (auto simp: thenp_def assms(2,3))
qed

lemma comes_to_liftp: "comes_to (liftp r) (liftp r)"
  by (rule comes_toI) simp

lemma comes_to_bindp_liftp: "(\<And>a. r = Ret a \<Longrightarrow> comes_to (f a) (g a)) \<Longrightarrow> comes_to (bindp (liftp r) f) (bindp (liftp r) g)"
  by (cases r) (auto simp: comes_to_def)

lemma bindp_thenp: "bindp m (\<lambda>a. liftp (h a)) = thenp m (\<lambda>r. liftp (case r of Ret a \<Rightarrow> h a | Fail e \<Rightarrow> Fail e | Panic p \<Rightarrow> Panic p))"
  by (auto simp: bindp_def thenp_def fun_eq_iff split: prod.splits outcome.splits)

lemma comes_to_bindp_pure: "comes_to m n \<Longrightarrow> comes_to (bindp m (\<lambda>a. liftp (h a))) (bindp n (\<lambda>a. liftp (h a)))"
  unfolding bindp_thenp by (rule comes_to_then [where h = "\<lambda>r. case r of Ret a \<Rightarrow> h a | Fail e \<Rightarrow> Fail e | Panic p \<Rightarrow> Panic p"]) simp_all

lemma initiateUpload_comes_to:
  "comes_to (alone (initiateUpload_proc env (wires_of env wr) store fs lotId)) (initiateUpload env store fs lotId)"
proof (cases "uuid_Parse lotId")
  case (Inl e)
  then show ?thesis by (simp add: initiateUpload_proc_def initiateUpload_def case_prod_beta comes_to_liftp)
next
  case (Inr lot)
  then show ?thesis
    unfolding initiateUpload_proc_def initiateUpload_def Let_def case_prod_beta
    by (simp only: sum.case alone_simps) (intro comes_to_bindp_liftp comes_to_bindp_pure upload_tx_comes_to)
qed

lemma bindp_liftp_liftp: "bindp (liftp x) (\<lambda>a. liftp (h a)) = liftp (bindo x h)"
  by (cases x) (simp_all add: fun_eq_iff)

lemma GeneratePresignedUrl_comes_to:
  "comes_to (alone (GeneratePresignedUrl_proc env (wires_of env wr) store m)) (GeneratePresignedUrl env store m)"
  unfolding GeneratePresignedUrl_proc_def GeneratePresignedUrl_def alone_simps bindp_liftp_liftp
  by (intro comes_to_bindp_liftp comes_to_bindp_pure initiateUpload_comes_to)

text \<open>Without a transaction each statement is committed at once, and the connection stays idle.\<close>

definition stays_idle :: "('s shared, err, 'a) prog \<Rightarrow> ('s, 'a) action \<Rightarrow> bool" where
  "stays_idle m n \<longleftrightarrow> (\<forall>w r w'. n w = (r, w') \<longrightarrow> m (idle_shared w) = (r, idle_shared w'))"

lemma stays_idle_comes_to: "stays_idle m n \<Longrightarrow> comes_to m n"
  by (rule comes_toI) (simp add: stays_idle_def)

named_theorems stays_idle_intros

lemma stays_idle_liftp [stays_idle_intros]: "stays_idle (liftp r) (liftp r)"
  by (simp add: stays_idle_def)

lemma stays_idle_thenp [stays_idle_intros]:
  assumes "stays_idle m n" and "\<And>r. stays_idle (f r) (g r)"
  shows "stays_idle (thenp m f) (thenp n g)"
  using assms by (auto simp: stays_idle_def thenp_def split: prod.splits)

lemma on_error_as_thenp: "on_error m h = thenp m (\<lambda>r. liftp (case r of Ret a \<Rightarrow> Ret a | Fail e \<Rightarrow> Fail (h e) | Panic p \<Rightarrow> Panic p))"
  by (auto simp: on_error_def thenp_def fun_eq_iff split: prod.splits outcome.splits)

lemma stays_idle_bindp [stays_idle_intros]: "stays_idle m n \<Longrightarrow> (\<And>a. stays_idle (f a) (g a)) \<Longrightarrow> stays_idle (bindp m f) (bindp n g)"
  by (auto simp: stays_idle_def bindp_def split: prod.splits outcome.splits)

lemma stays_idle_on_error [stays_idle_intros]: "stays_idle m n \<Longrightarrow> stays_idle (on_error m h) (on_error n h)"
  unfolding on_error_as_thenp by (intro stays_idle_intros)

lemma stays_idle_if [stays_idle_intros]: "stays_idle m n \<Longrightarrow> stays_idle m' n' \<Longrightarrow> stays_idle (if b then m else m') (if b then n else n')"
  by simp

lemma stays_idle_on_s3 [stays_idle_intros]: "stays_idle (alone (outside (on_s3 c))) (on_s3 c)"
  by (simp add: stays_idle_def outside_def off_conn_def on_s3_def idle_shared_def split: prod.splits)

lemma stays_idle_query:
  "stays_idle (alone (send (dbtx_query server_queries (fault_wire fault) stmt))) (on_db (run_query fault stmt))"
  by (auto simp: stays_idle_def send_def on_conn_def conn_exec_def fault_wire_def query_cmd_def on_db_def run_query_def idle_shared_def
      idle_conn_def split: option.splits prod.splits)

lemma swallow_as_thenp:
  "(\<lambda>w. case m w of (Panic p, w') \<Rightarrow> (Panic p, w') | (_, w') \<Rightarrow> (Ret (), w')) =
   thenp m (\<lambda>r. liftp (case r of Panic p \<Rightarrow> Panic p | _ \<Rightarrow> Ret ()))"
  by (auto simp: thenp_def fun_eq_iff split: prod.splits outcome.splits)

lemma CompleteMultiPartUpload_comes_to:
  "comes_to (alone (CompleteMultiPartUpload_proc env (wires_of env wr) sort_parts store m)) (CompleteMultiPartUpload env sort_parts store m)"
  unfolding CompleteMultiPartUpload_proc_def CompleteMultiPartUpload_def completeMultiPartUpload_proc_def completeMultiPartUpload_def
    alone_simps alone_if alone_pthen swallow_as_thenp query_defs wires_of_def wires.simps
  by (intro stays_idle_comes_to stays_idle_intros stays_idle_query)

lemma CreateLot_comes_to:
  "comes_to (alone (LotServer_CreateLot_proc env (wires_of env wr) validate m)) (LotServer_CreateLot env validate m)"
proof (cases "validate m")
  case (Some e)
  then show ?thesis
    by (simp add: LotServer_CreateLot_proc_def LotServer_CreateLot_def status_Error_eq returned_err_def comes_to_liftp)
next
  case None
  have create: "(\<lambda>w. case q w of
        (Fail e, w') \<Rightarrow> return_err (status_Error Internal ''error creating lot'') w'
      | (Panic p, w') \<Rightarrow> (Panic p, w')
      | (Ret newId, w') \<Rightarrow> (Ret (f newId), w')) =
    thenp q (\<lambda>r. liftp (case r of Fail e \<Rightarrow> returned_err (status_Error Internal ''error creating lot'') | Panic p \<Rightarrow> Panic p | Ret i \<Rightarrow> Ret (f i)))"
    for q :: "('s, uuid) action" and f
    by (auto simp: thenp_def fun_eq_iff status_Error_eq returned_err_def split: prod.splits outcome.splits)
  show ?thesis
    unfolding LotServer_CreateLot_proc_def LotServer_CreateLot_def None option.case alone_simps alone_pthen create query_defs
      wires_of_def wires.simps
    by (intro stays_idle_comes_to stays_idle_intros stays_idle_query)
qed

lemma rpc_method_comes_to: "comes_to (alone (rpc_method_proc env (wires_of env wr) sv m)) (rpc_method env sv m)"
  by (cases m) (simp_all only: rpc_method_proc.simps rpc_method.simps as_response_proc_def as_response_def alone_simps,
    (intro comes_to_bindp_pure CreateLot_comes_to GeneratePresignedUrl_comes_to CompleteMultiPartUpload_comes_to)+)

lemma serve_comes_to: "comes_to (alone (serve_proc env (wires_of env wr) sv call)) (serve env sv call)"
proof (cases "\<exists>m v. decoded call = Inr m \<and> sv_validator sv = Some v \<and> v m = Valid")
  case True
  then obtain m v where m: "decoded call = Inr m" "sv_validator sv = Some v" "v m = Valid" by blast
  let ?h = "\<lambda>r. case r of Ret a \<Rightarrow> Ret a | Fail e \<Rightarrow> returned_err (toGRPCError (sv_any_new sv) (Some e)) | Panic q \<Rightarrow> Panic q"
  have "serve env sv call = thenp (rpc_method env sv m) (\<lambda>r. liftp (?h r))"
    using m by (auto simp: fun_eq_iff serve_eq map_failure_def thenp_def returned_err_def split: prod.splits outcome.splits option.splits)
  moreover have "alone (serve_proc env (wires_of env wr) sv call) = thenp (alone (rpc_method_proc env (wires_of env wr) sv m)) (\<lambda>r. liftp (?h r))"
    using m by (simp add: serve_proc_def ErrorResponseInterceptor_proc_def)
  ultimately show ?thesis by (simp add: comes_to_then [OF rpc_method_comes_to, where h = ?h])
next
  case False
  have "\<exists>r. serve env sv call = liftp r \<and> alone (serve_proc env (wires_of env wr) sv call) = liftp r"
  proof (cases "decoded call")
    case (Inl e)
    then show ?thesis by (auto simp: fun_eq_iff serve_eq serve_proc_def)
  next
    case (Inr m)
    show ?thesis
    proof (cases "sv_validator sv")
      case None
      with Inr show ?thesis by (auto simp: fun_eq_iff serve_eq serve_proc_def)
    next
      case (Some v)
      with Inr False have "v m \<noteq> Valid" by blast
      with Inr Some show ?thesis
        by (cases "v m") (auto simp: fun_eq_iff serve_eq serve_proc_def status_Error_eq returned_err_def)
    qed
  qed
  then show ?thesis by (auto simp: comes_to_liftp)
qed

end
