(* ===== verification/Request_Calls.thy ===== *)
theory Request_Calls
  imports Process_Laws
begin

text \<open>
  How many calls a request makes, whatever the tables hold, whatever the outside answers and whatever other requests do meanwhile: one
  for a lot, three for a completion, and for an upload request four and a number that depends on its images alone. What limits
  the loops over rows and parts is that a statement returns one row per input, and that the parts of a row are numbered by
  \<open>smallint\<close>.
\<close>

section \<open>Rows of an upsert\<close>

lemma upsert_loop_rows:
  "upsert_loop propose on_conflict xs us = (None, us') \<Longrightarrow> length (us_rows us') = length (us_rows us) + length xs"
  by (induction propose on_conflict xs us rule: upsert_loop.induct) (auto simp: Let_def split: sum.splits option.splits if_splits)

lemma returning_rows_each:
  "returning_rows ret rows = Inr rs \<Longrightarrow> length rs = length rows \<and> (\<forall>r \<in> set rs. \<exists>old new. ret old new = Inr r)"
proof (induction rows arbitrary: rs)
  case (Cons row rows)
  obtain old new where row: "row = (old, new)" by fastforce
  with Cons.prems obtain r rs' where r: "ret old new = Inr r" and rest: "returning_rows ret rows = Inr rs'" and "rs = r # rs'"
    by (auto split: sum.splits)
  with Cons.IH [OF rest] show ?case by auto
qed simp

lemma upsert_statement_rows:
  assumes "upsert_statement propose on_conflict ret xs d = (Ret rs, d')"
  shows "length rs = length xs" and "r \<in> set rs \<Longrightarrow> \<exists>old new. ret old new = Inr r"
proof -
  obtain us where loop: "upsert_loop propose on_conflict xs (upsert_start d) = (None, us)" and rows: "returning_rows ret (us_rows us) = Inr rs"
    using assms by (auto simp: upsert_statement_def Let_def split: prod.splits option.splits sum.splits if_splits)
  with upsert_loop_rows [OF loop] returning_rows_each [OF rows]
  show "length rs = length xs" and "r \<in> set rs \<Longrightarrow> \<exists>old new. ret old new = Inr r" by (auto simp: upsert_start_def)
qed

definition max_parts :: nat where
  "max_parts = 32767"

lemma multi_rows_bounded:
  assumes "sql_InsertAndValidateMultiPartUpload env p d = (Ret rs, d')"
  shows "length rs = length (multi_inputs p)" and "r \<in> set rs \<Longrightarrow> length (mr_Parts r) \<le> max_parts"
proof -
  note stmt = assms [unfolded sql_InsertAndValidateMultiPartUpload_def]
  show "length rs = length (multi_inputs p)" by (rule upsert_statement_rows [OF stmt])
  assume "r \<in> set rs"
  then obtain old new where "multi_returning env old new = Inr r" using upsert_statement_rows [OF stmt] by blast
  then show "length (mr_Parts r) \<le> max_parts"
    by (auto simp: multi_returning_def bind_sum_def parts_array_def max_parts_def split: sum.splits option.splits if_splits)
qed

lemma segregate_loop_all:
  "segregate_loop rs xs ys = Ret (new, old) \<Longrightarrow> length new + length old \<le> length xs + length ys + length rs \<and>
     (\<forall>g \<in> set new \<union> set old. g \<in> set xs \<union> set ys \<or> (\<exists>r \<in> set rs. ng_fileParts g = mr_Parts r))"
proof (induction rs arbitrary: xs ys)
  case (Cons r rs)
  have data: "ng_fileParts g = mr_Parts r" if "generation_data r = Ret g" for g
    using that by (auto simp: generation_data_def)
  show ?case
  proof (cases "mr_IsInserted r \<or> \<not> mr_IsValid r")
    case True
    with Cons.prems obtain g where g: "generation_data r = Ret g" and rest: "segregate_loop rs (xs @ [g]) ys = Ret (new, old)"
      by (cases "generation_data r") (auto split: if_splits)
    from Cons.IH [OF rest] data [OF g] show ?thesis by auto
  next
    case False
    with Cons.prems obtain g where g: "generation_data r = Ret g" and rest: "segregate_loop rs xs (ys @ [g]) = Ret (new, old)"
      by (cases "generation_data r") (auto split: if_splits)
    from Cons.IH [OF rest] data [OF g] show ?thesis by auto
  qed
qed simp

section \<open>Files that need an upload\<close>

lemma separate_loop_length:
  "separate_loop fm em ks need already = (need', already') \<Longrightarrow> length need' + length already' = length need + length already + length ks"
  by (induction fm em ks need already rule: separate_loop.induct) (auto simp: Let_def split: if_splits)

lemma range_ok_length:
  assumes "range_ok env"
  shows "length (e_range env (remdups ks)) \<le> length ks"
proof -
  have "distinct (e_range env (remdups ks)) \<and> set (e_range env (remdups ks)) = set (remdups ks)"
    using assms unfolding range_ok_def by blast
  then have "length (e_range env (remdups ks)) = card (set ks)" by (metis distinct_card set_remdups)
  also have "\<dots> \<le> length ks" by (rule card_length)
  finally show ?thesis .
qed

lemma intent_loop_length:
  "intent_loop vs seen files dups = (files', dups') \<Longrightarrow> length files' \<le> length files + length vs"
  by (induction vs seen files dups rule: intent_loop.induct) (fastforce simp: Let_def split: if_splits)+

section \<open>Calls\<close>

lemma yields_outside: "(\<And>w a w'. m w = (Ret a, w') \<Longrightarrow> P a) \<Longrightarrow> yields_within I P (outside m) (Suc n)"
  unfolding outside_def by (rule yields_within_atom) (auto simp: off_conn_def split: prod.splits)

lemma yields_send: "yields_within I (\<lambda>_. True) (send cmd) (Suc n)"
  unfolding send_def by (rule yields_within_atom) simp

lemma query_cmd_Ret: "query_cmd stmt c = (Ret a, c') \<Longrightarrow> \<exists>d'. stmt (pc_current c) = (Ret a, d')"
  by (cases "stmt (pc_current c)"; cases "pc_status c") (auto simp: query_cmd_def)

lemma yields_query:
  assumes "\<And>d a d'. stmt d = (Ret a, d') \<Longrightarrow> P a"
  shows "yields_within I P (send (dbtx_query (WithTx q (OnTx False)) wr stmt)) (Suc n)"
  unfolding send_def
proof (rule yields_within_atom)
  fix s a and t :: "'b shared"
  assume "on_conn (dbtx_query (WithTx q (OnTx False)) wr stmt) s = (Ret a, t)"
  then obtain c where "query_cmd stmt (sh_conn s) = (Ret a, c)"
    by (auto simp: on_conn_def conn_exec_def split: prod.splits wire.splits if_splits)
  then obtain d' where "stmt (pc_current (sh_conn s)) = (Ret a, d')" by (auto dest: query_cmd_Ret)
  then show "P a" by (rule assms)
qed

section \<open>URLs\<close>

lemma new_parts_calls: "yields_within I (\<lambda>_. True) (generateNewMultiPartUploadUrls_proc env st u parts) (length parts)"
proof -
  have "yields_within I (\<lambda>_. True) (generateNewMultiPartUploadUrls_proc env st u parts) (length parts * Suc 0)"
    unfolding generateNewMultiPartUploadUrls_proc_def by (intro yields_within_pmapp yields_outside TrueI)
  then show ?thesis by simp
qed

lemma listNotUploadedParts_fewer:
  assumes "listNotUploadedParts env st u parts w = (Ret (ps, tags), w')"
  shows "length ps \<le> length parts"
proof -
  obtain ups v where "bindp (liftp (mapo uploaded_etag ups)) (\<lambda>ts. liftp (Ret (missing_parts ts parts, ts))) v = (Ret (ps, tags), w')"
    using assms unfolding listNotUploadedParts_def bindp_Ret_iff by blast
  then have "ps = missing_parts tags parts" by (cases "mapo uploaded_etag ups") auto
  then show ?thesis by (simp add: missing_parts_def Let_def)
qed

lemma resumed_parts_calls: "yields_within I (\<lambda>_. True) (generateResumeUploadUrls_proc env st u parts) (1 + length parts)"
proof -
  have list: "yields_within I (\<lambda>(ps, tags). length ps \<le> length parts) (outside (listNotUploadedParts env st u parts)) (Suc 0)"
    by (rule yields_outside) (auto dest: listNotUploadedParts_fewer)
  have urls: "yields_within I (\<lambda>_. True) (pbind (generateExistingMultiPartPresignedUrl_proc env st u ps) (\<lambda>r. Done (Ret (r, tags)))) (length parts)"
    if "length ps \<le> length parts" for ps tags
  proof -
    have "yields_within I (\<lambda>_. True) (generateExistingMultiPartPresignedUrl_proc env st u ps) (length ps * Suc 0)"
      unfolding generateExistingMultiPartPresignedUrl_proc_def by (intro yields_within_pmapp yields_outside TrueI)
    then have "yields_within I (\<lambda>_. True) (pbind (generateExistingMultiPartPresignedUrl_proc env st u ps) (\<lambda>r. Done (Ret (r, tags)))) (length ps * Suc 0 + 0)"
      by (rule yields_within_pbind) simp
    then show ?thesis by (rule calls_within_mono) (use that in simp_all)
  qed
  have "yields_within I (\<lambda>_. True) (generateResumeUploadUrls_proc env st u parts) (Suc 0 + length parts)"
    unfolding generateResumeUploadUrls_proc_def
    by (rule yields_within_pbind [OF yields_within_perror [OF list]]) (use urls in auto)
  then show ?thesis by simp
qed

lemma small_urls_calls:
  "yields_within I (\<lambda>_. True) (createSinglePresignedFileUrl_proc env ws (WithTx q (OnTx False)) st lot s)
     (1 + length (sd_singleFileUploads s))"
proof -
  have one: "yields_within I (\<lambda>_. True) (pbind (outside (generateSinglePresignedPutObjectUrl env st k h)) (\<lambda>u. Done (Ret (single_url f u)))) 1"
    for k h f
  proof -
    have "yields_within I (\<lambda>_. True) (pbind (outside (generateSinglePresignedPutObjectUrl env st k h)) (\<lambda>u. Done (Ret (single_url f u)))) (Suc 0 + 0)"
      by (intro yields_within_pbind [where P = "\<lambda>_. True"] yields_outside yields_within_Done TrueI)
    then show ?thesis by simp
  qed
  have "yields_within I (\<lambda>_. True) (createSinglePresignedFileUrl_proc env ws (WithTx q (OnTx False)) st lot s)
      (Suc 0 + length (sd_singleFileUploads s) * 1)"
    unfolding createSinglePresignedFileUrl_proc_def Let_def
    by (intro yields_within_pbind [OF yields_within_perror [OF yields_send]] yields_within_pmapp one)
  then show ?thesis by simp
qed

text \<open>The data of the small and of the large files, in arrays of one length each.\<close>

definition file_counts :: "extractFile \<Rightarrow> nat \<Rightarrow> nat \<Rightarrow> bool" where
  "file_counts x small large \<longleftrightarrow> length (sd_singleFileUploads (ex_singleFile x)) = small \<and> length (sd_Sha256s (ex_singleFile x)) = small \<and>
     (let m = ex_multipartFile x in length (md_Sha256s m) = large \<and> length (md_Sizes m) = large \<and> length (md_ContentTypes m) = large \<and>
        length (md_Names m) = large \<and> length (md_StorageKeys m) = large \<and> length (md_UploadIds m) = large)"

lemma extract_calls:
  "file_counts acc a b \<Longrightarrow> yields_within I (\<lambda>x. file_counts x (a + length (filter is_single fs)) (b + length (filter (\<lambda>f. \<not> is_single f) fs)))
     (extract_loop_proc env st fs acc) (2 * length (filter (\<lambda>f. \<not> is_single f) fs))"
proof (induction fs arbitrary: acc a b)
  case (Cons f fs)
  show ?case
  proof (cases "is_single f")
    case True
    with Cons.prems have "file_counts (acc\<lparr>ex_singleFile := add_single f (ex_singleFile acc)\<rparr>) (Suc a) b"
      by (simp add: file_counts_def add_single_def Let_def)
    from Cons.IH [OF this] True show ?thesis by (simp add: is_single_def [of f])
  next
    case False
    let ?N = "2 * length (filter (\<lambda>f. \<not> is_single f) fs)"
    let ?P = "\<lambda>x. file_counts x (a + length (filter is_single fs)) (Suc b + length (filter (\<lambda>f. \<not> is_single f) fs))"
    have rest: "yields_within I ?P (extract_loop_proc env st fs (acc\<lparr>ex_multipartFile := add_multi f key up (ex_multipartFile acc)\<rparr>)) ?N" for key up
      using Cons.prems by (intro Cons.IH) (simp add: file_counts_def add_multi_def Let_def)
    have "yields_within I ?P (extract_loop_proc env st (f # fs) acc) (Suc 0 + (0 + (Suc 0 + ?N)))"
      using False [unfolded is_single_def]
      by (simp only: extract_loop_proc.simps if_False)
        (intro yields_within_pbind [where P = "\<lambda>_. True"] yields_within_perror yields_outside yields_within_Done rest TrueI)
    with False show ?thesis by (simp del: extract_loop_proc.simps)
  qed
qed simp

lemma multi_inputs_length:
  "file_counts x a b \<Longrightarrow> length (multi_inputs (multi_params lot (ex_multipartFile x))) = b"
  by (simp add: multi_inputs_def multi_params_def file_counts_def Let_def pad_def)

lemma pmapp_calls:
  assumes "\<And>x. x \<in> set xs \<Longrightarrow> yields_within I (\<lambda>_. True) (f x) (c x)" and "\<And>x. x \<in> set xs \<Longrightarrow> c x \<le> n"
  shows "yields_within I (\<lambda>_. True) (pmapp f xs) (length xs * n)"
  by (rule yields_within_pmapp, rule calls_within_mono [OF assms(1) assms(2)]) simp_all

lemma large_urls_calls:
  assumes "file_counts x a b"
  shows "yields_within I (\<lambda>_. True)
    (createMultipartPresignedFileUrl_proc env ws (WithTx q (OnTx False)) st lot (ex_multipartFile x)) (1 + b * (1 + max_parts))"
proof -
  let ?m = "ex_multipartFile x" and ?few = "\<lambda>g. length (ng_fileParts g) \<le> max_parts"
  let ?rows = "\<lambda>rs :: InsertAndValidateMultiPartUploadRow list. length rs \<le> b \<and> (\<forall>r \<in> set rs. length (mr_Parts r) \<le> max_parts)"
  have rows: "yields_within I ?rows (send (dbtx_query (WithTx q (OnTx False)) (wr_query ws QInsertMulti)
      (sql_InsertAndValidateMultiPartUpload (e_sql env) (multi_params lot ?m)))) (Suc 0)"
    by (rule yields_query) (use multi_rows_bounded multi_inputs_length [OF assms] in fastforce)
  have segregated: "length new + length old \<le> b \<and> (\<forall>g \<in> set new \<union> set old. ?few g)"
    if "?rows rs" and "segregateMultiUploadFiles rs = Ret (new, old)" for rs new old
  proof -
    have all: "length new + length old \<le> length rs \<and> (\<forall>g \<in> set new \<union> set old. \<exists>r \<in> set rs. ng_fileParts g = mr_Parts r)"
      using segregate_loop_all [OF that(2) [unfolded segregateMultiUploadFiles_def]] by simp
    have "?few g" if "g \<in> set new \<union> set old" for g
      using all that \<open>?rows rs\<close> by (metis (no_types, lifting))
    with all that(1) show ?thesis by auto
  qed
  have new: "yields_within I (\<lambda>_. True) (generateUrlsForNewUploads_proc env st um gs) (length gs * (1 + max_parts))"
    if "\<And>g. g \<in> set gs \<Longrightarrow> ?few g" for um gs
    unfolding generateUrlsForNewUploads_proc_def
    by (rule pmapp_calls, rule yields_within_pbind [OF new_parts_calls yields_within_Done [where n = 0]]) (use that in \<open>auto intro: le_SucI\<close>)
  have old: "yields_within I (\<lambda>_. True) (genrateUrlsForResumableUploads_proc env st um gs) (length gs * (1 + max_parts))"
    if "\<And>g. g \<in> set gs \<Longrightarrow> ?few g" for um gs
    unfolding genrateUrlsForResumableUploads_proc_def case_prod_beta
    by (rule pmapp_calls, rule yields_within_pbind [OF resumed_parts_calls yields_within_Done [where n = 0]]) (use that in auto)
  have urls: "yields_within I (\<lambda>_. True) (pbind (generateUrlsForNewUploads_proc env st um new) (\<lambda>ns.
      pbind (genrateUrlsForResumableUploads_proc env st um old) (\<lambda>os. Done (Ret (ns @ os))))) (b * (1 + max_parts))"
    if "?rows rs" "segregateMultiUploadFiles rs = Ret (new, old)" for um rs new old
  proof -
    note few = segregated [OF that]
    have "yields_within I (\<lambda>_. True) (pbind (generateUrlsForNewUploads_proc env st um new) (\<lambda>ns.
      pbind (genrateUrlsForResumableUploads_proc env st um old) (\<lambda>os. Done (Ret (ns @ os)))))
      (length new * (1 + max_parts) + (length old * (1 + max_parts) + 0))"
      by (intro yields_within_pbind [where P = "\<lambda>_. True"] new old yields_within_Done) (use few in auto)
    moreover have "length new * (1 + max_parts) + (length old * (1 + max_parts) + 0) \<le> b * (1 + max_parts)"
      using few by (metis add.right_neutral add_mult_distrib mult_le_mono1)
    ultimately show ?thesis by (rule calls_within_mono) simp
  qed
  have "yields_within I (\<lambda>_. True)
    (createMultipartPresignedFileUrl_proc env ws (WithTx q (OnTx False)) st lot ?m) (Suc 0 + (0 + b * (1 + max_parts)))"
    unfolding createMultipartPresignedFileUrl_proc_def
  proof (rule yields_within_pbind [OF yields_within_perror [OF rows]])
    fix rs
    assume rs: "?rows rs"
    show "yields_within I (\<lambda>_. True) (pbind (Done (segregateMultiUploadFiles rs)) (\<lambda>(new, old).
        pbind (generateUrlsForNewUploads_proc env st (md_multiFileUploadMap ?m) new) (\<lambda>newPresignedUrls.
        pbind (genrateUrlsForResumableUploads_proc env st (md_multiFileUploadMap ?m) old)
          (\<lambda>resumablePresignedUrls. Done (Ret (newPresignedUrls @ resumablePresignedUrls)))))) (0 + b * (1 + max_parts))"
      by (rule yields_within_pbind [OF yields_within_Done [where P = "\<lambda>p. segregateMultiUploadFiles rs = Ret p"]])
        (use urls [OF rs] in auto)
  qed
  then show ?thesis by simp
qed

text \<open>Each image costs at most what a large one with all its parts does.\<close>

definition image_calls :: nat where
  "image_calls = max_parts + 4"

lemma upload_urls_calls:
  "yields_within I (\<lambda>_. True) (generateS3UploadUrl_proc env ws (WithTx q (OnTx False)) st lot fs) (image_calls * length fs)"
proof -
  let ?a = "length (filter is_single fs)" and ?b = "length (filter (\<lambda>f. \<not> is_single f) fs)"
  have start: "yields_within I (\<lambda>x. file_counts x ?a ?b) (extract_loop_proc env st fs zero_extractFile) (2 * ?b)"
    using extract_calls [of zero_extractFile 0 0] by (simp add: file_counts_def zero_extractFile_def)
  have small: "yields_within I (\<lambda>_. True) (if length (sd_Sha256s (ex_singleFile x)) > 0
      then createSinglePresignedFileUrl_proc env ws (WithTx q (OnTx False)) st lot (ex_singleFile x) else Done (Ret [])) (2 * ?a)"
    if x: "file_counts x ?a ?b" for x
    by (cases "?a = 0") (use x in \<open>auto simp: file_counts_def Suc_le_eq intro!: calls_within_mono [OF small_urls_calls]\<close>)
  have large: "yields_within I (\<lambda>_. True) (if length (md_Sha256s (ex_multipartFile x)) > 0
      then createMultipartPresignedFileUrl_proc env ws (WithTx q (OnTx False)) st lot (ex_multipartFile x) else Done (Ret []))
      (?b * (2 + max_parts))"
    if x: "file_counts x ?a ?b" for x
    by (cases "?b = 0") (use x in \<open>auto simp: file_counts_def Let_def Suc_le_eq intro!: calls_within_mono [OF large_urls_calls [OF x]]\<close>)
  have "yields_within I (\<lambda>_. True) (generateS3UploadUrl_proc env ws (WithTx q (OnTx False)) st lot fs)
      (2 * ?b + (2 * ?a + (?b * (2 + max_parts) + 0)))"
    unfolding generateS3UploadUrl_proc_def
    by (intro yields_within_pbind [OF start] yields_within_pbind [OF small] yields_within_pbind [OF large]) simp_all
  moreover have "2 * ?b + (2 * ?a + (?b * (2 + max_parts) + 0)) \<le> image_calls * length fs"
    using sum_length_filter_compl [of is_single fs] by (simp add: image_calls_def max_parts_def)
  ultimately show ?thesis by (rule calls_within_mono) simp
qed

section \<open>Requests\<close>

lemma upload_body_calls:
  assumes "range_ok env"
  shows "yields_within I (\<lambda>_. True) (upload_body_proc env ws (WithTx server_queries (OnTx False)) st lot fs) (1 + image_calls * length fs)"
proof -
  let ?qtx = "WithTx server_queries (OnTx False)"
  have need: "length need \<le> length fs"
    if "separateUploadedAndNeedToBeUploadedFiles fm em (e_range env (remdups (map uf_Sha256 fs))) = (need, already)" for fm and em :: "string \<rightharpoonup> 'r" and need already
    using separate_loop_length [OF that [unfolded separateUploadedAndNeedToBeUploadedFiles_def]] range_ok_length [OF assms, of "map uf_Sha256 fs"]
    by simp
  have skip: "yields_within I (\<lambda>(need, already). length need \<le> length fs) (skipUploadForIdenticalImageBlobs_proc env ws ?qtx fs lot) (Suc 0 + 0)"
    unfolding skipUploadForIdenticalImageBlobs_proc_def Let_def
    by (rule yields_within_pbind [OF yields_within_perror [OF yields_send]]) (auto dest: need)
  have urls: "yields_within I (\<lambda>_. True) (pbind (generateS3UploadUrl_proc env ws ?qtx st lot need) (\<lambda>urls. Done (Ret (already, urls))))
      (image_calls * length fs)" if "length need \<le> length fs" for need already
  proof -
    have "yields_within I (\<lambda>_. True) (pbind (generateS3UploadUrl_proc env ws ?qtx st lot need) (\<lambda>urls. Done (Ret (already, urls))))
        (image_calls * length need + 0)"
      by (rule yields_within_pbind [OF upload_urls_calls]) simp
    then show ?thesis by (rule calls_within_mono) (use that in simp_all)
  qed
  have "yields_within I (\<lambda>_. True) (upload_body_proc env ws ?qtx st lot fs) (Suc 0 + 0 + image_calls * length fs)"
    unfolding upload_body_proc_def by (rule yields_within_pbind [OF skip]) (use urls in auto)
  then show ?thesis by simp
qed

lemma end_tx_calls: "yields_within I (\<lambda>_. True) (end_tx_proc ws r) 2"
proof (cases r)
  case (Ret a)
  have "yields_within I (\<lambda>_. True) (end_tx_proc ws (Ret a)) (Suc 0 + (Suc 0 + 0))"
    unfolding end_tx_proc_def outcome.case
    by (intro calls_within_pthen [OF yields_within_perror [OF yields_send]] calls_within_pthen [OF yields_send]) (auto split: outcome.splits)
  with Ret show ?thesis by (simp add: numeral_2_eq_2)
qed (simp_all add: end_tx_proc_def calls_within_mono [OF calls_within_pthen [OF yields_send [of I _ 0], where m = 0]])

lemma upload_tx_calls:
  assumes "range_ok env"
  shows "yields_within I (\<lambda>_. True) (upload_tx_proc env ws st lot fs) (4 + image_calls * length fs)"
proof -
  have "yields_within I (\<lambda>_. True) (upload_tx_proc env ws st lot fs) (Suc 0 + (1 + image_calls * length fs + 2))"
    unfolding upload_tx_proc_def
    by (intro yields_within_pbind [OF yields_within_perror [OF yields_send]] calls_within_pthen [OF upload_body_calls [OF assms]] end_tx_calls)
  then show ?thesis by (simp add: numeral_eq_Suc)
qed

fun call_bound :: "rpc_call \<Rightarrow> nat" where
  "call_bound (CallCreateLot dec) = 1"
| "call_bound (CallGeneratePresignedUrl dec) = (case dec of Inl e \<Rightarrow> 0 | Inr m \<Rightarrow> 4 + image_calls * length (gq_LotImages m))"
| "call_bound (CallCompleteMultiPartUpload dec) = 3"

lemma initiateUpload_calls:
  assumes "range_ok env"
  shows "yields_within I (\<lambda>_. True) (initiateUpload_proc env ws store fs lotId) (4 + image_calls * length fs)"
proof -
  obtain files dups where split: "intentBatchUpload fs = (files, dups)" by fastforce
  then have fewer: "length files \<le> length fs" unfolding intentBatchUpload_def by (drule_tac intent_loop_length) simp
  show ?thesis
  proof (cases "uuid_Parse lotId")
    case (Inr lot)
    have "yields_within I (\<lambda>_. True) (initiateUpload_proc env ws store fs lotId) (0 + (4 + image_calls * length files + 0))"
      unfolding initiateUpload_proc_def split Let_def prod.case Inr sum.case
      by (intro yields_within_pbind [where P = "\<lambda>_. True"] yields_within_pbind [OF upload_tx_calls [OF assms]] yields_within_Done TrueI)
        (auto split: prod.split)
    then show ?thesis by (rule calls_within_mono) (use fewer in simp_all)
  qed (simp add: initiateUpload_proc_def split)
qed

lemma GeneratePresignedUrl_calls:
  assumes "range_ok env"
  shows "yields_within I (\<lambda>_. True) (GeneratePresignedUrl_proc env ws store m) (4 + image_calls * length (gq_LotImages m))"
proof -
  have "yields_within I (\<lambda>_. True) (GeneratePresignedUrl_proc env ws store m)
      (0 + (0 + (4 + image_calls * length (gq_LotImages m) + (0 + (0 + (0 + 0))))))"
    unfolding GeneratePresignedUrl_proc_def
  proof (rule yields_within_pbind [OF yields_within_Done [where P = "\<lambda>fs. convertToUploadFiles (gq_LotImages m) = Ret fs"]])
    fix fs
    assume "convertToUploadFiles (gq_LotImages m) = Ret fs"
    then have "length fs = length (gq_LotImages m)" by (simp add: convertToUploadFiles_def mapo_length)
    with initiateUpload_calls [OF assms, of I ws store fs] have upload:
      "yields_within I (\<lambda>_. True) (initiateUpload_proc env ws store fs lotId) (4 + image_calls * length (gq_LotImages m))" for lotId by simp
    show "yields_within I (\<lambda>_. True) (pbind (Done (deref (gq_LotId m))) (\<lambda>lotId.
        pbind (initiateUpload_proc env ws store fs lotId) (\<lambda>result.
        pbind (Done (convertToImageFiles (ur_duplicateFiles result))) (\<lambda>duplicateImageFiles.
        pbind (Done (convertToImageFiles (ur_alreadyUploadedFiles result))) (\<lambda>alreadyUploadedImageFiles.
        pbind (Done (convertToPresignedImageFiles (ur_presignedFileUrls result))) (\<lambda>presignedImageFiles.
          Done (Ret (Some \<lparr>gs_Success = Some True, gs_Message = Some ''Presigned url created'',
            gs_PresignResult = Some \<lparr>fr_DuplicateFiles = duplicateImageFiles,
              fr_AlreadyUploadedFiles = alreadyUploadedImageFiles, fr_PresignedFiles = presignedImageFiles\<rparr>\<rparr>)))))))
        ) (0 + (4 + image_calls * length (gq_LotImages m) + (0 + (0 + (0 + 0)))))"
      by (intro yields_within_pbind [OF upload] yields_within_pbind [where P = "\<lambda>_. True"] yields_within_Done TrueI)
  qed simp
  then show ?thesis by simp
qed

lemma CompleteMultiPartUpload_calls:
  "yields_within I (\<lambda>_. True) (CompleteMultiPartUpload_proc env ws sort_parts store m) 3"
proof -
  have rest: "yields_within I (\<lambda>_. True) (if b then Done (Fail e) else pthen (outside c) (\<lambda>r. Done (g r))) (Suc 0)" for b e c g
    using calls_within_pthen [OF yields_outside [of c "\<lambda>_. True" I 0], of "\<lambda>_. True" "\<lambda>r. Done (g r)" 0]
    by (cases b) (simp_all add: calls_within_mono)
  have "yields_within I (\<lambda>_. True) (completeMultiPartUpload_proc env ws sort_parts store k bucket ps) (0 + (Suc 0 + (0 + (Suc 0 + (0 + Suc 0)))))" for k bucket ps
    unfolding completeMultiPartUpload_proc_def
    by (intro yields_within_pbind [where P = "\<lambda>_. True"] yields_within_perror yields_send yields_outside yields_within_Done rest TrueI)
  then have "yields_within I (\<lambda>_. True) (CompleteMultiPartUpload_proc env ws sort_parts store m)
      (0 + (0 + (0 + (Suc 0 + (0 + (Suc 0 + (0 + Suc 0)))) + 0)))"
    unfolding CompleteMultiPartUpload_proc_def
    by (intro yields_within_pbind [where P = "\<lambda>_. True"] yields_within_Done TrueI)
  then show ?thesis by (simp add: numeral_3_eq_3)
qed

lemma CreateLot_calls: "yields_within I (\<lambda>_. True) (LotServer_CreateLot_proc env ws validate m) 1"
proof (cases "validate m")
  case None
  have "yields_within I (\<lambda>_. True) (LotServer_CreateLot_proc env ws validate m) (0 + (Suc 0 + 0))"
    unfolding LotServer_CreateLot_proc_def None option.case
    by (intro yields_within_pbind [where P = "\<lambda>_. True"] calls_within_pthen [OF yields_send] yields_within_Done TrueI)
  then show ?thesis by simp
qed (simp add: LotServer_CreateLot_proc_def)

lemma response_calls:
  assumes "yields_within I (\<lambda>_. True) p n"
  shows "calls_within I (\<lambda>_. True) (ErrorResponseInterceptor_proc any_new (as_response_proc f p)) n"
proof -
  have "calls_within I (\<lambda>_. True) (ErrorResponseInterceptor_proc any_new (as_response_proc f p)) (n + 0 + 0)"
    unfolding ErrorResponseInterceptor_proc_def as_response_proc_def
    by (intro calls_within_pthen [OF yields_within_pbind [OF assms yields_within_Done [where P = "\<lambda>_. True"]]]) simp_all
  then show ?thesis by simp
qed

lemma serve_calls:
  assumes "range_ok env"
  shows "calls_within I (\<lambda>_. True) (serve_proc env ws sv call) (call_bound call)"
proof -
  have "calls_within I (\<lambda>_. True) (ErrorResponseInterceptor_proc any_new (rpc_method_proc env ws sv m)) (call_bound call)"
    if "decoded call = Inr m" for any_new m
    using that
  proof (cases call)
    case (CallCreateLot dec)
    with that show ?thesis by (cases dec) (auto simp del: One_nat_def intro!: response_calls CreateLot_calls)
  next
    case (CallGeneratePresignedUrl dec)
    with that show ?thesis by (cases dec) (auto intro!: response_calls GeneratePresignedUrl_calls [OF assms])
  next
    case (CallCompleteMultiPartUpload dec)
    with that show ?thesis by (cases dec) (auto intro!: response_calls CompleteMultiPartUpload_calls)
  qed
  then show ?thesis by (auto simp: serve_proc_def split: sum.split option.split validation.split)
qed

end
