(* ===== verification/Server_Invariants.thy ===== *)
theory Server_Invariants
  imports Server_Laws
begin

text \<open>
  Invariants of the tables. The interface \<open>statement_invariant\<close> asks for what the three statements of an upload request do to
  a predicate, with the parameters that the program passes for one lot; its lemmas carry the predicate through the body of the
  transaction. \<open>table_invariant\<close> asks for it for every lot, and for the statement that creates a lot; its lemmas carry
  the predicate through every request and every run of the server. Two predicates are instances: the uploads that the
  program can complete, and the links to images that have been uploaded.
\<close>

section \<open>The interfaces\<close>

locale statement_invariant =
  fixes I :: "db \<Rightarrow> bool" and lot :: uuid
  assumes identical: "ip_LotID ip = lot \<Longrightarrow> keeps I (InsertIdenticalImageBlobsToLotImages fault ip)"
    and single: "keeps I (InsertSinglePartUpload fault env (single_params lot s))"
    and multi: "keeps I (InsertAndValidateMultiPartUpload fault env (multi_params lot m))"
begin

lemma skip_kept: "keeps (\<lambda>w. I (w_db w)) (skipUploadForIdenticalImageBlobs env fs lot)"
  unfolding skipUploadForIdenticalImageBlobs_def Let_def by (intro keeps_intros identical) simp

lemma createSingle_kept: "keeps (\<lambda>w. I (w_db w)) (createSinglePresignedFileUrl env st lot s)"
  unfolding createSinglePresignedFileUrl_def Let_def by (intro keeps_intros single)

lemma createMultipart_kept: "keeps (\<lambda>w. I (w_db w)) (createMultipartPresignedFileUrl env st lot m)"
  unfolding createMultipartPresignedFileUrl_def
  by (intro keeps_intros multi, simp add: case_prod_beta, intro keeps_intros)

lemma upload_body_kept: "keeps (\<lambda>w. I (w_db w)) (upload_body env st lot fs)"
proof -
  have "keeps (\<lambda>w. I (w_db w)) (generateS3UploadUrl env st lot gs)" for gs
    unfolding generateS3UploadUrl_def by (intro keeps_intros createSingle_kept createMultipart_kept)
  then show ?thesis
    unfolding upload_body_def by (intro keeps_intros skip_kept, simp add: case_prod_beta, intro keeps_intros)
qed

end

locale table_invariant =
  fixes I :: "db \<Rightarrow> bool"
  assumes tables: "same_tables d d' \<Longrightarrow> I d \<Longrightarrow> I d'"
    and statements: "statement_invariant I lot"
    and create_lot: "keeps I (CreateLot fault env p)"
begin

lemma in_tx_kept:
  fixes body :: "('s, 'r) action"
  assumes "keeps (\<lambda>w. I (w_db w)) body"
  shows "keeps (\<lambda>w. I (w_db w)) (in_tx env b c body)"
proof (rule keepsI)
  fix w :: "'s world"
  assume w: "I (w_db w)"
  have roll: "I (rolled_back (w_db w) d)" for d by (rule tables [OF rolled_back_tables w])
  obtain r w1 where run: "body w = (r, w1)" by fastforce
  then have "I (w_db w1)" using keepsD [OF assms w] by simp
  with roll w run show "I (w_db (snd (in_tx env b c body w)))"
    by (auto simp: in_tx_def split: option.splits outcome.splits commit_outcome.splits)
qed

lemma initiateUpload_kept: "keeps (\<lambda>w. I (w_db w)) (initiateUpload env store fs lotId)"
  unfolding initiateUpload_def case_prod_beta Let_def
  by (cases "uuid_Parse lotId") (auto intro!: keeps_intros in_tx_kept statement_invariant.upload_body_kept [OF statements])

lemma GeneratePresignedUrl_kept: "keeps (\<lambda>w. I (w_db w)) (GeneratePresignedUrl env store m)"
  unfolding GeneratePresignedUrl_eq by (intro keeps_intros initiateUpload_kept)

lemma CompleteMultiPartUpload_kept: "keeps (\<lambda>w. I (w_db w)) (CompleteMultiPartUpload env sort_parts store m)"
  unfolding CompleteMultiPartUpload_def by (intro keeps_intros)

lemma LotServer_CreateLot_kept: "keeps (\<lambda>w. I (w_db w)) (LotServer_CreateLot env validate m)"
proof -
  have "keeps (\<lambda>w. I (w_db w)) (\<lambda>w. case on_db (CreateLot (e_faults env) (e_sql env) p) w of
      (Fail e, w') \<Rightarrow> return_err (status_Error Internal ''error creating lot'') w'
    | (Panic q, w') \<Rightarrow> (Panic q, w')
    | (Ret newId, w') \<Rightarrow> (Ret (f newId), w'))" for p f
    using keeps_on_db [OF create_lot [of "e_faults env" "e_sql env" p]]
    by (auto simp: keeps_def status_Error_eq split: prod.splits outcome.splits)
  then show ?thesis
    unfolding LotServer_CreateLot_def
    by (cases "validate m") (auto intro!: keeps_intros simp: status_Error_eq)
qed

lemma serve_keeps: "I (w_db w) \<Longrightarrow> I (w_db (snd (serve env sv call w)))"
proof -
  assume w: "I (w_db w)"
  have "I (w_db (snd (rpc_method env sv m w)))" for m
    using w LotServer_CreateLot_kept [of env "sv_validate sv"] GeneratePresignedUrl_kept [of env "sv_imageStore sv"]
      CompleteMultiPartUpload_kept [of env "sv_sort sv" "sv_imageStore sv"]
    by (cases m) (simp_all add: as_response_world keeps_def)
  with w show ?thesis
    by (auto simp: serve_eq grpc_sink.map_failure_world split: sum.splits option.splits validation.splits)
qed

lemma server_step_keeps:
  assumes "server_step sv s s'" and "I (w_db (world_of s))"
  shows "I (w_db (world_of s'))"
  using assms(1)
proof (cases rule: server_step.cases)
  case (answered env call w r w')
  with serve_keeps [of w env sv call] assms(2) show ?thesis by simp
next
  case (crashed env call w p w')
  with serve_keeps [of w env sv call] assms(2) show ?thesis by simp
qed

lemma server_run_keeps: "server_run sv s s' \<Longrightarrow> I (w_db (world_of s)) \<Longrightarrow> I (w_db (world_of s'))"
  by (induction rule: rtranclp_induct) (auto intro: server_step_keeps)

end

section \<open>Rows of an upsert\<close>

context upsert
begin

lemma upsert_loop_all:
  assumes "upsert_loop propose on_conflict xs us = (r, us')" and "\<forall>a \<in> set (us_attempts us). P a"
    and "\<And>u i x a. us_seq us \<le> i \<Longrightarrow> i < us_seq us + int (length xs) \<Longrightarrow> propose u i x = Inr a \<Longrightarrow> P a"
    and upd: "\<And>a b. P a \<Longrightarrow> update_row on_conflict a = Inr b \<Longrightarrow> P b"
  shows "(\<forall>a \<in> set (us_attempts us'). P a) \<and> us_seq us' \<le> us_seq us + int (length xs)"
  using assms(1-3)
proof (induction xs arbitrary: us)
  case (Cons x xs)
  let ?us = "us\<lparr>us_seq := us_seq us + 1, us_uuid := us_uuid us + 1\<rparr>"
  have new: "P a" if "propose u i y = Inr a" "us_seq us \<le> i" "i < us_seq us + (1 + int (length xs))" for u i y a
    using Cons.prems(3) [of i u y a] that by simp
  have rest: "(\<forall>a \<in> set (us_attempts us'). P a) \<and> us_seq us' \<le> us_seq us + int (length (x # xs))"
    if run: "upsert_loop propose on_conflict xs vs = (r, us')" and vs: "us_seq vs = us_seq us + 1"
      "\<forall>a \<in> set (us_attempts vs). P a" for vs
    using Cons.IH [OF run vs(2)] new vs(1) by (fastforce simp: algebra_simps)
  show ?case
  proof (cases "propose (us_uuid us) (us_seq us) x")
    case (Inr row)
    then have row: "P row" by (rule new) simp_all
    show ?thesis
    proof (cases "find_pending (pending_key row) (us_attempts us)")
      case None
      let ?next = "?us\<lparr>us_attempts := us_attempts us @ [row], us_rows := us_rows us @ [(None, row)]\<rparr>"
      show ?thesis by (rule rest [of ?next]) (use None Inr Cons.prems(1,2) row in auto)
    next
      case (Some old)
      then have old: "P old" using Cons.prems(2) by (auto dest: find_pending_SomeD)
      show ?thesis
      proof (cases "at_ID old \<in> ids_of (us_rows us)")
        case False
        obtain b where b: "update_row on_conflict old = Inr b" using update_row_total by blast
        let ?next = "?us\<lparr>us_attempts := replace_row b (us_attempts us), us_rows := us_rows us @ [(Some old, b)]\<rparr>"
        show ?thesis by (rule rest [of ?next]) (use False Some Inr Cons.prems(1,2) b upd [OF old b] in \<open>auto simp: in_replace_row\<close>)
      qed (use Some Inr Cons.prems(1,2) in auto)
    qed
  qed (use Cons.prems(1,2) in auto)
qed simp

lemma upsert_statement_all:
  assumes "\<forall>a \<in> set (attempts d). P a"
    and "\<And>u i x a. propose u i x = Inr a \<Longrightarrow> P a" and "\<And>a b. P a \<Longrightarrow> update_row on_conflict a = Inr b \<Longrightarrow> P b"
  shows "\<forall>a \<in> set (attempts (snd (upsert_statement propose on_conflict ret xs d))). P a"
proof -
  obtain r d' where stmt: "upsert_statement propose on_conflict ret xs d = (r, d')" by fastforce
  then show ?thesis
  proof (cases rule: upsert_statement_cases)
    case (returned rs us)
    have "\<forall>a \<in> set (us_attempts us). P a"
      using upsert_loop_all [OF returned(2), of P] assms by (auto simp: upsert_start_def)
    with stmt returned(3) show ?thesis by simp
  qed (use assms(1) stmt in simp)
qed

end

section \<open>Uploads that can be completed\<close>

text \<open>
  An attempt with an upload id is one of the multipart type, with the part size of the program: so it has a part
  count, which depends on its size only.
\<close>

definition upload_sized :: "ImageBlobUploadAttempt \<Rightarrow> bool" where
  "upload_sized a \<longleftrightarrow> (at_UploadID a \<noteq> None \<longrightarrow> at_UploadType a = MultiUpload \<and> at_PartSize a = Some partSize)"

definition uploads_sized :: "db \<Rightarrow> bool" where
  "uploads_sized d \<longleftrightarrow> (\<forall>a \<in> set (attempts d). upload_sized a)"

lemma single_sized: "uploads_sized d \<Longrightarrow> uploads_sized (snd (sql_InsertSinglePartUpload env p d))"
  unfolding uploads_sized_def sql_InsertSinglePartUpload_def
proof (rule single_upsert.upsert_statement_all)
  show "upload_sized a" if "single_propose env p u i x = Inr a" for u i x a
    using single_propose_Inr [OF that] by (simp add: upload_sized_def)
  show "upload_sized b" if "upload_sized a" "update_row single_on_conflict a = Inr b" for a b
    using that single_upsert.update_row_same [OF that(2)]
    by (simp add: upload_sized_def same_identity_def single_on_conflict_def)
qed

lemma multi_sized:
  assumes "uploads_sized d" and p: "mp_UploadType p = MultiUpload" "mp_PartSize p = partSize"
  shows "uploads_sized (snd (sql_InsertAndValidateMultiPartUpload env p d))"
  using assms(1) unfolding uploads_sized_def sql_InsertAndValidateMultiPartUpload_def
proof (rule multi_upsert.upsert_statement_all)
  show "upload_sized a" if "multi_propose env p u i x = Inr a" for u i x a
  proof -
    obtain sha fsize ctype upload_id fname skey where "x = (sha, fsize, ctype, upload_id, fname, skey)" by (cases x) auto
    with multi_propose_Inr that p show ?thesis by (simp add: upload_sized_def)
  qed
  show "upload_sized b" if "upload_sized a" "update_row (multi_on_conflict env p) a = Inr b" for a b
    using that multi_upsert.update_row_same [OF that(2)] p
    by (auto simp: upload_sized_def same_identity_def multi_on_conflict_def)
qed

interpretation sized_statements: statement_invariant uploads_sized lot for lot
proof unfold_locales
  have identical: "attempts (snd (sql_InsertIdenticalImageBlobsToLotImages ip d)) = attempts d" for ip d
    by (auto simp: sql_InsertIdenticalImageBlobsToLotImages_def Let_def split: prod.splits sum.splits)
  have "keeps uploads_sized (sql_InsertIdenticalImageBlobsToLotImages ip)" for ip
    by (rule keepsI) (simp add: uploads_sized_def identical)
  then show "keeps uploads_sized (InsertIdenticalImageBlobsToLotImages fault ip)" for fault ip
    unfolding query_defs by (rule keeps_run_query)
  show "keeps uploads_sized (InsertSinglePartUpload fault env (single_params lot s))" for fault env s
    unfolding query_defs by (intro keeps_run_query keepsI single_sized)
  show "keeps uploads_sized (InsertAndValidateMultiPartUpload fault env (multi_params lot m))" for fault env m
    unfolding query_defs by (intro keeps_run_query keepsI multi_sized) (simp_all add: multi_params_def)
qed

interpretation sized: table_invariant uploads_sized
proof unfold_locales
  show "uploads_sized d'" if "same_tables d d'" "uploads_sized d" for d d'
    using that by (simp add: same_tables_def uploads_sized_def)
  have create: "attempts (snd (sql_CreateLot env p d)) = attempts d" for env p d
    by (auto simp: sql_CreateLot_def Let_def split: sum.splits)
  have "keeps uploads_sized (sql_CreateLot env p)" for env p
    by (rule keepsI) (simp add: uploads_sized_def create)
  then show "keeps uploads_sized (CreateLot fault env p)" for fault env p
    unfolding query_defs by (rule keeps_run_query)
qed

section \<open>Links to images that are there\<close>

text \<open>A link of a lot is to a blob whose upload is complete.\<close>

definition links_completed :: "db \<Rightarrow> bool" where
  "links_completed d \<longleftrightarrow> (\<forall>l \<in> set (lot_images d). \<exists>b \<in> set (image_blobs d).
     ib_ImageBlobID b = li_ImageBlobID l \<and> ib_IsUploadCompleted b)"

lemma insert_identical_completed:
  "insert_identical d lot xs seq = (Inr rs, seq') \<Longrightarrow> r \<in> set rs \<Longrightarrow>
    \<exists>b \<in> set (image_blobs d). ib_ImageBlobID b = li_ImageBlobID (fst r) \<and> ib_IsUploadCompleted b"
proof (induction xs arbitrary: seq rs)
  case (Cons x xs)
  obtain sha name where x: "x = (sha, name)" by (cases x)
  with Cons.prems obtain sb where sb: "decode_optional sha = Inr sb" by (cases "decode_optional sha") auto
  show ?case
  proof (cases "Option.bind sb (completed_blob d)")
    case None
    with x sb Cons show ?thesis by simp
  next
    case (Some blob)
    then have blob: "blob \<in> set (image_blobs d)" "ib_IsUploadCompleted blob" by (cases sb; auto dest: completed_blob_SomeD)+
    from Some x sb Cons.prems obtain nm where nm: "name = Some nm" by (cases name) auto
    obtain r1 s1 where rest: "insert_identical d lot xs (seq + 1) = (r1, s1)" by fastforce
    with x sb Some nm Cons.prems obtain rs1 first where r1: "r1 = Inr rs1" "s1 = seq'" and rs: "rs = first # rs1"
      and first: "li_ImageBlobID (fst first) = ib_ImageBlobID blob" by (cases r1) (auto simp: Let_def)
    show ?thesis
    proof (cases "r = first")
      case True
      with first blob show ?thesis by auto
    next
      case False
      with Cons.prems(2) rs Cons.IH [OF rest [unfolded r1]] show ?thesis by simp
    qed
  qed
qed simp

lemma identical_completed: "links_completed d \<Longrightarrow> links_completed (snd (sql_InsertIdenticalImageBlobsToLotImages p d))"
proof -
  assume d: "links_completed d"
  obtain res seq where ins: "insert_identical d (ip_LotID p) (identical_inputs p) (lot_image_seq d) = (res, seq)" by fastforce
  show ?thesis
  proof (cases res)
    case (Inr rs)
    note new = insert_identical_completed [OF ins [unfolded Inr]]
    have "links_completed (d\<lparr>lot_image_seq := seq, lot_images := lot_images d @ map fst rs\<rparr>)"
      using d new unfolding links_completed_def by auto
    with d ins Inr show ?thesis
      by (auto simp: sql_InsertIdenticalImageBlobsToLotImages_def Let_def links_completed_def)
  qed (use d ins in \<open>simp add: sql_InsertIdenticalImageBlobsToLotImages_def links_completed_def\<close>)
qed

interpretation completed_statements: statement_invariant links_completed lot for lot
proof unfold_locales
  show "keeps links_completed (InsertIdenticalImageBlobsToLotImages fault ip)" for fault ip
    unfolding query_defs by (intro keeps_run_query keepsI identical_completed)
  have upsert: "keeps links_completed (upsert_statement propose on_conflict ret xs)" for propose on_conflict ret xs
    by (rule keepsI) (simp add: links_completed_def upsert_statement_def Let_def split: prod.splits option.splits sum.splits)
  show "keeps links_completed (InsertSinglePartUpload fault env (single_params lot s))" for fault env s
    unfolding query_defs sql_InsertSinglePartUpload_def by (intro keeps_run_query upsert)
  show "keeps links_completed (InsertAndValidateMultiPartUpload fault env (multi_params lot m))" for fault env m
    unfolding query_defs sql_InsertAndValidateMultiPartUpload_def by (intro keeps_run_query upsert)
qed

interpretation completed: table_invariant links_completed
proof unfold_locales
  show "links_completed d'" if "same_tables d d'" "links_completed d" for d d'
    using that by (simp add: same_tables_def links_completed_def)
  have "keeps links_completed (sql_CreateLot env p)" for env p
    by (rule keepsI) (auto simp: links_completed_def sql_CreateLot_def Let_def split: sum.splits)
  then show "keeps links_completed (CreateLot fault env p)" for fault env p
    unfolding query_defs by (rule keeps_run_query)
qed

end
