(* ===== verification/Server_Ledger.thy ===== *)
theory Server_Ledger
  imports Server_Invariants Service_Laws
begin

text \<open>
  What the service is for, as an abstract machine. A \<open>ledger\<close> knows the lots, the images that are there, the links between
  them and the uploads that are under way; each request is one step of it, or none. The server refines it: \<open>ledger_of\<close>
  forgets sequences, versions, deadlines and part counts, and every request, however it ends, is a step of the ledger.
\<close>

section \<open>The abstract machine\<close>

record ledger =
  lg_lots :: "uuid list"
  lg_images :: "int set"
  lg_links :: "(uuid \<times> int) list"
  lg_uploads :: "bytes \<times> uuid \<rightharpoonup> uuid \<times> string option"

text \<open>
  The steps, with the call and its outcome. A refused request does nothing; a new lot is answered with its id; an announcement
  links images that are there to its lot and starts uploads for it, and leaves every other lot and every upload under way alone. It
  may do so without an answer: when the answer of the commit is lost, and when the response cannot be written.
\<close>

inductive ledger_step :: "rpc_call \<Rightarrow> (err, rpc_response option) outcome \<Rightarrow> ledger \<Rightarrow> ledger \<Rightarrow> bool" where
  refused: "(\<And>a. r \<noteq> Ret a) \<Longrightarrow> ledger_step call r g g"
| completed: "ledger_step (CallCompleteMultiPartUpload dec) r g g"
| created: "i \<notin> set (lg_lots g) \<Longrightarrow> ks_LotId resp = Some (uuid_String i) \<Longrightarrow>
    ledger_step (CallCreateLot dec) (Ret (Some (RespCreateLot resp))) g (g\<lparr>lg_lots := lg_lots g @ [i]\<rparr>)"
| announced: "gq_LotId m = Some t \<Longrightarrow> uuid_Parse t = Inr lot \<Longrightarrow>
    (\<And>l. l \<in> set new_links \<Longrightarrow> fst l = lot \<and> snd l \<in> lg_images g) \<Longrightarrow>
    (\<And>k. snd k \<noteq> lot \<or> lg_uploads g k \<noteq> None \<Longrightarrow> uploads k = lg_uploads g k) \<Longrightarrow>
    (new_links \<noteq> [] \<or> uploads \<noteq> lg_uploads g \<Longrightarrow> lot \<in> set (lg_lots g)) \<Longrightarrow>
    ledger_step (CallGeneratePresignedUrl (Inr m)) r g (g\<lparr>lg_links := lg_links g @ new_links, lg_uploads := uploads\<rparr>)"

definition ledger_of :: "db \<Rightarrow> ledger" where
  "ledger_of d = \<lparr>lg_lots = map lot_ID (lots d),
     lg_images = ib_ImageBlobID ` {b \<in> set (image_blobs d). ib_IsUploadCompleted b},
     lg_links = map (\<lambda>l. (li_LotID l, li_ImageBlobID l)) (lot_images d),
     lg_uploads = (\<lambda>k. map_option (\<lambda>a. (at_StorageKey a, at_UploadID a)) (find_pending k (attempts d)))\<rparr>"

lemma ledger_of_tables: "same_tables d d' \<Longrightarrow> ledger_of d' = ledger_of d"
  by (simp add: ledger_of_def same_tables_def)

section \<open>The transaction of an announcement\<close>

text \<open>What the transaction of one lot may do to the tables: more links of that lot, to images that are there, and more attempts of it.\<close>

definition extends_lot :: "uuid \<Rightarrow> db \<Rightarrow> db \<Rightarrow> bool" where
  "extends_lot lot d d' \<longleftrightarrow> lots d' = lots d \<and> image_blobs d' = image_blobs d \<and>
     (\<exists>imgs. lot_images d' = lot_images d @ imgs \<and> (\<forall>l \<in> set imgs. li_LotID l = lot \<and>
        (\<exists>b \<in> set (image_blobs d). ib_ImageBlobID b = li_ImageBlobID l \<and> ib_IsUploadCompleted b))) \<and>
     (\<forall>k. snd k \<noteq> lot \<longrightarrow> find_pending k (attempts d') = find_pending k (attempts d))"

lemma extends_lot_tables: "same_tables d d' \<Longrightarrow> extends_lot lot d d'"
  by (simp add: extends_lot_def same_tables_def)

lemma extends_lot_trans:
  assumes "extends_lot lot d0 d1" and "extends_lot lot d1 d2"
  shows "extends_lot lot d0 d2"
proof -
  from assms(1) obtain i1 where i1: "lot_images d1 = lot_images d0 @ i1" "\<forall>l \<in> set i1. li_LotID l = lot \<and>
      (\<exists>b \<in> set (image_blobs d0). ib_ImageBlobID b = li_ImageBlobID l \<and> ib_IsUploadCompleted b)" by (auto simp: extends_lot_def)
  from assms(2) obtain i2 where i2: "lot_images d2 = lot_images d1 @ i2" "\<forall>l \<in> set i2. li_LotID l = lot \<and>
      (\<exists>b \<in> set (image_blobs d1). ib_ImageBlobID b = li_ImageBlobID l \<and> ib_IsUploadCompleted b)" by (auto simp: extends_lot_def)
  have same: "image_blobs d1 = image_blobs d0" using assms(1) by (simp add: extends_lot_def)
  have "lot_images d2 = lot_images d0 @ (i1 @ i2)" by (simp add: i1(1) i2(1))
  moreover have "\<forall>l \<in> set (i1 @ i2). li_LotID l = lot \<and>
      (\<exists>b \<in> set (image_blobs d0). ib_ImageBlobID b = li_ImageBlobID l \<and> ib_IsUploadCompleted b)"
    using i1(2) i2(2) same by auto
  ultimately have "\<exists>imgs. lot_images d2 = lot_images d0 @ imgs \<and> (\<forall>l \<in> set imgs. li_LotID l = lot \<and>
      (\<exists>b \<in> set (image_blobs d0). ib_ImageBlobID b = li_ImageBlobID l \<and> ib_IsUploadCompleted b))" by blast
  with assms show ?thesis by (simp add: extends_lot_def)
qed

definition announces :: "db \<Rightarrow> uuid \<Rightarrow> db \<Rightarrow> bool" where
  "announces d0 lot d \<longleftrightarrow> grown d0 d \<and> extends_lot lot d0 d"

lemma announces_refl: "db_wf d \<Longrightarrow> announces d lot d"
  by (simp add: announces_def grown_refl extends_lot_tables)

lemma keeps_announces:
  assumes "\<And>d0. keeps (grown d0) m" and "\<And>d. db_wf d \<Longrightarrow> extends_lot lot d (snd (m d))"
  shows "keeps (announces d0 lot) m"
  using assms extends_lot_trans unfolding keeps_def announces_def grown_def by blast

context upsert
begin

lemma upsert_statement_one_lot:
  assumes "db_wf d" and "\<And>x. snd (key x) = lot"
  shows "extends_lot lot d (snd (upsert_statement propose on_conflict ret xs d))"
proof -
  have awf: "attempts_wf (attempts d) (attempt_seq d)" using assms(1) by (simp add: db_wf_def)
  obtain r d' where run: "upsert_statement propose on_conflict ret xs d = (r, d')" by fastforce
  have "find_pending k (attempts d') = find_pending k (attempts d)" if k: "snd k \<noteq> lot" for k
  proof (cases r)
    case (Ret rs)
    have "k \<notin> key ` set xs" using k assms(2) by auto
    with awf run show ?thesis unfolding Ret by (rule upsert_statement_other_keys)
  next
    case (Fail e)
    from upsert_statement_failed_frame [OF run [unfolded Fail]] show ?thesis by simp
  next
    case (Panic p)
    with run upsert_statement_no_panic show ?thesis by blast
  qed
  with run upsert_statement_frame [OF run] show ?thesis by (simp add: extends_lot_def same_other_tables_def)
qed

end

lemma identical_one_lot: "extends_lot (ip_LotID ip) d (snd (sql_InsertIdenticalImageBlobsToLotImages ip d))"
proof -
  obtain res seq where ins: "insert_identical d (ip_LotID ip) (identical_inputs ip) (lot_image_seq d) = (res, seq)" by fastforce
  show ?thesis
  proof (cases res)
    case (Inr rs)
    have "\<forall>l \<in> set (map fst rs). li_LotID l = ip_LotID ip \<and>
        (\<exists>b \<in> set (image_blobs d). ib_ImageBlobID b = li_ImageBlobID l \<and> ib_IsUploadCompleted b)"
      using insert_identical_rows [OF ins [unfolded Inr]] insert_identical_completed [OF ins [unfolded Inr]] by fastforce
    with ins Inr show ?thesis by (auto simp: sql_InsertIdenticalImageBlobsToLotImages_def Let_def extends_lot_def)
  qed (use ins in \<open>simp add: sql_InsertIdenticalImageBlobsToLotImages_def extends_lot_def\<close>)
qed

lemma single_one_lot: "db_wf d \<Longrightarrow> extends_lot (sp_LotID p) d (snd (sql_InsertSinglePartUpload env p d))"
  unfolding sql_InsertSinglePartUpload_def by (rule single_upsert.upsert_statement_one_lot) (simp_all add: single_key_def case_prod_beta)

lemma multi_one_lot: "db_wf d \<Longrightarrow> extends_lot (mp_LotID p) d (snd (sql_InsertAndValidateMultiPartUpload env p d))"
  unfolding sql_InsertAndValidateMultiPartUpload_def
  by (rule multi_upsert.upsert_statement_one_lot) (simp_all add: multi_key_def case_prod_beta)

interpretation announcing: statement_invariant "announces d0 lot" lot for d0 lot
proof unfold_locales
  show "keeps (announces d0 lot) (InsertIdenticalImageBlobsToLotImages fault ip)" if "ip_LotID ip = lot" for d0 lot ip fault
    unfolding query_defs using that identical_one_lot [of ip] by (intro keeps_run_query keeps_announces identical_grown) simp
  show "keeps (announces d0 lot) (InsertSinglePartUpload fault env (single_params lot s))" for d0 lot fault env s
    unfolding query_defs using single_one_lot [of _ "single_params lot s"]
    by (intro keeps_run_query keeps_announces single_grown) (simp add: single_params_def)
  show "keeps (announces d0 lot) (InsertAndValidateMultiPartUpload fault env (multi_params lot m))" for d0 lot fault env m
    unfolding query_defs using multi_one_lot [of _ "multi_params lot m"]
    by (intro keeps_run_query keeps_announces multi_grown) (simp add: multi_params_def)
qed

section \<open>The requests\<close>

text \<open>A request for upload URLs announces images to the lot that it names, if it does anything; an answered one always names one.\<close>

lemma in_tx_announces:
  assumes "db_wf (w_db w)" and "in_tx env b c (upload_body env st lot fs) w = (r, w')"
  shows "announces (w_db w) lot (w_db w') \<or> same_tables (w_db w) (w_db w') \<and> (\<forall>a. r \<noteq> Ret a)"
proof -
  obtain x v where run: "upload_body env st lot fs w = (x, v)" by fastforce
  from announcing.upload_body_kept have "announces (w_db w) lot (w_db v)"
    using announces_refl [OF assms(1)] run by (rule keepsD)
  with assms(2) run show ?thesis
    by (auto simp: in_tx_def split: option.splits outcome.splits commit_outcome.splits)
qed

lemma initiateUpload_announces:
  assumes "db_wf (w_db w)" and "initiateUpload env store fs lotId w = (r, w')"
  shows "(\<exists>lot. uuid_Parse lotId = Inr lot \<and> announces (w_db w) lot (w_db w')) \<or>
    same_tables (w_db w) (w_db w') \<and> (\<forall>a. r \<noteq> Ret a)"
proof (cases "uuid_Parse lotId")
  case (Inl e)
  with assms(2) show ?thesis by (auto simp: initiateUpload_def Let_def case_prod_beta)
next
  case (Inr lot)
  show ?thesis
  proof (cases store)
    case None
    with assms(2) Inr show ?thesis by (auto simp: initiateUpload_def Let_def case_prod_beta bindp_def)
  next
    case (Some st)
    let ?files = "fst (intentBatchUpload fs)"
    obtain x v where tx: "in_tx env begin_failure commit_failure (upload_body env (is_s3Storage st) lot ?files) w = (x, v)" by fastforce
    have "w' = v" and "(\<exists>a. r = Ret a) \<Longrightarrow> \<exists>a. x = Ret a"
      using assms(2) Inr Some tx
      by (auto simp: initiateUpload_def Let_def case_prod_beta bindp_def split: prod.splits outcome.splits)
    with in_tx_announces [OF assms(1) tx] Inr show ?thesis by blast
  qed
qed

lemma GeneratePresignedUrl_announces:
  assumes "db_wf (w_db w)" and "GeneratePresignedUrl env store m w = (r, w')"
  shows "(\<exists>t lot. gq_LotId m = Some t \<and> uuid_Parse t = Inr lot \<and> announces (w_db w) lot (w_db w')) \<or>
    same_tables (w_db w) (w_db w') \<and> (\<forall>a. r \<noteq> Ret a)"
proof (cases "\<exists>fs t. convertToUploadFiles (gq_LotImages m) = Ret fs \<and> gq_LotId m = Some t")
  case False
  then show ?thesis using assms(2)
    by (cases "convertToUploadFiles (gq_LotImages m)"; cases "gq_LotId m") (auto simp: GeneratePresignedUrl_eq bindp_def)
next
  case True
  then obtain fs t where fs: "convertToUploadFiles (gq_LotImages m) = Ret fs" and t: "gq_LotId m = Some t" by blast
  obtain x v where run: "initiateUpload env store fs t w = (x, v)" by fastforce
  have reply: "w_db w' = w_db v" if "upload_reply a v = (r, w')" for a
    using keepsD [OF keeps_upload_reply [of "\<lambda>u. w_db u = w_db v"] refl that] .
  have "w_db w' = w_db v" and "(\<exists>a. r = Ret a) \<Longrightarrow> \<exists>a. x = Ret a"
    using assms(2) fs t run by (auto simp: GeneratePresignedUrl_eq bindp_def intro: reply split: prod.splits outcome.splits)
  with initiateUpload_announces [OF assms(1) run] t show ?thesis by auto
qed

text \<open>A lot that is answered is at the end of the table, under a new id, which is the one of the answer.\<close>

definition adds_lot :: "db \<Rightarrow> CreateLotResponse \<Rightarrow> db \<Rightarrow> bool" where
  "adds_lot d resp d' \<longleftrightarrow> (\<exists>lot. lot_ID lot \<notin> lot_ids d \<and> ks_LotId resp = Some (uuid_String (lot_ID lot)) \<and> lots d' = lots d @ [lot] \<and>
     image_blobs d' = image_blobs d \<and> lot_images d' = lot_images d \<and> attempts d' = attempts d)"

lemma sql_CreateLot_Ret:
  "sql_CreateLot env p d = (Ret i, d') \<Longrightarrow> \<exists>lot. lot_ID lot = i \<and> i \<notin> lot_ids d \<and> lots d' = lots d @ [lot] \<and>
     image_blobs d' = image_blobs d \<and> lot_images d' = lot_images d \<and> attempts d' = attempts d"
  by (auto simp: sql_CreateLot_def Let_def lot_ids_def split: sum.splits if_splits)

lemma CreateLot_adds:
  assumes "LotServer_CreateLot env validate req w = (Ret a, w')"
  shows "\<exists>resp. a = Some resp \<and> adds_lot (w_db w) resp (w_db w')"
proof -
  have "\<exists>lot. lot_ID lot = i \<and> i \<notin> lot_ids (w_db w) \<and> lots (w_db v) = lots (w_db w) @ [lot] \<and>
      image_blobs (w_db v) = image_blobs (w_db w) \<and> lot_images (w_db v) = lot_images (w_db w) \<and> attempts (w_db v) = attempts (w_db w)"
    if "on_db (CreateLot (e_faults env) (e_sql env) p) w = (Ret i, v)" for p i v
    using that sql_CreateLot_Ret [of "e_sql env" p "w_db w" i]
    by (cases "e_faults env QCreateLot") (auto simp: on_db_Ret_iff CreateLot_def run_query_def)
  with assms show ?thesis
    by (fastforce simp: LotServer_CreateLot_def bindp_def status_Error_eq adds_lot_def split: option.splits outcome.splits prod.splits)
qed

lemma CompleteMultiPartUpload_same_db:
  "CompleteMultiPartUpload env sort_parts store m w = (r, w') \<Longrightarrow> w_db w' = w_db w"
proof -
  assume run: "CompleteMultiPartUpload env sort_parts store m w = (r, w')"
  have "keeps (\<lambda>v. w_db v = w_db w) (CompleteMultiPartUpload env sort_parts store m)"
    unfolding CompleteMultiPartUpload_def by (intro keeps_intros)
  with run show ?thesis by (auto dest: keepsD)
qed

section \<open>The refinement\<close>

lemma announces_step:
  assumes "announces d lot d'" and "gq_LotId m = Some t" and "uuid_Parse t = Inr lot"
  shows "ledger_step (CallGeneratePresignedUrl (Inr m)) r (ledger_of d) (ledger_of d')"
proof -
  from assms(1) have g: "grown d d'" and e: "extends_lot lot d d'" by (simp_all add: announces_def)
  then have wf: "db_wf d'" by (simp add: grown_def)
  from e obtain imgs where imgs: "lot_images d' = lot_images d @ imgs" "\<forall>l \<in> set imgs. li_LotID l = lot \<and>
      (\<exists>b \<in> set (image_blobs d). ib_ImageBlobID b = li_ImageBlobID l \<and> ib_IsUploadCompleted b)"
    and lots: "lots d' = lots d" and blobs: "image_blobs d' = image_blobs d"
    and others: "\<And>k. snd k \<noteq> lot \<Longrightarrow> find_pending k (attempts d') = find_pending k (attempts d)" by (auto simp: extends_lot_def)
  let ?new = "map (\<lambda>l. (li_LotID l, li_ImageBlobID l)) imgs"
  let ?up = "lg_uploads (ledger_of d')"
  have up: "?up k = map_option (\<lambda>a. (at_StorageKey a, at_UploadID a)) (find_pending k (attempts d'))" for k by (simp add: ledger_of_def)
  have "ledger_of d' = ledger_of d\<lparr>lg_links := lg_links (ledger_of d) @ ?new, lg_uploads := ?up\<rparr>"
    by (simp add: ledger_of_def imgs(1) lots blobs)
  moreover have "ledger_step (CallGeneratePresignedUrl (Inr m)) r (ledger_of d) \<dots>"
    using assms(2,3)
  proof (rule ledger_step.announced)
    show "fst l = lot \<and> snd l \<in> lg_images (ledger_of d)" if "l \<in> set ?new" for l
    proof -
      from that obtain i where i: "i \<in> set imgs" "l = (li_LotID i, li_ImageBlobID i)" by auto
      with imgs(2) obtain b where "li_LotID i = lot" and "b \<in> set (image_blobs d)" "ib_ImageBlobID b = li_ImageBlobID i" "ib_IsUploadCompleted b"
        by blast
      with i(2) show ?thesis by (auto simp: ledger_of_def image_iff intro!: bexI [of _ b])
    qed
    show "?up k = lg_uploads (ledger_of d) k" if k: "snd k \<noteq> lot \<or> lg_uploads (ledger_of d) k \<noteq> None" for k
    proof (cases "find_pending k (attempts d)")
      case None
      with k others [of k] show ?thesis unfolding up by (auto simp: ledger_of_def)
    next
      case (Some a)
      with grown_pending [OF g Some] show ?thesis unfolding up by (auto simp: ledger_of_def same_identity_def)
    qed
    show "lot \<in> set (lg_lots (ledger_of d))" if "?new \<noteq> [] \<or> ?up \<noteq> lg_uploads (ledger_of d)"
    proof -
      have "lot \<in> lot_ids d'"
      proof (cases imgs)
        case (Cons l ls)
        with imgs wf show ?thesis by (auto simp: db_wf_def)
      next
        case Nil
        with that have "?up \<noteq> lg_uploads (ledger_of d)" by simp
        then obtain k where k: "?up k \<noteq> lg_uploads (ledger_of d) k" by (metis ext)
        then have "snd k = lot" using others [of k] by (cases "snd k = lot") (simp_all add: ledger_of_def)
        moreover from k obtain a where "find_pending k (attempts d') = Some a"
          using grown_pending [OF g, of k]
          by (cases "find_pending k (attempts d')"; cases "find_pending k (attempts d)") (auto simp: ledger_of_def)
        ultimately show ?thesis using wf find_pending_SomeD [of k "attempts d'" a] by (auto simp: db_wf_def pending_key_def)
      qed
      then show ?thesis by (simp add: ledger_of_def lot_ids_def lots)
    qed
  qed
  ultimately show ?thesis by simp
qed

lemma adds_lot_step:
  assumes "adds_lot d resp d'"
  shows "ledger_step (CallCreateLot dec) (Ret (Some (RespCreateLot resp))) (ledger_of d) (ledger_of d')"
proof -
  from assms obtain lot where "lot_ID lot \<notin> lot_ids d" and resp: "ks_LotId resp = Some (uuid_String (lot_ID lot))"
    and "lots d' = lots d @ [lot]" "image_blobs d' = image_blobs d" "lot_images d' = lot_images d" "attempts d' = attempts d"
    unfolding adds_lot_def by blast
  then have "lot_ID lot \<notin> set (lg_lots (ledger_of d))"
    and "ledger_of d' = ledger_of d\<lparr>lg_lots := lg_lots (ledger_of d) @ [lot_ID lot]\<rparr>" by (simp_all add: ledger_of_def lot_ids_def)
  with ledger_step.created [OF _ resp] show ?thesis by simp
qed

lemma decoded_Inr:
  "decoded call = Inr m \<Longrightarrow> call = (case m of MsgCreateLot q \<Rightarrow> CallCreateLot (Inr q)
     | MsgGeneratePresignedUrl q \<Rightarrow> CallGeneratePresignedUrl (Inr q)
     | MsgCompleteMultiPartUpload q \<Rightarrow> CallCompleteMultiPartUpload (Inr q))"
proof -
  assume m: "decoded call = Inr m"
  show ?thesis
  proof (cases call)
    case (CallCreateLot dec)
    with m show ?thesis by (cases dec) auto
  next
    case (CallGeneratePresignedUrl dec)
    with m show ?thesis by (cases dec) auto
  next
    case (CallCompleteMultiPartUpload dec)
    with m show ?thesis by (cases dec) auto
  qed
qed

lemma rpc_method_ledger:
  assumes "db_wf (w_db w)" and "decoded call = Inr m" and "rpc_method env sv m w = (r, w')"
  shows "ledger_step call r (ledger_of (w_db w)) (ledger_of (w_db w'))"
proof (cases m)
  case (MsgCreateLot q)
  then have call: "call = CallCreateLot (Inr q)" using decoded_Inr [OF assms(2)] by simp
  obtain x v where run: "LotServer_CreateLot env (sv_validate sv) q w = (x, v)" by fastforce
  show ?thesis
  proof (cases x)
    case (Ret a)
    with CreateLot_adds run obtain resp where a: "a = Some resp" and adds: "adds_lot (w_db w) resp (w_db v)" by blast
    have "w' = v" and "r = Ret (Some (RespCreateLot resp))" using assms(3) MsgCreateLot run Ret a by (simp_all add: as_response_simps)
    then show ?thesis unfolding call using adds_lot_step [OF adds] by simp
  next
    case (Fail e)
    with assms(3) MsgCreateLot run have "w' = v" and "r = Fail e" by (simp_all add: as_response_simps)
    moreover have "same_tables (w_db w) (w_db v)" using CreateLot_failed [OF run] Fail by simp
    ultimately show ?thesis using ledger_of_tables ledger_step.refused [of r] by simp
  next
    case (Panic p)
    with assms(3) MsgCreateLot run have "w' = v" and "r = Panic p" by (simp_all add: as_response_simps)
    moreover have "same_tables (w_db w) (w_db v)" using CreateLot_failed [OF run] Panic by simp
    ultimately show ?thesis using ledger_of_tables ledger_step.refused [of r] by simp
  qed
next
  case (MsgGeneratePresignedUrl q)
  then have call: "call = CallGeneratePresignedUrl (Inr q)" using decoded_Inr [OF assms(2)] by simp
  obtain x v where run: "GeneratePresignedUrl env (sv_imageStore sv) q w = (x, v)" by fastforce
  then have v: "w' = v" and x: "(\<exists>a. r = Ret a) \<Longrightarrow> \<exists>a. x = Ret a"
    using assms(3) MsgGeneratePresignedUrl by (auto simp: as_response_def bindp_def split: outcome.splits)
  from GeneratePresignedUrl_announces [OF assms(1) run] show ?thesis
  proof (elim disjE exE conjE)
    fix t lot
    assume "gq_LotId q = Some t" and "uuid_Parse t = Inr lot" and "announces (w_db w) lot (w_db v)"
    then show ?thesis unfolding call v by (intro announces_step)
  next
    assume same: "same_tables (w_db w) (w_db v)" and no: "\<forall>a. x \<noteq> Ret a"
    have "\<And>a. r \<noteq> Ret a" using x no by auto
    then show ?thesis unfolding v ledger_of_tables [OF same] by (rule ledger_step.refused)
  qed
next
  case (MsgCompleteMultiPartUpload q)
  then have "call = CallCompleteMultiPartUpload (Inr q)" using decoded_Inr [OF assms(2)] by simp
  moreover have "w_db w' = w_db w"
  proof -
    obtain x v where run: "CompleteMultiPartUpload env (sv_sort sv) (sv_imageStore sv) q w = (x, v)" by fastforce
    have "w' = v" using as_response_world [of RespCompleteMultiPartUpload "CompleteMultiPartUpload env (sv_sort sv) (sv_imageStore sv) q" w]
      assms(3) MsgCompleteMultiPartUpload run by simp
    with CompleteMultiPartUpload_same_db [OF run] show ?thesis by simp
  qed
  ultimately show ?thesis by (simp add: ledger_step.completed)
qed

text \<open>The interceptor renames the failures of a request, and only them.\<close>

lemma ledger_step_outcome:
  assumes "ledger_step call r g g'" and same: "\<And>a. r = Ret a \<longleftrightarrow> r' = Ret a"
  shows "ledger_step call r' g g'"
  using assms(1)
proof (cases rule: ledger_step.cases)
  case refused
  then show ?thesis using same by (auto intro!: ledger_step.refused)
next
  case (completed dec)
  then show ?thesis by (simp add: ledger_step.completed)
next
  case (created i resp dec)
  then have "r' = Ret (Some (RespCreateLot resp))" using same by blast
  with created show ?thesis by (simp add: ledger_step.created)
next
  case (announced m t lot new_links uploads)
  show ?thesis unfolding announced(1,2) by (rule ledger_step.announced [OF announced(3-7)])
qed

lemma serve_ledger:
  assumes "db_wf (w_db w)" and "serve env sv call w = (r, w')"
  shows "ledger_step call r (ledger_of (w_db w)) (ledger_of (w_db w'))"
proof (cases "\<exists>m. decoded call = Inr m \<and> serve env sv call w = map_failure (toGRPCError (sv_any_new sv)) (rpc_method env sv m) w")
  case True
  then obtain m where m: "decoded call = Inr m" and run: "map_failure (toGRPCError (sv_any_new sv)) (rpc_method env sv m) w = (r, w')"
    using assms(2) by auto
  obtain x v where x: "rpc_method env sv m w = (x, v)" by fastforce
  have v: "w' = v" using grpc_sink.map_failure_world [of "sv_any_new sv" "rpc_method env sv m" w] run x by simp
  have "x = Ret a \<longleftrightarrow> r = Ret a" for a
    using grpc_sink.map_failure_Ret_iff [of "sv_any_new sv" "rpc_method env sv m" w a v] run x v by simp
  with v show ?thesis using ledger_step_outcome [OF rpc_method_ledger [OF assms(1) m x], of r] by simp
next
  case False
  then have "w' = w \<and> (\<forall>a. r \<noteq> Ret a)"
    using assms(2) by (auto simp: serve_eq split: sum.splits option.splits validation.splits)
  then show ?thesis by (auto intro: ledger_step.refused)
qed

section \<open>Runs\<close>

text \<open>A run of the process with its calls and their outcomes, and a run of the ledger with the same ones.\<close>

type_synonym exchange = "rpc_call \<times> (err, rpc_response option) outcome"

definition next_state :: "('e, 'a) outcome \<Rightarrow> 's world \<Rightarrow> 's process_state" where
  "next_state r w = (case r of Panic p \<Rightarrow> Down w | _ \<Rightarrow> Up w)"

lemma world_of_next [simp]: "world_of (next_state r w) = w"
  by (simp add: next_state_def split: outcome.splits)

inductive server_trace :: "server \<Rightarrow> exchange list \<Rightarrow> 's process_state \<Rightarrow> 's process_state \<Rightarrow> bool" for sv where
  server_done: "server_trace sv [] s s"
| server_call: "serve env sv call w = (r, w') \<Longrightarrow> server_trace sv tr (next_state r w') s \<Longrightarrow> server_trace sv ((call, r) # tr) (Up w) s"

inductive ledger_trace :: "exchange list \<Rightarrow> ledger \<Rightarrow> ledger \<Rightarrow> bool" where
  ledger_done: "ledger_trace [] g g"
| ledger_call: "ledger_step call r g g' \<Longrightarrow> ledger_trace tr g' g'' \<Longrightarrow> ledger_trace ((call, r) # tr) g g''"

lemma server_trace_run: "server_trace sv tr s s' \<Longrightarrow> server_run sv s s'"
proof (induction rule: server_trace.induct)
  case (server_call env call w r w' tr s)
  have "server_step sv (Up w) (next_state r w')"
    using server_call(1) by (cases r) (auto simp: next_state_def intro: server_step.intros)
  with server_call.IH show ?case by (rule converse_rtranclp_into_rtranclp [rotated])
qed simp

lemma server_step_exchange:
  assumes "server_step sv s t"
  shows "\<exists>env call w r w'. serve env sv call w = (r, w') \<and> s = Up w \<and> t = next_state r w'"
  using assms
proof (cases rule: server_step.cases)
  case (answered env call w r w')
  then have "t = next_state r w'" by (cases r) (auto simp: next_state_def)
  with answered(1,3) show ?thesis by blast
next
  case (crashed env call w p w')
  then have "t = next_state (Panic p) w'" by (simp add: next_state_def)
  with crashed(1,3) show ?thesis by blast
qed

text \<open>The runs with exchanges are the runs of the server.\<close>

lemma server_run_trace: "server_run sv s s' \<longleftrightarrow> (\<exists>tr. server_trace sv tr s s')"
proof
  show "server_run sv s s' \<Longrightarrow> \<exists>tr. server_trace sv tr s s'"
  proof (induction rule: converse_rtranclp_induct)
    case base
    show ?case using server_done by blast
  next
    case (step s t)
    then obtain tr env call w r w' where "server_trace sv tr t s'" and "serve env sv call w = (r, w')" and "s = Up w" "t = next_state r w'"
      using server_step_exchange by blast
    then have "server_trace sv ((call, r) # tr) s s'" by (simp add: server_call)
    then show ?case by blast
  qed
qed (blast intro: server_trace_run)

lemma server_trace_ledger:
  "server_trace sv tr s s' \<Longrightarrow> db_wf (w_db (world_of s)) \<Longrightarrow>
    ledger_trace tr (ledger_of (w_db (world_of s))) (ledger_of (w_db (world_of s')))"
proof (induction rule: server_trace.induct)
  case (server_call env call w r w' tr s)
  then have wf: "db_wf (w_db w)" by simp
  have "db_wf (w_db w')" using serve_grown [OF wf, of env sv call] server_call(1) by (simp add: grown_def)
  with server_call.IH serve_ledger [OF wf server_call(1)] show ?case by (auto intro: ledger_call)
qed (simp add: ledger_done)

text \<open>Lots do not see each other: only a request that names a lot changes what the ledger knows of it.\<close>

fun names_lot :: "uuid \<Rightarrow> rpc_call \<Rightarrow> bool" where
  "names_lot lot (CallGeneratePresignedUrl (Inr m)) = (case gq_LotId m of None \<Rightarrow> False | Some t \<Rightarrow> uuid_Parse t = Inr lot)"
| "names_lot lot _ = False"

definition links_of :: "uuid \<Rightarrow> ledger \<Rightarrow> int list" where
  "links_of lot g = map snd (filter (\<lambda>l. fst l = lot) (lg_links g))"

definition uploads_of :: "uuid \<Rightarrow> ledger \<Rightarrow> bytes \<rightharpoonup> uuid \<times> string option" where
  "uploads_of lot g = (\<lambda>sha. lg_uploads g (sha, lot))"

lemma links_of_ledger: "links_of lot (ledger_of d) = map li_ImageBlobID (filter (\<lambda>l. li_LotID l = lot) (lot_images d))"
  by (simp add: links_of_def ledger_of_def filter_map o_def)

lemma uploads_of_ledger:
  "uploads_of lot (ledger_of d) = uploads_of lot (ledger_of d') \<longleftrightarrow>
    (\<forall>sha. map_option (\<lambda>a. (at_StorageKey a, at_UploadID a)) (find_pending (sha, lot) (attempts d)) =
      map_option (\<lambda>a. (at_StorageKey a, at_UploadID a)) (find_pending (sha, lot) (attempts d')))"
  by (simp add: uploads_of_def ledger_of_def fun_eq_iff)

lemma ledger_step_other_lot:
  assumes "ledger_step call r g g'" and "\<not> names_lot lot call"
  shows "links_of lot g' = links_of lot g \<and> uploads_of lot g' = uploads_of lot g"
  using assms
proof (cases rule: ledger_step.cases)
  case (announced m t lot' new_links uploads)
  with assms(2) have other: "lot' \<noteq> lot" by auto
  with announced(5) have "filter (\<lambda>l. fst l = lot) new_links = []" by (auto simp: filter_empty_conv)
  moreover have "uploads (sha, lot) = lg_uploads g (sha, lot)" for sha using announced(6) [of "(sha, lot)"] other by simp
  ultimately show ?thesis by (simp add: announced(2) links_of_def uploads_of_def)
qed (simp_all add: links_of_def uploads_of_def)

lemma ledger_trace_other_lot:
  "ledger_trace tr g g' \<Longrightarrow> (\<And>call r. (call, r) \<in> set tr \<Longrightarrow> \<not> names_lot lot call) \<Longrightarrow>
    links_of lot g' = links_of lot g \<and> uploads_of lot g' = uploads_of lot g"
proof (induction rule: ledger_trace.induct)
  case (ledger_call call r g g' tr g'')
  have "\<not> names_lot lot call" using ledger_call.prems by (meson list.set_intros(1))
  from ledger_step_other_lot [OF ledger_call(1) this] ledger_call.IH ledger_call.prems show ?case by (metis list.set_intros(2))
qed simp

end
