(* ===== verification/Overlapping_Requests.thy ===== *)
theory Overlapping_Requests
  imports Request_Calls Server_Ledger
begin

text \<open>
  Handlers whose calls overlap: an upload request that ends with an error after its \<open>Begin\<close>, with a request that creates a lot, or
  a second upload request, in between; and an upload request that cannot send its rollback, with whatever comes after it. The steps are
  those of the handlers, not only of the connection.
\<close>

section \<open>The request that creates a lot\<close>

definition create_lot_outcome :: "server \<Rightarrow> (err, uuid) outcome \<Rightarrow> (err, rpc_response option) outcome" where
  "create_lot_outcome sv r = (case r of
      Ret i \<Rightarrow> Ret (Some (RespCreateLot \<lparr>ks_Success = Some True, ks_Message = Some ''Lot Created'', ks_LotId = Some (uuid_String i)\<rparr>))
    | Fail e \<Rightarrow> returned_err (toGRPCError (sv_any_new sv) (Some (Leaf (Status (status_New Internal ''error creating lot'')))))
    | Panic p \<Rightarrow> Panic p)"

lemma serve_proc_create_lot:
  assumes "accepts sv (MsgCreateLot m)" and "sv_validate sv m = None" and "create_lot_params m = Ret p"
  shows "serve_proc env ws sv (CallCreateLot (Inr m)) =
    Step (\<lambda>s. snd (on_conn (conn_exec (wr_query ws QCreateLot) (query_cmd (sql_CreateLot (e_sql env) p))) s))
      (\<lambda>s. Done (create_lot_outcome sv (fst (on_conn (conn_exec (wr_query ws QCreateLot) (query_cmd (sql_CreateLot (e_sql env) p))) s))))"
  using assms
  by (auto simp: serve_proc_def accepts_def LotServer_CreateLot_proc_def as_response_proc_def ErrorResponseInterceptor_proc_def send_def
      atom_def create_lot_outcome_def returned_err_def status_Error_eq fun_eq_iff split: outcome.splits)

text \<open>When it is answered with a lot, its statement has succeeded.\<close>

lemma serve_create_lot_Ret:
  assumes "serve env sv (CallCreateLot (Inr m)) w = (Ret (Some resp), w')"
  obtains p i d where "accepts sv (MsgCreateLot m)" and "sv_validate sv m = None" and "create_lot_params m = Ret p"
    and "e_faults env QCreateLot = None" and "sql_CreateLot (e_sql env) p (w_db w) = (Ret i, d)" and "create_lot_outcome sv (Ret i) = Ret (Some resp)" and "w' = w\<lparr>w_db := d\<rparr>"
proof -
  have acc: "accepts sv (MsgCreateLot m)"
    using assms by (auto simp: serve_eq accepts_def simp del: serve.simps split: option.splits validation.splits)
  have "serve env sv (CallCreateLot (Inr m)) w = map_failure (toGRPCError (sv_any_new sv)) (rpc_method env sv (MsgCreateLot m)) w"
    by (rule serve_accepted [OF _ acc]) simp
  with assms have run: "as_response RespCreateLot (LotServer_CreateLot env (sv_validate sv) m) w = (Ret (Some resp), w')"
    by (simp add: grpc_sink.map_failure_Ret_iff del: serve.simps)
  then obtain q where q: "LotServer_CreateLot env (sv_validate sv) m w = (Ret (Some q), w')" and resp: "resp = RespCreateLot q"
    by (auto simp: as_response_def bindp_Ret_iff)
  have none: "sv_validate sv m = None"
    using q by (cases "sv_validate sv m") (simp_all add: LotServer_CreateLot_def status_Error_eq)
  obtain p where p: "create_lot_params m = Ret p"
    using q none by (cases "create_lot_params m") (simp_all add: LotServer_CreateLot_def)
  obtain r v where r: "on_db (CreateLot (e_faults env) (e_sql env) p) w = (r, v)" by fastforce
  with q none p obtain i where i: "r = Ret i" "v = w'" "q = \<lparr>ks_Success = Some True, ks_Message = Some ''Lot Created'', ks_LotId = Some (uuid_String i)\<rparr>"
    by (cases r) (auto simp: LotServer_CreateLot_def status_Error_eq)
  with r obtain d where "e_faults env QCreateLot = None" and "sql_CreateLot (e_sql env) p (w_db w) = (Ret i, d)" and "w' = w\<lparr>w_db := d\<rparr>"
    by (cases "e_faults env QCreateLot") (auto simp: on_db_Ret_iff CreateLot_def run_query_def)
  with acc none p i(3) resp that show thesis by (simp add: create_lot_outcome_def)
qed

section \<open>The upload request that is broken off\<close>

definition broken_off :: "wires \<Rightarrow> err \<Rightarrow> bool" where
  "broken_off ws e \<longleftrightarrow> wr_begin ws = Sent \<and> wr_query ws QInsertIdentical = NotSent e"

text \<open>It begins its transaction, does not get its first statement through, rolls back and ends with an error.\<close>

definition breaks_off :: "wires \<Rightarrow> ('s, 'a) handler_proc \<Rightarrow> bool" where
  "breaks_off ws p \<longleftrightarrow> (\<exists>k h x. p = Step (\<lambda>s. snd (on_conn (conn_Begin Sent) s)) k \<and>
     (\<forall>s. fst (on_conn (conn_Begin Sent) s) = Ret () \<longrightarrow> k s = Step (\<lambda>s. s) h) \<and>
     (\<forall>s. h s = Step (\<lambda>s. snd (on_conn (tx_Rollback False (wr_rollback ws)) s)) (\<lambda>_. Done (Fail (x s)))))"

lemma breaks_offI:
  assumes "p = Step (\<lambda>s. snd (on_conn (conn_Begin Sent) s)) k"
    and "\<And>s. fst (on_conn (conn_Begin Sent) s) = Ret () \<Longrightarrow> k s = Step (\<lambda>s. s)
      (\<lambda>s. Step (\<lambda>s. snd (on_conn (tx_Rollback False (wr_rollback ws)) s)) (\<lambda>_. Done (Fail (x s))))"
  shows "breaks_off ws p"
  unfolding breaks_off_def by (intro exI conjI, rule assms(1)) (use assms(2) in auto)

lemma breaks_offE:
  assumes "breaks_off ws p"
  obtains k x where "p = Step (\<lambda>s. snd (on_conn (conn_Begin Sent) s)) k"
    and "\<And>s. fst (on_conn (conn_Begin Sent) s) = Ret () \<Longrightarrow> k s = Step (\<lambda>s. s)
      (\<lambda>s. Step (\<lambda>s. snd (on_conn (tx_Rollback False (wr_rollback ws)) s)) (\<lambda>_. Done (Fail (x s))))"
proof -
  from assms obtain k h x where p: "p = Step (\<lambda>s. snd (on_conn (conn_Begin Sent) s)) k"
    and k: "\<And>s. fst (on_conn (conn_Begin Sent) s) = Ret () \<Longrightarrow> k s = Step (\<lambda>s. s) h"
    and h: "\<And>s. h s = Step (\<lambda>s. snd (on_conn (tx_Rollback False (wr_rollback ws)) s)) (\<lambda>_. Done (Fail (x s)))"
    unfolding breaks_off_def by blast
  from h have "h = (\<lambda>s. Step (\<lambda>s. snd (on_conn (tx_Rollback False (wr_rollback ws)) s)) (\<lambda>_. Done (Fail (x s))))" by (rule ext)
  with that p k show thesis by blast
qed

lemma breaks_off_not_panicked: "breaks_off ws p \<Longrightarrow> \<not> panicked p"
  by (auto simp: breaks_off_def)

lemma breaks_off_pthen:
  assumes "breaks_off ws p" and "\<And>e. f (Fail e) = Done (Fail (g e))"
  shows "breaks_off ws (pthen p f)"
  using assms(1) by (rule breaks_offE) (auto intro!: breaks_offI simp: assms(2))

lemma breaks_off_pbind: "breaks_off ws p \<Longrightarrow> breaks_off ws (pbind p f)"
  unfolding pbind_pthen by (erule breaks_off_pthen) simp

lemma on_conn_not_sent:
  "on_conn (conn_exec (NotSent e) cmd) s = (Fail (if pc_closed (sh_conn s) then conn_closed else e), s)"
  by (simp add: on_conn_def conn_exec_def)

lemma upload_tx_breaks_off:
  assumes "broken_off ws e"
  shows "breaks_off ws (upload_tx_proc env ws st lot fs)"
proof -
  from assms have ws: "wr_begin ws = Sent" "wr_query ws QInsertIdentical = NotSent e" by (simp_all add: broken_off_def)
  show ?thesis
    unfolding upload_tx_proc_def pbind_pthen perror_def pthen_assoc send_def pthen_atom pthen.simps ws
    by (rule breaks_offI [OF refl])
      (simp add: upload_body_proc_def skipUploadForIdenticalImageBlobs_proc_def Let_def perror_def ws on_conn_not_sent end_tx_proc_def
        send_def pthen_atom)
qed

text \<open>A request that would be answered has everything that the handler looks at before the transaction.\<close>

lemma serve_upload_answered:
  assumes "serve env sv (CallGeneratePresignedUrl (Inr m)) w = (Ret (Some resp), w')"
  obtains files lotId lot store where "accepts sv (MsgGeneratePresignedUrl m)" and "convertToUploadFiles (gq_LotImages m) = Ret files"
    and "gq_LotId m = Some lotId" and "uuid_Parse lotId = Inr lot" and "sv_imageStore sv = Some store"
proof -
  have acc: "accepts sv (MsgGeneratePresignedUrl m)"
    using assms by (auto simp: serve_eq accepts_def simp del: serve.simps split: option.splits validation.splits)
  have "serve env sv (CallGeneratePresignedUrl (Inr m)) w = map_failure (toGRPCError (sv_any_new sv)) (rpc_method env sv (MsgGeneratePresignedUrl m)) w"
    by (rule serve_accepted [OF _ acc]) simp
  with assms have "as_response RespGeneratePresignedUrl (GeneratePresignedUrl env (sv_imageStore sv) m) w = (Ret (Some resp), w')"
    by (simp add: grpc_sink.map_failure_Ret_iff del: serve.simps)
  then obtain q where q: "GeneratePresignedUrl env (sv_imageStore sv) m w = (Ret q, w')"
    by (auto simp: as_response_def bindp_Ret_iff)
  then obtain files lotId where f: "convertToUploadFiles (gq_LotImages m) = Ret files" "gq_LotId m = Some lotId"
    by (cases "convertToUploadFiles (gq_LotImages m)"; cases "gq_LotId m") (auto simp: GeneratePresignedUrl_def bindp_def)
  with q obtain res v where i: "initiateUpload env (sv_imageStore sv) files lotId w = (Ret res, v)"
    by (auto simp: GeneratePresignedUrl_def bindp_Ret_iff)
  then obtain lot store where "uuid_Parse lotId = Inr lot" "sv_imageStore sv = Some store"
    by (cases "uuid_Parse lotId"; cases "sv_imageStore sv") (auto simp: initiateUpload_def Let_def case_prod_beta bindp_Ret_iff)
  with that acc f show thesis by blast
qed

lemma serve_breaks_off:
  assumes "broken_off ws e" and "serve env sv (CallGeneratePresignedUrl (Inr m)) w = (Ret (Some resp), w')"
  shows "breaks_off ws (serve_proc env' ws sv (CallGeneratePresignedUrl (Inr m)))"
  using assms(2)
proof (rule serve_upload_answered)
  fix files lotId lot store
  assume m: "accepts sv (MsgGeneratePresignedUrl m)" "convertToUploadFiles (gq_LotImages m) = Ret files" "gq_LotId m = Some lotId"
    "uuid_Parse lotId = Inr lot" "sv_imageStore sv = Some store"
  have "breaks_off ws (initiateUpload_proc env' ws (Some store) files lotId)"
    using m(4) by (simp add: initiateUpload_proc_def Let_def case_prod_beta upload_tx_breaks_off [OF assms(1)] breaks_off_pbind)
  then have run: "breaks_off ws (rpc_method_proc env' ws sv (MsgGeneratePresignedUrl m))"
    using m(2,3,5) by (simp add: as_response_proc_def GeneratePresignedUrl_proc_def breaks_off_pbind)
  have "\<exists>g. \<forall>e. toGRPCError (sv_any_new sv) (Some e) = Some (g e)" by (metis toGRPCError_Some)
  then obtain g where "\<And>e. toGRPCError (sv_any_new sv) (Some e) = Some (g e)" by blast
  then have "breaks_off ws (ErrorResponseInterceptor_proc (sv_any_new sv) (rpc_method_proc env' ws sv (MsgGeneratePresignedUrl m)))"
    unfolding ErrorResponseInterceptor_proc_def by (intro breaks_off_pthen [OF run, where g = g]) (simp add: returned_err_def)
  with m(1) show ?thesis by (auto simp: serve_proc_def accepts_def)
qed

section \<open>The lot is lost\<close>

lemma created_lot_run:
  assumes broken: "broken_off ws e"
    and upload: "serve env sv (CallGeneratePresignedUrl (Inr m)) w = (Ret (Some resp), w1)"
    and create: "serve env2 sv (CallCreateLot (Inr m2)) w = (Ret (Some resp2), w2)"
  shows "\<exists>x s. schedule [0, 1, 0, 0] ([serve_proc env ws sv (CallGeneratePresignedUrl (Inr m)),
        serve_proc env2 (wires_of env2 wr) sv (CallCreateLot (Inr m2))], idle_shared w) =
      ([Done (Fail x), Done (Ret (Some resp2))], s) \<and>
    same_tables (w_db w) (pc_committed (sh_conn s)) \<and> (pc_status (sh_conn s) = TxIdle)"
  using create
proof (rule serve_create_lot_Ret)
  fix p i d
  assume c: "accepts sv (MsgCreateLot m2)" "sv_validate sv m2 = None" "create_lot_params m2 = Ret p"
    "e_faults env2 QCreateLot = None" "sql_CreateLot (e_sql env2) p (w_db w) = (Ret i, d)" "create_lot_outcome sv (Ret i) = Ret (Some resp2)" "w2 = w\<lparr>w_db := d\<rparr>"
  let ?ws2 = "wires_of env2 wr"
  have fault: "wr_query ?ws2 QCreateLot = Sent" using c(4) by (simp add: wires_of_def fault_wire_def)
  from serve_breaks_off [OF broken upload, of env]
  show ?thesis
  proof (rule breaks_offE)
    fix k x
    assume p: "serve_proc env ws sv (CallGeneratePresignedUrl (Inr m)) = Step (\<lambda>s. snd (on_conn (conn_Begin Sent) s)) k"
      and k: "\<And>s. fst (on_conn (conn_Begin Sent) s) = Ret () \<Longrightarrow> k s = Step (\<lambda>s. s)
        (\<lambda>s. Step (\<lambda>s. snd (on_conn (tx_Rollback False (wr_rollback ws)) s)) (\<lambda>_. Done (Fail (x s))))"
    let ?c = "\<lambda>d. (idle_shared w)\<lparr>sh_conn := \<lparr>pc_committed = w_db w, pc_current = d, pc_status = TxActive, pc_closed = False\<rparr>\<rparr>"
    have begun: "on_conn (conn_Begin Sent) (idle_shared w) = (Ret (), ?c (w_db w))"
      using begin_idle [of None w] by (simp add: fault_wire_def idle_conn_def)
    have created: "on_conn (conn_exec Sent (query_cmd (sql_CreateLot (e_sql env2) p))) (?c (w_db w)) = (Ret i, ?c d)"
      using c(5) by (simp add: on_conn_def conn_exec_def query_cmd_def)
    have undone: "same_tables (w_db w) (pc_committed (sh_conn t)) \<and> pc_status (sh_conn t) = TxIdle"
      if "t = snd (on_conn (tx_Rollback False wr) (?c d))" for t wr
      unfolding that by (cases wr) (simp_all add: on_conn_def tx_Rollback_def conn_exec_def rollback_cmd_def conn_die_def conn_back_def Let_def rolled_back_def same_tables_def)
    show ?thesis
      unfolding p serve_proc_create_lot [OF c(1-3)]
      using undone [OF refl] c(6) by (simp add: k begun fault created eval_nat_numeral)
  qed
qed

text \<open>Alone, the same request adds its lot.\<close>

lemma sql_CreateLot_lots: "sql_CreateLot env p d = (Ret i, d') \<Longrightarrow> \<exists>l. lot_ID l = i \<and> lots d' = lots d @ [l]"
  by (auto simp: sql_CreateLot_def Let_def split: sum.splits if_splits)

lemma serve_create_lot_adds:
  assumes "serve env sv (CallCreateLot (Inr m)) w = (Ret (Some resp), w')"
  shows "\<exists>l. lots (w_db w') = lots (w_db w) @ [l]"
  using assms by (rule serve_create_lot_Ret) (auto dest: sql_CreateLot_lots)

section \<open>The shape of an upload request\<close>

text \<open>
  \<open>Begin\<close>, a part that ends the transaction, and what its outcome is turned into without another call; an error stays an
  error, and a panic a panic.
\<close>

definition transaction_shape :: "wire \<Rightarrow> ('s, 'b) handler_proc \<Rightarrow> ('s, 'a) handler_proc \<Rightarrow> bool" where
  "transaction_shape wb q p \<longleftrightarrow> (\<exists>k h. p = Step (\<lambda>s. snd (on_conn (conn_Begin wb) s)) k \<and>
     (\<forall>s. (fst (on_conn (conn_Begin wb) s) = Ret () \<longrightarrow> k s = pthen q (\<lambda>r. Done (h r))) \<and>
       (\<forall>e. fst (on_conn (conn_Begin wb) s) = Fail e \<longrightarrow> (\<exists>x. k s = Done (Fail x)))) \<and>
     (\<forall>e. \<exists>x. h (Fail e) = Fail x) \<and> (\<forall>a. \<exists>x. h (Panic a) = Panic x))"

lemma transaction_shape_pthen:
  assumes "transaction_shape wb q p" and f: "\<And>r. f r = Done (g r)" and g: "\<And>e. \<exists>x. g (Fail e) = Fail x" "\<And>a. \<exists>x. g (Panic a) = Panic x"
  shows "transaction_shape wb q (pthen p f)"
proof -
  from assms(1) obtain k h where p: "p = Step (\<lambda>s. snd (on_conn (conn_Begin wb) s)) k"
    and k: "\<And>s. fst (on_conn (conn_Begin wb) s) = Ret () \<Longrightarrow> k s = pthen q (\<lambda>r. Done (h r))"
      "\<And>s e. fst (on_conn (conn_Begin wb) s) = Fail e \<Longrightarrow> \<exists>x. k s = Done (Fail x)"
    and h: "\<And>e. \<exists>x. h (Fail e) = Fail x" "\<And>a. \<exists>x. h (Panic a) = Panic x"
    unfolding transaction_shape_def by blast
  show ?thesis
    unfolding transaction_shape_def
  proof (rule exI [of _ "\<lambda>s. pthen (k s) f"], rule exI [of _ "\<lambda>r. g (h r)"], intro conjI allI impI)
    show "pthen p f = Step (\<lambda>s. snd (on_conn (conn_Begin wb) s)) (\<lambda>s. pthen (k s) f)" by (simp add: p)
    show "pthen (k s) f = pthen q (\<lambda>r. Done (g (h r)))" if "fst (on_conn (conn_Begin wb) s) = Ret ()" for s
      by (simp add: k(1) [OF that] pthen_assoc f)
    show "\<exists>x. pthen (k s) f = Done (Fail x)" if "fst (on_conn (conn_Begin wb) s) = Fail e" for s e
      using k(2) [OF that] g(1) by (auto simp: f)
    show "\<exists>x. g (h (Fail e)) = Fail x" for e using h(1) [of e] g(1) by auto
    show "\<exists>x. g (h (Panic a)) = Panic x" for a using h(2) [of a] g(2) by auto
  qed
qed

lemma transaction_shape_pbind:
  assumes "transaction_shape wb q p" and "\<And>a. \<exists>r. f a = Done r"
  shows "transaction_shape wb q (pbind p f)"
proof -
  from assms(2) obtain g where "\<And>a. f a = Done (g a)" by metis
  then have "(case r of Ret a \<Rightarrow> f a | Fail e \<Rightarrow> Done (Fail e) | Panic a \<Rightarrow> Done (Panic a)) =
      Done (case r of Ret a \<Rightarrow> g a | Fail e \<Rightarrow> Fail e | Panic a \<Rightarrow> Panic a)" for r
    by (simp split: outcome.split)
  from transaction_shape_pthen [OF assms(1) this] show ?thesis unfolding pbind_pthen by simp
qed

lemma pbind_Done_pure: "(\<And>a. \<exists>r. f a = Done r) \<Longrightarrow> \<exists>r. pbind (Done x) f = Done r"
  by (cases x) simp_all

lemma upload_tx_shape:
  "transaction_shape (wr_begin ws) (pthen (upload_body_proc env ws (WithTx server_queries (OnTx False)) st lot fs) (end_tx_proc ws))
     (upload_tx_proc env ws st lot fs)"
proof -
  have unit: "pthen p Done = p" for p :: "('x, 'y, 'z) proc" by (induction p) simp_all
  show ?thesis
    unfolding transaction_shape_def upload_tx_proc_def pbind_pthen perror_def pthen_assoc send_def pthen_atom pthen.simps
    by (rule exI, rule exI [of _ "\<lambda>r. r"], intro conjI, rule refl) (simp_all add: unit)
qed

lemma serve_upload_shape:
  assumes "accepts sv (MsgGeneratePresignedUrl m)" and "convertToUploadFiles (gq_LotImages m) = Ret files"
    and "gq_LotId m = Some lotId" and "uuid_Parse lotId = Inr lot" and "sv_imageStore sv = Some store"
  shows "transaction_shape (wr_begin ws) (pthen (upload_body_proc env ws (WithTx server_queries (OnTx False)) (is_s3Storage store) lot
      (fst (intentBatchUpload files))) (end_tx_proc ws)) (serve_proc env ws sv (CallGeneratePresignedUrl (Inr m)))"
proof -
  let ?q = "pthen (upload_body_proc env ws (WithTx server_queries (OnTx False)) (is_s3Storage store) lot
      (fst (intentBatchUpload files))) (end_tx_proc ws)"
  have "transaction_shape (wr_begin ws) ?q (initiateUpload_proc env ws (Some store) files lotId)"
    using assms(4) by (auto simp: initiateUpload_proc_def Let_def case_prod_beta intro!: transaction_shape_pbind [OF upload_tx_shape])
  then have "transaction_shape (wr_begin ws) ?q (GeneratePresignedUrl_proc env ws (Some store) m)"
    unfolding GeneratePresignedUrl_proc_def using assms(2,3)
    by (auto intro!: transaction_shape_pbind pbind_Done_pure simp del: pbind.simps simp: pbind.simps(1) [of "Ret _"])
  then have rpc: "transaction_shape (wr_begin ws) ?q (rpc_method_proc env ws sv (MsgGeneratePresignedUrl m))"
    using assms(5) by (auto simp: as_response_proc_def intro!: transaction_shape_pbind)
  have "\<exists>x. returned_err (toGRPCError (sv_any_new sv) (Some e)) = (Fail x :: (err, rpc_response option) outcome)" for e
    using toGRPCError_Some [of "sv_any_new sv" e] by (auto simp: returned_err_def)
  then have "transaction_shape (wr_begin ws) ?q (ErrorResponseInterceptor_proc (sv_any_new sv) (rpc_method_proc env ws sv (MsgGeneratePresignedUrl m)))"
    unfolding ErrorResponseInterceptor_proc_def by (intro transaction_shape_pthen [OF rpc refl]) simp_all
  with assms(1) show ?thesis by (auto simp: serve_proc_def accepts_def)
qed

lemma transaction_shapeE:
  assumes "transaction_shape wb q p"
  obtains k h where "p = Step (\<lambda>s. snd (on_conn (conn_Begin wb) s)) k"
    and "\<And>s. fst (on_conn (conn_Begin wb) s) = Ret () \<Longrightarrow> k s = pthen q (\<lambda>r. Done (h r))"
    and "\<And>s e. fst (on_conn (conn_Begin wb) s) = Fail e \<Longrightarrow> \<exists>x. k s = Done (Fail x)"
    and "\<And>e. \<exists>x. h (Fail e) = Fail x" and "\<And>a. \<exists>x. h (Panic a) = Panic x"
  using assms unfolding transaction_shape_def by blast

section \<open>Sessions\<close>

text \<open>A transaction that has just begun, and the connection after it was rolled back.\<close>

definition begun :: "'s world \<Rightarrow> 's shared" where
  "begun w = (idle_shared w)\<lparr>sh_conn := (idle_conn (w_db w))\<lparr>pc_status := TxActive\<rparr>\<rparr>"

lemma begun_simps:
  "open_tx (w_db w) (begun w)" "pc_status (sh_conn (begun w)) = TxActive" "view (begun w) = w"
  "on_conn (conn_Begin Sent) (idle_shared w) = (Ret (), begun w)" "on_conn (conn_Begin Sent) (begun w) = (Ret (), begun w)"
  by (simp_all add: begun_def open_tx_def idle_shared_def idle_conn_def view_def on_conn_def conn_Begin_def conn_exec_def begin_cmd_def)

lemma rolled_back_session:
  assumes "open_tx d0 s"
  shows "sh_conn (snd (on_conn (tx_Rollback False Sent) s)) = idle_conn (rolled_back d0 (pc_current (sh_conn s)))"
    and "pc_closed (sh_conn (snd (on_conn (tx_Rollback False (NotSent e)) s)))"
    and "pc_committed (sh_conn (snd (on_conn (tx_Rollback False (NotSent e)) s))) = rolled_back d0 (pc_current (sh_conn s))"
  using assms
  by (simp_all add: open_tx_def on_conn_def tx_Rollback_def conn_exec_def rollback_cmd_def conn_die_def conn_back_def Let_def idle_conn_def)

lemma commit_idle:
  "sh_conn s = idle_conn d \<Longrightarrow> wr_commit ws = Sent \<Longrightarrow> alone (end_tx_proc ws (Ret a)) s = (Ret a, s)"
  by (subst alone_end_tx(3) [where c = "Ret ()" and u = s]) (auto simp: on_conn_def tx_Commit_def conn_exec_def commit_cmd_def idle_conn_def)

section \<open>Two upload requests\<close>

text \<open>What an answered upload request says of its own run: nothing failed, and its body had a result, from which the answer is made.\<close>

lemma answered_upload:
  assumes shape: "transaction_shape (wr_begin (wires_of env wr)) (pthen (upload_body_proc env (wires_of env wr)
      (WithTx server_queries (OnTx False)) st lot fs) (end_tx_proc (wires_of env wr))) p"
    and alone: "fst (alone p (idle_shared w)) = Ret a"
  obtains k h res where "p = Step (\<lambda>s. snd (on_conn (conn_Begin Sent) s)) k" and "wr_commit (wires_of env wr) = Sent"
    and "\<forall>s. fst (on_conn (conn_Begin Sent) s) = Ret () \<longrightarrow> k s = pthen (pthen (upload_body_proc env (wires_of env wr)
      (WithTx server_queries (OnTx False)) st lot fs) (end_tx_proc (wires_of env wr))) (\<lambda>r. Done (h r))"
    and "fst (alone (upload_body_proc env (wires_of env wr) (WithTx server_queries (OnTx False)) st lot fs) (begun w)) = Ret res"
    and "h (Ret res) = Ret a"
proof -
  let ?ws = "wires_of env wr"
  let ?body = "upload_body_proc env ?ws (WithTx server_queries (OnTx False)) st lot fs"
  have wires: "wr_begin ?ws = fault_wire (e_begin env)" by (simp add: wires_of_def)
  from shape show thesis
  proof (rule transaction_shapeE)
    fix k h
    assume p: "p = Step (\<lambda>s. snd (on_conn (conn_Begin (wr_begin ?ws)) s)) k"
      and k: "\<And>s. fst (on_conn (conn_Begin (wr_begin ?ws)) s) = Ret () \<Longrightarrow> k s = pthen (pthen ?body (end_tx_proc ?ws)) (\<lambda>r. Done (h r))"
      and k_fail: "\<And>s e. fst (on_conn (conn_Begin (wr_begin ?ws)) s) = Fail e \<Longrightarrow> \<exists>x. k s = Done (Fail x)"
      and h: "\<And>e. \<exists>x. h (Fail e) = Fail x" "\<And>q. \<exists>x. h (Panic q) = Panic x"
    have "e_begin env = None"
    proof (rule ccontr)
      assume "e_begin env \<noteq> None"
      then obtain e where "e_begin env = Some e" by blast
      then have "fst (on_conn (conn_Begin (wr_begin ?ws)) (idle_shared w)) = Fail e" by (simp add: wires begin_idle)
      with k_fail [of "idle_shared w"] alone show False by (auto simp: p)
    qed
    then have wb: "wr_begin ?ws = Sent" by (simp add: wires fault_wire_def)
    obtain x u where body: "alone ?body (begun w) = (x, u)" by fastforce
    obtain y t where last: "alone (end_tx_proc ?ws x) u = (y, t)" by fastforce
    have y: "h y = Ret a"
      using alone body last by (simp add: p wb k begun_simps thenp_def)
    note u = undisturbedD [OF undisturbed_upload_body begun_simps(1,2) body]
    obtain res where x: "x = Ret res"
      using y last h by (cases x) (auto simp: alone_end_tx, metis outcome.distinct(1), metis outcome.distinct(3))
    obtain c v where c: "on_conn (tx_Commit False (wr_commit ?ws)) u = (c, v)" by fastforce
    from alone_end_tx(3) [OF this, of res] last x
    have yc: "y = (case c of Ret _ \<Rightarrow> Ret res | Fail e \<Rightarrow> Fail (commit_failure e) | Panic p \<Rightarrow> Panic p)" by simp
    have "e_commit env = CommitOk"
      using ends_as_commit [OF u(2) u(3) [OF x] c] y yc h(1) by (cases "e_commit env") (auto, (metis outcome.distinct(1))+)
    with ends_as_commit [OF u(2) u(3) [OF x] c] yc have "y = Ret res" and "wr_commit ?ws = Sent" by (simp_all add: wires_of_def)
    with that [of k h res] p k y body x wb show thesis by auto
  qed
qed

lemma answered_upload_lost_run:
  assumes broken: "broken_off ws e" "wr_rollback ws = Sent"
    and first: "serve env sv (CallGeneratePresignedUrl (Inr m)) w = (Ret (Some resp), w1)"
    and second: "serve env2 sv (CallGeneratePresignedUrl (Inr m2)) w = (Ret (Some resp2), w2)"
  shows "\<exists>x s. pool_step\<^sup>*\<^sup>* ([serve_proc env ws sv (CallGeneratePresignedUrl (Inr m)),
        serve_proc env2 (wires_of env2 wr) sv (CallGeneratePresignedUrl (Inr m2))], idle_shared w)
      ([Done (Fail x), Done (Ret (Some resp2))], s) \<and>
    same_tables (w_db w) (pc_committed (sh_conn s)) \<and> sh_conn s = idle_conn (pc_committed (sh_conn s))"
  using second
proof (rule serve_upload_answered)
  fix files lotId lot store
  assume m2: "accepts sv (MsgGeneratePresignedUrl m2)" "convertToUploadFiles (gq_LotImages m2) = Ret files" "gq_LotId m2 = Some lotId"
    "uuid_Parse lotId = Inr lot" "sv_imageStore sv = Some store"
  let ?ws2 = "wires_of env2 wr" and ?p2 = "serve_proc env2 (wires_of env2 wr) sv (CallGeneratePresignedUrl (Inr m2))"
  let ?body = "upload_body_proc env2 ?ws2 (WithTx server_queries (OnTx False)) (is_s3Storage store) lot (fst (intentBatchUpload files))"
  have "fst (alone ?p2 (idle_shared w)) = Ret (Some resp2)"
    using serve_comes_to [of env2 wr sv "CallGeneratePresignedUrl (Inr m2)"] second
    unfolding comes_to_def by (metis fst_conv prod.collapse)
  with serve_upload_shape [OF m2, of ?ws2 env2] obtain k2 h res where p2: "?p2 = Step (\<lambda>s. snd (on_conn (conn_Begin Sent) s)) k2"
    and commit: "wr_commit ?ws2 = Sent"
    and k2: "\<forall>s. fst (on_conn (conn_Begin Sent) s) = Ret () \<longrightarrow> k2 s = pthen (pthen ?body (end_tx_proc ?ws2)) (\<lambda>r. Done (h r))"
    and res: "fst (alone ?body (begun w)) = Ret res" "h (Ret res) = Ret (Some resp2)"
    by (rule answered_upload)
  from serve_breaks_off [OF broken(1) first, of env] obtain k x where
    p1: "serve_proc env ws sv (CallGeneratePresignedUrl (Inr m)) = Step (\<lambda>s. snd (on_conn (conn_Begin Sent) s)) k"
    and k: "\<And>s. fst (on_conn (conn_Begin Sent) s) = Ret () \<Longrightarrow> k s = Step (\<lambda>s. s)
        (\<lambda>s. Step (\<lambda>s. snd (on_conn (tx_Rollback False (wr_rollback ws)) s)) (\<lambda>_. Done (Fail (x s))))" by (rule breaks_offE) (rule that)
  let ?last = "\<lambda>r. pthen (end_tx_proc ?ws2 r) (\<lambda>r. Done (h r))"
  let ?stop = "Step (\<lambda>s. s) (\<lambda>s. Step (\<lambda>s. snd (on_conn (tx_Rollback False (wr_rollback ws)) s)) (\<lambda>_. Done (Fail (x s))))"
  obtain u where u: "alone ?body (begun w) = (Ret res, u)" using res(1) by (metis fst_conv surj_pair)
  note open_u = undisturbedD(2) [OF undisturbed_upload_body begun_simps(1,2) u]
  let ?v = "snd (on_conn (tx_Rollback False Sent) u)"
  have conn: "sh_conn ?v = idle_conn (rolled_back (w_db w) (pc_current (sh_conn u)))" by (rule rolled_back_session [OF open_u])
  have "schedule [0, 1] ([Step (\<lambda>s. snd (on_conn (conn_Begin Sent) s)) k, Step (\<lambda>s. snd (on_conn (conn_Begin Sent) s)) k2], idle_shared w) =
      ([?stop, pthen ?body ?last], begun w)"
    by (simp add: begun_simps k k2 pthen_assoc eval_nat_numeral)
  then have start: "pool_step\<^sup>*\<^sup>* ([serve_proc env ws sv (CallGeneratePresignedUrl (Inr m)), ?p2], idle_shared w) ([?stop, pthen ?body ?last], begun w)"
    unfolding p1 p2 by (metis schedule_steps)
  have body: "pool_step\<^sup>*\<^sup>* ([?stop, pthen ?body ?last], begun w) ([?stop, ?last (Ret res)], u)"
    using pool_part [of 1 "[?stop, Done (Panic [])]" ?body ?last "begun w"] u by (auto simp: less_Suc_eq)
  have "schedule [0, 0] ([?stop, ?last (Ret res)], u) = ([Done (Fail (x u)), ?last (Ret res)], ?v)"
    using broken(2) by (simp add: end_tx_proc_def send_def perror_def pthen_assoc pthen_atom)
  then have rollback: "pool_step\<^sup>*\<^sup>* ([?stop, ?last (Ret res)], u) ([Done (Fail (x u)), ?last (Ret res)], ?v)" by (metis schedule_steps)
  have "alone (end_tx_proc ?ws2 (Ret res)) ?v = (Ret res, ?v)" by (rule commit_idle [OF conn commit])
  then have commit: "pool_step\<^sup>*\<^sup>* ([Done (Fail (x u)), ?last (Ret res)], ?v) ([Done (Fail (x u)), Done (Ret (Some resp2))], ?v)"
    using pool_part [of 1 "[Done (Fail (x u)), Done (Panic [])]" "end_tx_proc ?ws2 (Ret res)" "\<lambda>r. Done (h r)" ?v] res(2)
    by (auto simp: less_Suc_eq)
  from start body rollback commit have "pool_step\<^sup>*\<^sup>* ([serve_proc env ws sv (CallGeneratePresignedUrl (Inr m)), ?p2], idle_shared w)
      ([Done (Fail (x u)), Done (Ret (Some resp2))], ?v)" by (meson rtranclp_trans)
  with conn show ?thesis by (intro exI [of _ "x u"] exI [of _ ?v]) (simp add: idle_conn_def)
qed

section \<open>A closed connection\<close>

lemma failed_upload_closes:
  assumes m: "accepts sv (MsgGeneratePresignedUrl m)" "convertToUploadFiles (gq_LotImages m) = Ret files" "gq_LotId m = Some lotId"
      "uuid_Parse lotId = Inr lot" "sv_imageStore sv = Some store"
    and fails: "e_begin env = Some b \<or>
      e_begin env = None \<and> upload_body env (is_s3Storage store) lot (fst (intentBatchUpload files)) w = (Fail x, w')"
  shows "\<exists>y s. pool_step\<^sup>*\<^sup>* ([serve_proc env (wires_of env (NotSent e)) sv (CallGeneratePresignedUrl (Inr m))], idle_shared w) ([Done (Fail y)], s) \<and>
    same_tables (w_db w) (pc_committed (sh_conn s)) \<and> pc_closed (sh_conn s)"
proof -
  let ?ws = "wires_of env (NotSent e)" and ?p = "serve_proc env (wires_of env (NotSent e)) sv (CallGeneratePresignedUrl (Inr m))"
  let ?body = "upload_body_proc env ?ws (WithTx server_queries (OnTx False)) (is_s3Storage store) lot (fst (intentBatchUpload files))"
  have wires: "wr_begin ?ws = fault_wire (e_begin env)" "wr_rollback ?ws = NotSent e" by (simp_all add: wires_of_def)
  have "\<exists>y s. alone ?p (idle_shared w) = (Fail y, s) \<and> same_tables (w_db w) (pc_committed (sh_conn s)) \<and> pc_closed (sh_conn s)"
    using serve_upload_shape [OF m, of ?ws env]
  proof (rule transaction_shapeE)
    fix k h
    assume p: "?p = Step (\<lambda>s. snd (on_conn (conn_Begin (wr_begin ?ws)) s)) k"
      and k: "\<And>s. fst (on_conn (conn_Begin (wr_begin ?ws)) s) = Ret () \<Longrightarrow> k s = pthen (pthen ?body (end_tx_proc ?ws)) (\<lambda>r. Done (h r))"
      and k_fail: "\<And>s e. fst (on_conn (conn_Begin (wr_begin ?ws)) s) = Fail e \<Longrightarrow> \<exists>x. k s = Done (Fail x)"
      and h: "\<And>e. \<exists>x. h (Fail e) = Fail x" "\<And>q. \<exists>x. h (Panic q) = Panic x"
    show ?thesis
    proof (cases "e_begin env")
      case (Some b)
      then have broken: "on_conn (conn_Begin (wr_begin ?ws)) (idle_shared w) = (Fail b, (idle_shared w)\<lparr>sh_conn := conn_die (idle_conn (w_db w))\<rparr>)"
        by (simp add: wires begin_idle)
      with k_fail [of "idle_shared w" b] obtain y where "k (idle_shared w) = Done (Fail y)" by auto
      with broken show ?thesis
        by (auto simp: p conn_die_def conn_back_def idle_conn_def Let_def)
    next
      case None
      with fails have body: "upload_body env (is_s3Storage store) lot (fst (intentBatchUpload files)) w = (Fail x, w')" by simp
      obtain r u where run: "alone ?body (begun w) = (r, u)" by fastforce
      note u = undisturbedD [OF undisturbed_upload_body begun_simps(1,2) run]
      from u(1) body have r: "r = Fail x" by (simp add: begun_simps)
      from h(1) obtain y where y: "h (Fail x) = Fail y" by blast
      let ?t = "snd (on_conn (tx_Rollback False (NotSent e)) u)"
      have "alone ?p (idle_shared w) = (Fail y, ?t)"
        using None run r y by (simp add: p k wires fault_wire_def begun_simps thenp_def alone_end_tx)
      with rolled_back_session(2,3) [OF u(2)] show ?thesis by (intro exI [of _ y] exI [of _ ?t]) simp
    qed
  qed
  then obtain y s where "alone ?p (idle_shared w) = (Fail y, s)" and "same_tables (w_db w) (pc_committed (sh_conn s))" "pc_closed (sh_conn s)"
    by blast
  with pool_alone [of ?p "idle_shared w"] show ?thesis by auto
qed

text \<open>On a closed connection no request is answered.\<close>

fun answered :: "('e, 'a) outcome \<Rightarrow> bool" where
  "answered (Ret a) \<longleftrightarrow> True"
| "answered r \<longleftrightarrow> False"

primrec unanswered :: "('s, 'a) handler_proc \<Rightarrow> bool" where
  "unanswered (Done r) \<longleftrightarrow> \<not> answered r"
| "unanswered (Step u k) \<longleftrightarrow> (\<forall>s. pc_closed (sh_conn s) \<longrightarrow> unanswered (k s))"

lemma unanswered_pthen: "unanswered p \<Longrightarrow> (\<And>r. \<not> answered r \<Longrightarrow> unanswered (f r)) \<Longrightarrow> unanswered (pthen p f)"
  by (induction p) simp_all

lemma unanswered_pbind: "unanswered p \<Longrightarrow> unanswered (pbind p f)"
  unfolding pbind_pthen by (erule unanswered_pthen) (auto split: outcome.splits)

lemma unanswered_pbind_Done: "(\<And>a. r = Ret a \<Longrightarrow> unanswered (f a)) \<Longrightarrow> unanswered (pbind (Done r) f)"
  by (cases r) simp_all

lemma unanswered_perror: "unanswered p \<Longrightarrow> unanswered (perror p h)"
  unfolding perror_def by (erule unanswered_pthen) (auto split: outcome.splits)

lemma unanswered_query: "unanswered (send (dbtx_query server_queries wr stmt))"
  by (simp add: send_def atom_def on_conn_def conn_exec_closed)

lemma unanswered_begin: "unanswered (send (conn_Begin wr))"
  by (auto simp: send_def atom_def on_conn_def conn_Begin_def conn_exec_closed)

lemmas unanswered_intros = unanswered_pbind_Done unanswered_pbind unanswered_query unanswered_begin unanswered_perror

lemma CreateLot_unanswered: "unanswered (LotServer_CreateLot_proc env ws validate q)"
proof (cases "validate q")
  case None
  show ?thesis
    unfolding LotServer_CreateLot_proc_def None option.case
    by (intro unanswered_pbind_Done unanswered_pthen [OF unanswered_query])
      (auto simp: returned_err_def status_Error_eq split: outcome.splits)
qed (simp add: LotServer_CreateLot_proc_def returned_err_def status_Error_eq)

lemma initiateUpload_unanswered: "unanswered (initiateUpload_proc env ws store fs lotId)"
proof (cases "uuid_Parse lotId")
  case (Inr lot)
  then show ?thesis
    unfolding initiateUpload_proc_def upload_tx_proc_def Let_def case_prod_beta Inr sum.case
    by (intro unanswered_intros)
qed (simp add: initiateUpload_proc_def case_prod_beta)

lemma rpc_method_unanswered: "unanswered (rpc_method_proc env ws sv m)"
proof (cases m)
  case (MsgCreateLot q)
  then show ?thesis by (simp only: rpc_method_proc.simps as_response_proc_def unanswered_pbind CreateLot_unanswered)
next
  case (MsgGeneratePresignedUrl q)
  have "unanswered (GeneratePresignedUrl_proc env ws (sv_imageStore sv) q)"
    unfolding GeneratePresignedUrl_proc_def by (intro unanswered_pbind_Done unanswered_pbind initiateUpload_unanswered)
  with MsgGeneratePresignedUrl show ?thesis by (simp only: rpc_method_proc.simps as_response_proc_def unanswered_pbind)
next
  case (MsgCompleteMultiPartUpload q)
  have "unanswered (CompleteMultiPartUpload_proc env ws (sv_sort sv) (sv_imageStore sv) q)"
    unfolding CompleteMultiPartUpload_proc_def completeMultiPartUpload_proc_def by (intro unanswered_intros)
  with MsgCompleteMultiPartUpload show ?thesis by (simp only: rpc_method_proc.simps as_response_proc_def unanswered_pbind)
qed

lemma serve_unanswered: "unanswered (serve_proc env ws sv call)"
proof -
  have "\<not> answered (returned_err (toGRPCError (sv_any_new sv) (Some e)) :: (err, rpc_response option) outcome)" for e
    using toGRPCError_Some [of "sv_any_new sv" e] by (auto simp: returned_err_def)
  then have "unanswered (ErrorResponseInterceptor_proc (sv_any_new sv) (rpc_method_proc env ws sv m))" for m
    unfolding ErrorResponseInterceptor_proc_def
    by (intro unanswered_pthen [OF rpc_method_unanswered]) (auto split: outcome.splits)
  then show ?thesis
    by (auto simp: serve_proc_def returned_err_def status_Error_eq split: sum.split option.split validation.split)
qed

lemma closed_for_good:
  assumes "concurrent_run sv ([], s) (ps, t)" and "pc_closed (sh_conn s)"
  shows "sh_conn t = sh_conn s \<and> (\<forall>p \<in> set ps. \<forall>r. p \<noteq> Done (Ret r))"
proof -
  have same: "sh_conn (snd c) = sh_conn s" if "concurrent_run sv ([], s) c" for c
    using that assms(2) by (cases c) (auto simp: closed_stays_def dest: stays_closed.concurrent_run_related)
  have "list_all unanswered (fst c)" if "concurrent_run sv ([], s) c" for c
    using that
  proof (induction rule: rtranclp_induct)
    case (step c d)
    note closed = same [OF step(1)]
    from step(2) show ?case
    proof (cases rule: concurrent_step.cases)
      case (arrival ps s env ws call)
      with step.IH serve_unanswered show ?thesis by simp
    next
      case progress
      then show ?thesis
      proof (cases rule: pool_step.cases)
        case (move i ps u k s')
        with step.IH have "unanswered (Step u k)" by (auto simp: list_all_length)
        with closed assms(2) move have "unanswered (k s')" by simp
        with step.IH move show ?thesis by (auto simp: list_all_length nth_list_update)
      qed
    qed
  qed simp
  from this [OF assms(1)] same [OF assms(1)] show ?thesis by (auto simp: list_all_iff)
qed

end
