(* ===== verification/Concurrency_Properties.thy ===== *)
theory Concurrency_Properties
  imports Sample_World Overlapping_Requests Upload_Resume
begin

text \<open>
  The properties of concurrent requests: what every interleaving of their calls keeps, how many calls they make, that a request
  that nobody disturbs does what \<open>serve\<close> says, what becomes of a lot that is created, and of an upload that is started, while
  another upload request has its transaction open, and what a request that cannot roll back leaves of the server.
\<close>

section \<open>Two sample requests\<close>

definition sample_upload_call :: rpc_call where
  "sample_upload_call = CallGeneratePresignedUrl (Inr (upload_request sample_images sample_lot_text))"

definition sample_lot_call :: rpc_call where
  "sample_lot_call = CallCreateLot (Inr (lot_request sample_lot_msg))"

text \<open>The client of the upload gives up after \<open>Begin\<close>; the rollback is sent all the same.\<close>

definition given_up :: wires where
  "given_up = \<lparr>wr_begin = Sent, wr_query = (\<lambda>_. NotSent (Leaf CtxCanceled)), wr_commit = Sent, wr_rollback = Sent\<rparr>"

lemma sample_upload_links:
  "\<exists>resp w1. serve sample_env sample_server sample_upload_call sample_world = (Ret (Some resp), w1) \<and> lot_images (w_db w1) \<noteq> []"
proof -
  obtain res w1 where run: "initiateUpload sample_env (Some sample_store) (map upload_of sample_images) sample_lot_text sample_world = (Ret res, w1)"
    using sample_upload_run by blast
  then obtain resp where "GeneratePresignedUrl sample_env (Some sample_store) (upload_request sample_images sample_lot_text) sample_world = (Ret (Some resp), w1)"
    using GeneratePresignedUrl_after [OF sample_world_wf outside_okD(4,6) [OF sample_outside] sample_images_good run] by blast
  then have "rpc_method sample_env sample_server (MsgGeneratePresignedUrl (upload_request sample_images sample_lot_text)) sample_world =
      (Ret (Some (RespGeneratePresignedUrl resp)), w1)"
    using sample_complete_hyps(2) by (simp add: as_response_simps)
  then have "serve sample_env sample_server sample_upload_call sample_world = (Ret (Some (RespGeneratePresignedUrl resp)), w1)"
    unfolding sample_upload_call_def by (subst serve_accepted [OF _ sample_accepts]) (simp, rule map_failure_simps(1))
  moreover have "lot_images (w_db w1) \<noteq> []"
  proof -
    let ?f = "upload_of (sample_image CHR ''b'' 5)"
    have "sha_bytes (sample_sha CHR ''b'') = replicate 32 0xbb" unfolding sha_bytes_def sample_sha_def by code_simp
    then obtain b where b: "completed_blob (w_db sample_world) (sha_bytes (uf_Sha256 ?f)) = Some b"
      by (simp add: completed_blob_def sample_world_def sample_db_def upload_of_def sample_image_def)
    have "?f \<in> set (map upload_of sample_images)" by (simp add: sample_images_def)
    moreover have "\<And>f. f \<in> set (map upload_of sample_images) \<Longrightarrow> lower_sha (uf_Sha256 f)"
      using sample_images_servable by (auto simp: servable_def)
    ultimately have "link_count (w_db w1) sample_lot_id b = link_count (w_db sample_world) sample_lot_id b + 1"
      using b run sample_parse by (intro initiateUpload_link_count [OF sample_world_wf outside_okD(4,6) [OF sample_outside]])
    then show ?thesis by (auto simp: link_count_def)
  qed
  ultimately show ?thesis by blast
qed

lemma sample_upload_answered:
  "\<exists>resp w1. serve sample_env sample_server sample_upload_call sample_world = (Ret (Some resp), w1)"
  using sample_upload_links by blast

abbreviation sample_handlers :: "(unit shared, err, rpc_response option) proc list" where
  "sample_handlers \<equiv> [serve_proc sample_env given_up sample_server sample_upload_call,
     serve_proc sample_env (wires_of sample_env Sent) sample_server sample_lot_call]"

lemma sample_lot_answered:
  "\<exists>resp w2. serve sample_env sample_server sample_lot_call sample_world = (Ret (Some resp), w2)"
  unfolding sample_lot_call_def serve_create_lot [OF sample_accepts sample_create_hyps] by blast

lemma sample_broken_off: "broken_off given_up (Leaf CtxCanceled)"
  by (simp add: broken_off_def given_up_def)

lemma sample_handlers_arrive: "concurrent_run sample_server ([], idle_shared sample_world) (sample_handlers, idle_shared sample_world)"
proof (rule two_arrive)
  obtain resp w1 where "serve sample_env sample_server sample_upload_call sample_world = (Ret (Some resp), w1)"
    using sample_upload_answered by blast
  from serve_breaks_off [OF sample_broken_off this [unfolded sample_upload_call_def], of sample_env]
  show "\<not> panicked (serve_proc sample_env given_up sample_server sample_upload_call)"
    by (simp add: sample_upload_call_def breaks_off_not_panicked)
qed

lemma sample_handlers_end:
  "\<exists>x resp s. schedule [0, 1, 0, 0] (sample_handlers, idle_shared sample_world) = ([Done (Fail x), Done (Ret (Some resp))], s)"
proof -
  obtain resp w1 where up: "serve sample_env sample_server sample_upload_call sample_world = (Ret (Some resp), w1)"
    using sample_upload_answered by blast
  obtain resp2 w2 where lot: "serve sample_env sample_server sample_lot_call sample_world = (Ret (Some resp2), w2)"
    using sample_lot_answered by blast
  from created_lot_run [OF sample_broken_off up [unfolded sample_upload_call_def] lot [unfolded sample_lot_call_def], of Sent]
  show ?thesis by (auto simp: sample_upload_call_def sample_lot_call_def)
qed

lemma sample_conn_wf: "conn_wf (sh_conn (idle_shared sample_world))"
  using conn_wf_idle [OF sample_world_wf] by (simp add: idle_shared_def)

section \<open>What concurrent requests keep\<close>

text \<open>C7: whatever requests arrive, in whatever order their handlers make their calls, and whatever becomes of the commands on
  the way, the committed tables stay well formed and only grow, and outside a transaction the session sees just them.\<close>

theorem concurrent_requests_keep_database:
  assumes "concurrent_run sv ([], s) (ps, t)" and "conn_wf (sh_conn s)"
  shows "db_wf (pc_committed (sh_conn t)) \<and> history (pc_committed (sh_conn s)) (pc_committed (sh_conn t)) \<and>
    (if pc_status (sh_conn t) = TxIdle then pc_current (sh_conn t) = pc_committed (sh_conn t)
     else grown (pc_committed (sh_conn t)) (pc_current (sh_conn t)))"
  using keeps_conn.concurrent_run_related [OF assms(1)] assms(2) by (auto simp: conn_ok_def conn_wf_def grown_def)

theorem concurrent_requests_keep_database_witness:
  "\<exists>ps t. concurrent_run sample_server ([], idle_shared sample_world) (ps, t) \<and> list_all finished ps \<and> length ps = 2 \<and>
     db_wf (pc_committed (sh_conn t))"
proof -
  obtain x resp t where ended: "schedule [0, 1, 0, 0] (sample_handlers, idle_shared sample_world) = ([Done (Fail x), Done (Ret (Some resp))], t)"
    using sample_handlers_end by blast
  from schedule_steps [of "(sample_handlers, idle_shared sample_world)" "[0, 1, 0, 0]"]
  have "concurrent_run sample_server (sample_handlers, idle_shared sample_world) ([Done (Fail x), Done (Ret (Some resp))], t)"
    unfolding ended by (rule pool_steps_run)
  with sample_handlers_arrive
  have run: "concurrent_run sample_server ([], idle_shared sample_world) ([Done (Fail x), Done (Ret (Some resp))], t)" by (rule rtranclp_trans)
  from concurrent_requests_keep_database [OF run sample_conn_wf] run show ?thesis by fastforce
qed

section \<open>They end\<close>

text \<open>C19: any number of requests, whatever other state the server is in, whatever the outside answers and in whatever order the
  handlers make their calls, make together no more calls to PostgreSQL and S3 than one for each \<open>CreateLot\<close>, three for each
  \<open>CompleteMultiPartUpload\<close> and, for each \<open>GeneratePresignedUrl\<close>, four and 32,771 per image of its message, the limit for the
  parts of a file being 32,767; no handler tries a call again. And when no handler can go on, all are through, or one has
  panicked, which ends the process. The ranges over the maps of a request give each key once.\<close>

theorem requests_end:
  assumes "\<And>env ws call. (env, ws, call) \<in> set reqs \<Longrightarrow> range_ok env"
    and "(pool_step ^^ n) (map (\<lambda>(env, ws, call). serve_proc env ws sv call) reqs, s) (ps, t)"
  shows "n \<le> (\<Sum>(env, ws, call)\<leftarrow>reqs. call_bound call) \<and>
    ((\<exists>c. pool_step (ps, t) c) \<or> list_all finished ps \<or> list_ex panicked ps)"
proof
  have "list_all2 (calls_within (\<lambda>_. True) (\<lambda>_. True)) (map (\<lambda>(env, ws, call). serve_proc env ws sv call) reqs)
      (map (\<lambda>(env, ws, call). call_bound call) reqs)"
    using assms(1) by (auto simp: list_all2_map1 list_all2_map2 intro!: list.rel_refl_strong serve_calls)
  from pool_calls [OF assms(2) this] show "n \<le> (\<Sum>(env, ws, call)\<leftarrow>reqs. call_bound call)" by auto
  show "(\<exists>c. pool_step (ps, t) c) \<or> list_all finished ps \<or> list_ex panicked ps" using pool_stuck [of ps t] by blast
qed

theorem requests_end_witness:
  "\<exists>n ps t. (pool_step ^^ n) (sample_handlers, idle_shared sample_world) (ps, t) \<and> list_all finished ps \<and>
     n \<le> 4 + 32771 * 4 + 1"
proof -
  obtain x resp t where ended: "schedule [0, 1, 0, 0] (sample_handlers, idle_shared sample_world) = ([Done (Fail x), Done (Ret (Some resp))], t)"
    using sample_handlers_end by blast
  from schedule_steps [of "(sample_handlers, idle_shared sample_world)" "[0, 1, 0, 0]"] obtain n
    where run: "(pool_step ^^ n) (sample_handlers, idle_shared sample_world) ([Done (Fail x), Done (Ret (Some resp))], t)"
    unfolding ended rtranclp_power by blast
  have "n \<le> (\<Sum>(env, ws, call)\<leftarrow>[(sample_env, given_up, sample_upload_call), (sample_env, wires_of sample_env Sent, sample_lot_call)]. call_bound call)"
    by (rule conjunct1 [OF requests_end [where sv = sample_server]]) (use outside_okD(6) [OF sample_outside] run in auto)
  then have "n \<le> 4 + 32771 * 4 + 1"
    by (simp add: sample_upload_call_def sample_lot_call_def upload_request_def sample_images_def image_calls_def max_parts_def)
  with run show ?thesis by (intro exI [of _ n] exI conjI) (assumption, simp_all)
qed

section \<open>A request that nobody disturbs\<close>

text \<open>C6: a request that finds the connection idle, and whose calls no other request comes between, is answered as \<open>serve\<close> says, whatever
  fails in its outside, and leaves the tables, the object store and the random source as \<open>serve\<close> does; the connection is
  then idle, or closed for good. So the transaction that \<open>serve\<close> takes as one step, with its commit and its rollback, is what
  \<open>Begin\<close>, the statements, \<open>Commit\<close> and the deferred \<open>Rollback\<close> do on the connection.\<close>

theorem undisturbed_request_refines:
  "\<exists>r t w'. pool_step\<^sup>*\<^sup>* ([serve_proc env (wires_of env wr) sv call], idle_shared w) ([Done r], t) \<and> serve env sv call w = (r, w') \<and>
     pc_committed (sh_conn t) = w_db w' \<and> sh_s3 t = w_s3 w' \<and> sh_rand t = w_rand w' \<and>
     (sh_conn t = idle_conn (w_db w') \<or> pc_closed (sh_conn t))"
proof -
  let ?p = "serve_proc env (wires_of env wr) sv call"
  obtain r t where alone: "alone ?p (idle_shared w) = (r, t)" by fastforce
  then obtain w' where "serve env sv call w = (r, w')" and "ends_as w' t"
    using serve_comes_to unfolding comes_to_def by blast
  with pool_alone [of ?p "idle_shared w"] alone show ?thesis
    by (intro exI [of _ r] exI [of _ t] exI [of _ w']) (simp add: ends_as_def)
qed

section \<open>Requests that disturb each other\<close>

text \<open>C25: an upload request and a request that creates a lot, each of which would be answered if it came alone. When the client of
  the upload gives up after its handler has sent \<open>Begin\<close>, and the handler of the other request sends its statement before the
  deferred \<open>Rollback\<close>, the other client is told that its lot was created, and the lot is gone: the committed tables are
  as before both requests, whatever becomes of the rollback.\<close>

theorem created_lot_lost:
  assumes "broken_off ws e"
    and "serve env sv (CallGeneratePresignedUrl (Inr m)) w = (Ret (Some resp), w1)"
    and "serve env2 sv (CallCreateLot (Inr m2)) w = (Ret (Some resp2), w2)"
  shows "(\<exists>x s. pool_step\<^sup>*\<^sup>* ([serve_proc env ws sv (CallGeneratePresignedUrl (Inr m)),
        serve_proc env2 (wires_of env2 wr) sv (CallCreateLot (Inr m2))], idle_shared w)
      ([Done (Fail x), Done (Ret (Some resp2))], s) \<and>
    same_tables (w_db w) (pc_committed (sh_conn s)) \<and> pc_status (sh_conn s) = TxIdle) \<and>
    (\<exists>l. lots (w_db w2) = lots (w_db w) @ [l])"
  using created_lot_run [OF assms] serve_create_lot_adds [OF assms(3)] schedule_steps by metis

theorem created_lot_lost_witness:
  "\<exists>x resp s. pool_step\<^sup>*\<^sup>* (sample_handlers, idle_shared sample_world) ([Done (Fail x), Done (Ret (Some resp))], s) \<and>
     same_tables sample_db (pc_committed (sh_conn s))"
proof -
  obtain resp w1 where up: "serve sample_env sample_server sample_upload_call sample_world = (Ret (Some resp), w1)"
    using sample_upload_answered by blast
  obtain resp2 w2 where lot: "serve sample_env sample_server sample_lot_call sample_world = (Ret (Some resp2), w2)"
    using sample_lot_answered by blast
  from created_lot_lost [OF sample_broken_off up [unfolded sample_upload_call_def] lot [unfolded sample_lot_call_def], of Sent]
  show ?thesis by (auto simp: sample_upload_call_def sample_lot_call_def sample_world_def)
qed



section \<open>A connection that is closed\<close>

text \<open>C27: an upload request whose messages are complete and whose \<open>Begin\<close> fails, or whose transaction fails at any point before
  \<open>Commit\<close>, however much it has written by then, and whose deferred \<open>Rollback\<close> cannot be sent because its context has ended:
  the tables are as before, but the connection of the process is closed, nothing opens another, and from then on no request of any
  kind is answered, whatever requests come and in whatever order their handlers make their calls.\<close>

theorem failed_upload_stops_server:
  assumes "\<And>m. m \<in> set ms \<Longrightarrow> complete_image m" and "uuid_Parse lotId = Inr lot"
    and "accepts sv (MsgGeneratePresignedUrl (upload_request ms lotId))" and "sv_imageStore sv = Some store"
    and "e_begin env = Some b \<or> e_begin env = None \<and>
      upload_body env (is_s3Storage store) lot (fst (intentBatchUpload (map upload_of ms))) w = (Fail x, w')"
  shows "\<exists>y s. pool_step\<^sup>*\<^sup>* ([serve_proc env (wires_of env (NotSent e)) sv (CallGeneratePresignedUrl (Inr (upload_request ms lotId)))],
        idle_shared w) ([Done (Fail y)], s) \<and>
    same_tables (w_db w) (pc_committed (sh_conn s)) \<and>
    (\<forall>ps t. concurrent_run sv ([], s) (ps, t) \<longrightarrow>
      same_tables (w_db w) (pc_committed (sh_conn t)) \<and> (\<forall>p \<in> set ps. \<forall>r. p \<noteq> Done (Ret r)))"
proof -
  have m: "convertToUploadFiles (gq_LotImages (upload_request ms lotId)) = Ret (map upload_of ms)" "gq_LotId (upload_request ms lotId) = Some lotId"
    using convertToUploadFiles_complete [OF assms(1)] by (simp_all add: upload_request_def)
  from failed_upload_closes [OF assms(3) m assms(2,4,5)] closed_for_good show ?thesis by metis
qed

text \<open>A request that links a stored image and cannot store the upload of a new one.\<close>

definition refused_env :: "unit env" where
  "refused_env = sample_env\<lparr>e_faults := (\<lambda>q. if q = QInsertSingle then Some (Leaf CtxCanceled) else None)\<rparr>"

definition refused_images :: "ImageFile list" where
  "refused_images = [sample_image CHR ''b'' 5, sample_image CHR ''a'' 100]"

lemma refused_front: "fst (intentBatchUpload (map upload_of refused_images)) = map upload_of refused_images"
  by code_simp

lemma refused_skip:
  "case skipUploadForIdenticalImageBlobs refused_env (map upload_of refused_images) sample_lot_id sample_world of
     (Ret (need, al), w) \<Rightarrow> length (lot_images (w_db w)) = 1 \<and> need = [upload_of (sample_image CHR ''a'' 100)] | _ \<Rightarrow> False"
  by code_simp

lemma refused_single:
  "\<exists>x. generateS3UploadUrl refused_env st lot [upload_of (sample_image CHR ''a'' 100)] w = (Fail x, w)"
  by (simp add: generateS3UploadUrl_def extractFileData_def multipartThreshold_def upload_of_def sample_image_def zero_extractFile_def
      add_single_def bindp_def createSinglePresignedFileUrl_def InsertSinglePartUpload_def run_query_def refused_env_def on_db_def on_error_def)

lemma refused_body:
  "\<exists>x w'. upload_body refused_env (is_s3Storage sample_store) sample_lot_id (fst (intentBatchUpload (map upload_of refused_images))) sample_world =
     (Fail x, w') \<and> length (lot_images (w_db w')) = 1"
proof -
  obtain al w' where "skipUploadForIdenticalImageBlobs refused_env (map upload_of refused_images) sample_lot_id sample_world =
      (Ret ([upload_of (sample_image CHR ''a'' 100)], al), w')" and "length (lot_images (w_db w')) = 1"
    using refused_skip by (auto split: prod.splits outcome.splits)
  with refused_single [of "is_s3Storage sample_store" sample_lot_id w'] show ?thesis
    unfolding refused_front by (auto simp: upload_body_def bindp_def)
qed

theorem failed_upload_stops_server_witness:
  "\<exists>x w' y s. upload_body refused_env (is_s3Storage sample_store) sample_lot_id
       (fst (intentBatchUpload (map upload_of refused_images))) sample_world = (Fail x, w') \<and> length (lot_images (w_db w')) = 1 \<and>
     pool_step\<^sup>*\<^sup>* ([serve_proc refused_env (wires_of refused_env (NotSent (Leaf CtxCanceled))) sample_server
         (CallGeneratePresignedUrl (Inr (upload_request refused_images sample_lot_text)))], idle_shared sample_world) ([Done (Fail y)], s) \<and>
     same_tables sample_db (pc_committed (sh_conn s))"
proof -
  obtain x w' where body: "upload_body refused_env (is_s3Storage sample_store) sample_lot_id
      (fst (intentBatchUpload (map upload_of refused_images))) sample_world = (Fail x, w')" and "length (lot_images (w_db w')) = 1"
    using refused_body by blast
  moreover have "e_begin refused_env = None" by (simp add: refused_env_def sample_env_def)
  moreover have "complete_image m" if "m \<in> set refused_images" for m using that by (auto simp: refused_images_def sample_image_def complete_image_def)
  ultimately show ?thesis
    using failed_upload_stops_server [of refused_images sample_lot_text sample_lot_id sample_server sample_store refused_env undefined sample_world x w'
        "Leaf CtxCanceled"] sample_parse sample_accepts sample_complete_hyps(2)
    by (auto simp: sample_world_def)
qed

end
