(* ===== verification/Attempt_Ids.thy ===== *)
theory Attempt_Ids
  imports Server_Invariants
begin

text \<open>
  The ids of the attempts. They are drawn from a sequence of the database, and a request draws at most one for each of its
  files: as long as the sequence has room, every id fits the 64-bit field that the client gets it in.
\<close>

definition ids_drawn :: "db \<Rightarrow> nat \<Rightarrow> db \<Rightarrow> bool" where
  "ids_drawn d0 n d \<longleftrightarrow> attempt_seq d \<le> attempt_seq d0 + int n \<and> attempt_seq d0 \<le> attempt_seq d \<and>
     (\<forall>a \<in> set (attempts d). at_ID a \<in> at_ID ` set (attempts d0) \<or> attempt_seq d0 \<le> at_ID a \<and> at_ID a < attempt_seq d0 + int n)"

lemma ids_drawn_refl: "ids_drawn d 0 d"
  by (auto simp: ids_drawn_def)

lemma ids_drawn_trans: "ids_drawn d0 m d1 \<Longrightarrow> ids_drawn d1 n d2 \<Longrightarrow> ids_drawn d0 (m + n) d2"
  unfolding ids_drawn_def by fastforce

lemma ids_drawn_mono: "ids_drawn d0 m d \<Longrightarrow> m \<le> n \<Longrightarrow> ids_drawn d0 n d"
  unfolding ids_drawn_def by fastforce

text \<open>A sequence with room for \<open>n\<close> more ids.\<close>

definition ids_left :: "db \<Rightarrow> nat \<Rightarrow> bool" where
  "ids_left d n \<longleftrightarrow> 0 \<le> attempt_seq d \<and> attempt_seq d + int n \<le> 2 ^ 63 \<and> (\<forall>a \<in> set (attempts d). fits_int64 (at_ID a))"

lemma ids_drawn_fit: "ids_left d0 n \<Longrightarrow> ids_drawn d0 n d \<Longrightarrow> a \<in> set (attempts d) \<Longrightarrow> fits_int64 (at_ID a)"
  unfolding ids_left_def ids_drawn_def fits_int64_def by fastforce

context upsert
begin

lemma upsert_statement_ids:
  assumes "upsert_statement propose on_conflict ret xs d = (r, d')"
  shows "ids_drawn d (length xs) d'"
proof -
  let ?P = "\<lambda>a. at_ID a \<in> at_ID ` set (attempts d) \<or> attempt_seq d \<le> at_ID a \<and> at_ID a < attempt_seq d + int (length xs)"
  have loop: "(\<forall>a \<in> set (us_attempts us). ?P a) \<and> us_seq us \<le> attempt_seq d + int (length xs)"
    if "upsert_loop propose on_conflict xs (upsert_start d) = (o', us)" for o' us
    using upsert_loop_all [OF that, of ?P] update_row_same(1) propose_row
    by (fastforce simp: upsert_start_def same_identity_def)
  have seq: "us_seq us \<ge> attempt_seq d" if "upsert_loop propose on_conflict xs (upsert_start d) = (o', us)" for o' us
    using upsert_loop_seq [OF that] by (simp add: upsert_start_def)
  obtain o' us where run: "upsert_loop propose on_conflict xs (upsert_start d) = (o', us)" by fastforce
  have "attempt_seq d' = us_seq us \<and> (attempts d' = attempts d \<or> attempts d' = us_attempts us)"
    using assms run by (auto simp: upsert_statement_def Let_def split: option.splits sum.splits if_splits)
  with loop [OF run] seq [OF run] show ?thesis by (auto simp: ids_drawn_def)
qed

end

section \<open>The requests\<close>

lemma skip_ids:
  assumes "skipUploadForIdenticalImageBlobs env fs lot w = (r, w')"
  shows "ids_drawn (w_db w) 0 (w_db w')"
proof -
  have "keeps (\<lambda>d. attempts d = as) (sql_InsertIdenticalImageBlobsToLotImages p)"
    and "keeps (\<lambda>d. attempt_seq d = n) (sql_InsertIdenticalImageBlobsToLotImages p)" for as n p
    by (rule keepsI, auto simp: sql_InsertIdenticalImageBlobsToLotImages_def Let_def split: prod.splits sum.splits)+
  then have "keeps (\<lambda>w. attempts (w_db w) = as \<and> attempt_seq (w_db w) = n) (skipUploadForIdenticalImageBlobs env fs lot)" for as n
    unfolding skipUploadForIdenticalImageBlobs_def Let_def InsertIdenticalImageBlobsToLotImages_def
    by (intro keeps_intros)
  from keepsD [OF this _ assms, of "attempts (w_db w)" "attempt_seq (w_db w)"] show ?thesis by (auto simp: ids_drawn_def)
qed

lemma createSingle_ids:
  assumes "createSinglePresignedFileUrl env st lot (single_data fs) w = (Ret us, w')"
  shows "ids_drawn (w_db w) (length fs) (w_db w')"
proof -
  obtain rs d1 where stmt: "InsertSinglePartUpload (e_faults env) (e_sql env) (single_params lot (single_data fs)) (w_db w) = (Ret rs, d1)"
    and rest: "mapp (\<lambda>f. bindp (generateSinglePresignedPutObjectUrl env st (uuid_String (map_get uuid_Nil
          (map_build sr_Sha256 sr_StorageKey rs) (uf_Sha256 f))) (uf_Sha256 f)) (\<lambda>u. liftp (Ret (single_url f u))))
        (sd_singleFileUploads (single_data fs)) (w\<lparr>w_db := d1\<rparr>) = (Ret us, w')"
    using assms by (auto simp: createSinglePresignedFileUrl_def bindp_Ret_iff on_error_Ret_iff on_db_Ret_iff Let_def)
  from stmt have "upsert_statement (single_propose (e_sql env) (single_params lot (single_data fs))) single_on_conflict single_returning
      (map single_input_of fs) (w_db w) = (Ret rs, d1)"
    by (simp add: InsertSinglePartUpload_def run_query_def sql_InsertSinglePartUpload_def single_inputs_eq split: option.splits)
  from single_upsert.upsert_statement_ids [OF this] have ids: "ids_drawn (w_db w) (length fs) d1" by simp
  have "keeps (\<lambda>v. I (w_db v)) (mapp (\<lambda>f. bindp (generateSinglePresignedPutObjectUrl env st (uuid_String (map_get uuid_Nil
      (map_build sr_Sha256 sr_StorageKey rs) (uf_Sha256 f))) (uf_Sha256 f)) (\<lambda>u. liftp (Ret (single_url f u)))) gs)" for I gs
    by (intro keeps_intros)
  from keepsD [OF this [of "\<lambda>d. d = d1"] _ rest] ids show ?thesis by simp
qed

lemma createMultipart_ids:
  assumes "createMultipartPresignedFileUrl env st lot (multi_data ts) w = (Ret us, w')"
  shows "ids_drawn (w_db w) (length ts) (w_db w')"
proof -
  let ?m = "md_multiFileUploadMap (multi_data ts)"
  obtain rs d1 news olds us1 w2 us2 where
    stmt: "InsertAndValidateMultiPartUpload (e_faults env) (e_sql env) (multi_params lot (multi_data ts)) (w_db w) = (Ret rs, d1)"
    and new: "generateUrlsForNewUploads env st ?m news (w\<lparr>w_db := d1\<rparr>) = (Ret us1, w2)"
    and res: "genrateUrlsForResumableUploads env st ?m olds w2 = (Ret us2, w')"
    using assms by (auto simp: createMultipartPresignedFileUrl_def bindp_Ret_iff on_error_Ret_iff on_db_Ret_iff liftp_iff
        case_prod_beta simp del: bindp_liftp)
  from stmt have "upsert_statement (multi_propose (e_sql env) (multi_params lot (multi_data ts)))
      (multi_on_conflict (e_sql env) (multi_params lot (multi_data ts))) (multi_returning (e_sql env)) (map multi_input_of ts) (w_db w) = (Ret rs, d1)"
    by (simp add: InsertAndValidateMultiPartUpload_def run_query_def sql_InsertAndValidateMultiPartUpload_def multi_inputs_eq split: option.splits)
  from multi_upsert.upsert_statement_ids [OF this] have "ids_drawn (w_db w) (length ts) d1" by simp
  moreover have "w_db w' = d1"
    using db_same [OF keeps_generateUrlsForNewUploads new] db_same [OF keeps_genrateUrlsForResumableUploads res] by simp
  ultimately show ?thesis by simp
qed

lemma generateS3UploadUrl_ids:
  assumes "random_ok env" and "generateS3UploadUrl env st lot fs w = (Ret us, w')"
  shows "ids_drawn (w_db w) (length fs) (w_db w')"
proof -
  obtain ex w0 us1 w1 us2 where ext: "extractFileData env st fs w = (Ret ex, w0)"
    and single: "(if length (sd_Sha256s (ex_singleFile ex)) > 0 then createSinglePresignedFileUrl env st lot (ex_singleFile ex)
        else liftp (Ret [])) w0 = (Ret us1, w1)"
    and multi: "(if length (md_Sha256s (ex_multipartFile ex)) > 0 then createMultipartPresignedFileUrl env st lot (ex_multipartFile ex)
        else liftp (Ret [])) w1 = (Ret us2, w')"
    using assms(2) unfolding generateS3UploadUrl_def bindp_Ret_iff liftp_apply prod.inject outcome.inject by blast
  from extractFileData_Ret [OF assms(1) ext] obtain ts where ex: "ex = extracted (filter is_single fs) ts"
    and ts: "map fst ts = filter (\<lambda>f. \<not> is_single f) fs" and db: "w_db w0 = w_db w" by metis
  have "ids_drawn (w_db w0) (length (filter is_single fs)) (w_db w1)"
    using single createSingle_ids [of env st lot "filter is_single fs" w0 us1 w1] ids_drawn_mono [OF ids_drawn_refl]
    by (auto simp: ex extracted_def split: if_splits)
  moreover have "ids_drawn (w_db w1) (length ts) (w_db w')"
    using multi createMultipart_ids [of env st lot ts w1 us2 w'] ids_drawn_mono [OF ids_drawn_refl]
    by (auto simp: ex extracted_def split: if_splits)
  moreover have "length ts = length (filter (\<lambda>f. \<not> is_single f) fs)" using arg_cong [OF ts, of length] by simp
  ultimately show ?thesis using ids_drawn_trans db sum_length_filter_compl [of is_single fs] by metis
qed

lemma initiateUpload_ids:
  assumes rnd: "random_ok env" and rng: "range_ok env" and sha: "\<And>f. f \<in> set fs \<Longrightarrow> lower_sha (uf_Sha256 f)"
    and run: "initiateUpload env store fs lotId w = (Ret res, w')"
  shows "ids_drawn (w_db w) (length fs) (w_db w')"
proof -
  let ?files = "fresh_files {} fs"
  from run obtain lot s already urls where "uuid_Parse lotId = Inr lot" and "store = Some s"
    and body: "upload_body env (is_s3Storage s) lot (fst (intentBatchUpload fs)) w = (Ret (already, urls), w')"
    by (rule initiateUpload_Ret_cases)
  then obtain need al w1 where skip: "skipUploadForIdenticalImageBlobs env ?files lot w = (Ret (need, al), w1)"
    and gen: "generateS3UploadUrl env (is_s3Storage s) lot need w1 = (Ret urls, w')"
    by (auto simp: upload_body_def bindp_Ret_iff case_prod_beta intentBatchUpload_eq)
  have "mset need = mset (filter (\<lambda>f. \<not> stored (w_db w) f) ?files)"
    by (rule skip_Ret(1) [OF _ fresh_distinct rng skip]) (use sha fresh_subset in blast)
  then have "length need = length (filter (\<lambda>f. \<not> stored (w_db w) f) ?files)" by (metis size_mset)
  also have "\<dots> \<le> length ?files" by simp
  also have "\<dots> \<le> length fs" using list_emb_length [OF fresh_subseq] by blast
  finally have "length need \<le> length fs" .
  with ids_drawn_trans [OF skip_ids [OF skip] generateS3UploadUrl_ids [OF rnd gen]] ids_drawn_mono show ?thesis by simp
qed

end
