(* ===== verification/Upload_Completion.thy ===== *)
theory Upload_Completion
  imports Upload_Resume Attempt_Ids Service_Laws
begin

text \<open>
  From the response that hands out a multipart upload to its completion, through the messages that the client sees: the
  attempt id of a \<open>MultiPresignedUploadUrl\<close> leads, whatever the server did in between, back to the upload that the part URLs
  were made for, and to the part count that the parts of the message belong to.
\<close>

section \<open>The attempt behind an upload\<close>

lemma find_by_id:
  assumes "db_wf d" and "a \<in> set (attempts d)"
  shows "find (\<lambda>b. at_ID b = at_ID a) (attempts d) = Some a"
proof (cases "find (\<lambda>b. at_ID b = at_ID a) (attempts d)")
  case None
  with assms(2) show ?thesis by (auto simp: find_None_iff)
next
  case (Some b)
  then have "b \<in> set (attempts d)" and "at_ID b = at_ID a" by (auto simp: find_Some_iff)
  with attempts_wf_same_id [OF db_wf_attempts_wf [OF assms(1)] _ assms(2)] Some show ?thesis by simp
qed

text \<open>The part count of a started upload, which depends on the size that the attempt was recorded with.\<close>

definition recorded_parts :: "ImageBlobUploadAttempt \<Rightarrow> int" where
  "recorded_parts a = (at_FileSize a + partSize - 1) sdiv partSize"

lemma sized_part_count:
  assumes "db_wf d" and "uploads_sized d" and "a \<in> set (attempts d)" and "at_UploadID a = Some i"
  shows "at_PartCount a = Some (recorded_parts a)"
  using assms by (auto simp: db_wf_def attempts_wf_def uploads_sized_def upload_sized_def gen_part_count_def recorded_parts_def)

lemma later_attempt:
  assumes "db_wf (w_db w)" and "uploads_sized (w_db w)" and "server_run sv (Up w) s"
    and "a \<in> set (attempts (w_db w))" and "at_UploadID a = Some i"
  shows "\<exists>b. find (\<lambda>b. at_ID b = at_ID a) (attempts (w_db (world_of s))) = Some b \<and> same_identity a b \<and>
    at_PartCount b = Some (recorded_parts a)"
proof -
  have g: "grown (w_db w) (w_db (world_of s))" using server_run_grown [OF assms(3)] assms(1) by simp
  then have wf: "db_wf (w_db (world_of s))" by (simp add: grown_def)
  have sized: "uploads_sized (w_db (world_of s))" using sized.server_run_keeps [OF assms(3)] assms(2) by simp
  from g assms(4) obtain b where b: "b \<in> set (attempts (w_db (world_of s)))" and same: "same_identity a b"
    by (auto simp: grown_def history_def)
  have "at_PartCount b = Some (recorded_parts b)"
    by (rule sized_part_count [OF wf sized b]) (use same assms(5) in \<open>simp add: same_identity_def\<close>)
  moreover have "recorded_parts b = recorded_parts a" using same by (simp add: recorded_parts_def same_identity_def)
  moreover have "find (\<lambda>c. at_ID c = at_ID a) (attempts (w_db (world_of s))) = Some b"
    using find_by_id [OF wf b] same by (simp add: same_identity_def)
  ultimately show ?thesis using same by auto
qed

section \<open>The message of a multipart upload\<close>

text \<open>A part URL of a response, made for the part \<open>k\<close> of the upload \<open>i\<close>.\<close>

definition part_request :: "PresignedHTTPRequest \<Rightarrow> int16 \<Rightarrow> MultiPresignedHTTPRequest" where
  "part_request r k = \<lparr>mh_Request = Some \<lparr>rq_Url = Some (ph_URL r), rq_Method = Some (ph_Method r),
     rq_SignedHeader = header_values (ph_SignedHeader r)\<rparr>, mh_Part = Some (int32_of_int16 k)\<rparr>"

definition part_message :: "'s env \<Rightarrow> s3Storage \<Rightarrow> uploadIdentity \<Rightarrow> int16 \<Rightarrow> MultiPresignedHTTPRequest ptr \<Rightarrow> bool" where
  "part_message env st i k p \<longleftrightarrow> (\<exists>r s s'. PresignUploadPart (e_s3 env)
     \<lparr>up_Bucket = bucketName st, up_Key = ui_storageKey i, up_PartNumber = int32_of_int16 k,
      up_UploadId = ui_uploadId i, up_Expires = presignExpiry\<rparr> s = (Inr r, s') \<and> p = Some (part_request r k))"

lemma part_message_Ret:
  assumes "presigned_part env st i k q" and "convertToLotImageMultiPresignedHttpRequest q = Ret p"
  shows "part_message env st i k p"
proof -
  from assms(1) obtain r where "\<exists>s s'. PresignUploadPart (e_s3 env) \<lparr>up_Bucket = bucketName st, up_Key = ui_storageKey i,
      up_PartNumber = int32_of_int16 k, up_UploadId = ui_uploadId i, up_Expires = presignExpiry\<rparr> s = (Inr r, s')"
    and q: "mq_part q = k" "mq_request q = Some r" unfolding presigned_part_def by blast
  moreover from q assms(2) have "p = Some (part_request r k)"
    by (simp add: convertToLotImageMultiPresignedHttpRequest_def part_request_def)
  ultimately show ?thesis unfolding part_message_def by blast
qed

text \<open>The message \<open>m\<close> is for the upload of the attempt \<open>a\<close>: the parts that the object store has not listed have their URLs.\<close>

definition multi_message :: "'s env \<Rightarrow> s3Storage \<Rightarrow> ImageBlobUploadAttempt \<Rightarrow> MultiPresignedUploadUrl \<Rightarrow> bool" where
  "multi_message env st a m \<longleftrightarrow> (\<exists>i tags parts. ui_storageKey i = uuid_String (at_StorageKey a) \<and>
     at_UploadID a = Some (ui_uploadId i) \<and> parts_array (at_PartCount a) = Inr parts \<and>
     mu_MultipartAttemptId m = Some (word_of_int (at_ID a)) \<and> mu_UploadedEtags m = convertToUploadedEtags tags \<and>
     list_all2 (part_message env st i) (missing_parts tags parts) (mu_MultiParts m))"

lemma convert_single_url:
  "convertToPresignedFile (single_url f \<lparr>sU_request = Some q\<rparr>) = Ret (Some pf) \<Longrightarrow>
    PresignedUploadUrl_GetMulti (pf_PresignedUploadUrl pf) = None"
  by (auto simp: convertToPresignedFile_def Let_def PresignedUploadUrl_GetMulti_def single_url_def)

lemma convert_multi_url:
  assumes "convertToPresignedFile (multi_url f v) = Ret (Some pf)" and "PresignedUploadUrl_GetMulti (pf_PresignedUploadUrl pf) = Some m"
  shows "mapo convertToLotImageMultiPresignedHttpRequest (mU_requests v) = Ret (mu_MultiParts m) \<and>
    mu_MultipartAttemptId m = Some (word_of_int (mU_multipartAttemptId v)) \<and> mu_UploadedEtags m = convertToUploadedEtags (mU_imageEtags v)"
  using assms
  by (auto simp: convertToPresignedFile_def Let_def PresignedUploadUrl_GetMulti_def multi_url_def
      convertToLotImageMultiPartPresignedHttpRequest_def)

lemma serves_multi_message:
  assumes serves: "serves_attempt env st a u" and conv: "convertToPresignedFile u = Ret (Some pf)"
    and m: "PresignedUploadUrl_GetMulti (pf_PresignedUploadUrl pf) = Some m"
  shows "multi_message env st a m"
proof -
  have "u \<noteq> single_url f \<lparr>sU_request = Some q\<rparr>" for f q
    using convert_single_url [of f q pf] conv m by auto
  with serves obtain i ps parts tags reqs where i: "ui_storageKey i = uuid_String (at_StorageKey a)" "at_UploadID a = Some (ui_uploadId i)"
    and parts: "parts_array (at_PartCount a) = Inr parts" and reqs: "list_all2 (presigned_part env st i) (missing_parts tags parts) reqs"
    and u: "u = multi_url (pF_uploadFile u) \<lparr>mU_requests = reqs, mU_multipartAttemptId = at_ID a, mU_partSize = ps, mU_imageEtags = tags\<rparr>"
    unfolding serves_attempt_def by blast
  have "mapo convertToLotImageMultiPresignedHttpRequest reqs = Ret (mu_MultiParts m) \<and>
      mu_MultipartAttemptId m = Some (word_of_int (at_ID a)) \<and> mu_UploadedEtags m = convertToUploadedEtags tags"
    using convert_multi_url [where v = "\<lparr>mU_requests = reqs, mU_multipartAttemptId = at_ID a, mU_partSize = ps, mU_imageEtags = tags\<rparr>"
      and f = "pF_uploadFile u" and pf = pf, OF _ m] conv u by simp
  then have msgs: "mapo convertToLotImageMultiPresignedHttpRequest reqs = Ret (mu_MultiParts m)"
    and m: "mu_MultipartAttemptId m = Some (word_of_int (at_ID a))" "mu_UploadedEtags m = convertToUploadedEtags tags" by simp_all
  have "list_all2 (part_message env st i) (missing_parts tags parts) (mu_MultiParts m)"
    using reqs msgs part_message_Ret unfolding mapo_Ret_iff list_all2_conv_all_nth by metis
  with i parts m show ?thesis unfolding multi_message_def by blast
qed

text \<open>A response in its parts: the upload, which leaves the world it returns in, and the conversion of each URL.\<close>

lemma GeneratePresignedUrl_parts:
  assumes compl: "\<And>m. m \<in> set ms \<Longrightarrow> complete_image m"
    and run: "GeneratePresignedUrl env store (upload_request ms lotId) w = (Ret (Some resp), w')"
  obtains res where "initiateUpload env store (map upload_of ms) lotId w = (Ret res, w')"
    and "list_all2 (\<lambda>u p. convertToPresignedFile u = Ret p) (ur_presignedFileUrls res)
      (PresignFileResult_GetPresignedFiles (gs_PresignResult resp))"
proof -
  from run obtain res w1 where init: "initiateUpload env store (map upload_of ms) lotId w = (Ret res, w1)"
    and reply: "upload_reply res w1 = (Ret (Some resp), w')"
    by (auto simp: GeneratePresignedUrl_upload_request [OF compl] bindp_Ret_iff)
  have "keeps (\<lambda>v. v = w1) (upload_reply res)" by (rule keeps_upload_reply)
  from keepsD [OF this refl reply] have w1: "w' = w1" .
  from reply have "convertToPresignedImageFiles (ur_presignedFileUrls res) =
      Ret (PresignFileResult_GetPresignedFiles (gs_PresignResult resp))"
    by (auto simp: upload_reply_def bindp_Ret_iff liftp_iff PresignFileResult_GetPresignedFiles_def get_value_def simp del: bindp_liftp)
  then have "list_all2 (\<lambda>u p. convertToPresignedFile u = Ret p) (ur_presignedFileUrls res)
      (PresignFileResult_GetPresignedFiles (gs_PresignResult resp))"
    by (simp add: convertToPresignedImageFiles_def mapo_Ret_iff)
  with init show thesis unfolding w1 [symmetric] by (rule that)
qed

lemma GeneratePresignedUrl_multi_message:
  assumes wf: "db_wf (w_db w)" and ok: "random_ok env" "range_ok env" and ms: "\<And>m. m \<in> set ms \<Longrightarrow> good_image m"
    and left: "ids_left (w_db w) (length ms)"
    and run: "GeneratePresignedUrl env (Some store) (upload_request ms lotId) w = (Ret (Some resp), w')"
    and pf: "Some pf \<in> set (PresignFileResult_GetPresignedFiles (gs_PresignResult resp))"
    and m: "PresignedUploadUrl_GetMulti (pf_PresignedUploadUrl pf) = Some m"
  shows "\<exists>a \<in> set (attempts (w_db w')). multi_message env (is_s3Storage store) a m \<and> fits_int64 (at_ID a)"
proof -
  have compl: "\<And>m. m \<in> set ms \<Longrightarrow> complete_image m" using ms by (simp add: good_image_def)
  have sha: "lower_sha (uf_Sha256 f)" if "f \<in> set (map upload_of ms)" for f
    using that ms by (auto simp: good_image_def upload_of_sha)
  obtain res where init: "initiateUpload env (Some store) (map upload_of ms) lotId w = (Ret res, w')"
    and pfs: "list_all2 (\<lambda>u p. convertToPresignedFile u = Ret p) (ur_presignedFileUrls res)
      (PresignFileResult_GetPresignedFiles (gs_PresignResult resp))"
    using compl run by (rule GeneratePresignedUrl_parts)
  from list_all2_in_right [OF pfs pf] obtain u where u: "u \<in> set (ur_presignedFileUrls res)"
    and conv: "convertToPresignedFile u = Ret (Some pf)" by blast
  have "\<exists>lot a. uuid_Parse lotId = Inr lot \<and> find_pending (file_key lot (pF_uploadFile u)) (attempts (w_db w')) = Some a \<and>
      serves_attempt env (is_s3Storage store) a u"
    using wf ok sha init u by (rule initiateUpload_serves)
  then obtain lot a where "find_pending (file_key lot (pF_uploadFile u)) (attempts (w_db w')) = Some a"
    and serves: "serves_attempt env (is_s3Storage store) a u" by blast
  then have a: "a \<in> set (attempts (w_db w'))" by (auto dest: find_pending_SomeD)
  have "ids_drawn (w_db w) (length (map upload_of ms)) (w_db w')" using ok sha init by (rule initiateUpload_ids)
  with left a have "fits_int64 (at_ID a)" by (auto intro: ids_drawn_fit)
  with serves_multi_message [OF serves conv m] a show ?thesis by blast
qed

text \<open>A large image that is not stored gets such a message.\<close>

lemma list_all2_swap: "list_all2 R xs ys \<Longrightarrow> list_all2 (\<lambda>y x. R x y) ys xs"
  by (simp add: list_all2_conv_all_nth)

lemma convert_multi_url_message:
  "convertToPresignedFile (multi_url f v) = Ret p \<Longrightarrow> \<exists>pf m. p = Some pf \<and> PresignedUploadUrl_GetMulti (pf_PresignedUploadUrl pf) = Some m"
  by (auto simp: convertToPresignedFile_def Let_def PresignedUploadUrl_GetMulti_def multi_url_def)

lemma upload_answers_large:
  assumes "upload_answers env st lot d d' fs us" and "f \<in> set fs" and "\<not> is_single f"
  shows "\<exists>v. multi_url f v \<in> set us"
proof -
  from assms(1) obtain ts us1 us2 where ts: "map fst ts = filter (\<lambda>f. \<not> is_single f) fs"
    and multi: "list_all2 (multi_answer env st lot d d') ts us2" and us: "mset us = mset us1 + mset us2"
    unfolding upload_answers_def by blast
  from assms(2,3) have "f \<in> set (map fst ts)" by (simp add: ts)
  then obtain k where k: "k < length ts" "fst (ts ! k) = f" by (auto simp: in_set_conv_nth)
  then have "multi_answer env st lot d d' (ts ! k) (us2 ! k)" and len: "k < length us2" using multi by (auto simp: list_all2_conv_all_nth)
  then obtain v where "us2 ! k = multi_url f v" unfolding multi_answer_def k(2) by blast
  then have "multi_url f v \<in> set us2" using len by (metis nth_mem)
  moreover have "set us2 \<subseteq> set us" using us by (metis mset_subset_eq_add_right set_mset_mono set_mset_mset)
  ultimately show ?thesis by blast
qed

lemma large_image_message:
  assumes wf: "db_wf (w_db w)" and ok: "random_ok env" "range_ok env" and ms: "\<And>m. m \<in> set ms \<Longrightarrow> good_image m"
    and run: "GeneratePresignedUrl env (Some store) (upload_request ms lotId) w = (Ret (Some resp), w')"
    and f: "f \<in> set (fst (intentBatchUpload (map upload_of ms)))" "\<not> stored (w_db w) f" "\<not> is_single f"
  shows "\<exists>pf m. Some pf \<in> set (PresignFileResult_GetPresignedFiles (gs_PresignResult resp)) \<and>
    PresignedUploadUrl_GetMulti (pf_PresignedUploadUrl pf) = Some m"
proof -
  have compl: "\<And>m. m \<in> set ms \<Longrightarrow> complete_image m" using ms by (simp add: good_image_def)
  have sha: "lower_sha (uf_Sha256 f)" if "f \<in> set (map upload_of ms)" for f
    using that ms by (auto simp: good_image_def upload_of_sha)
  obtain res where init: "initiateUpload env (Some store) (map upload_of ms) lotId w = (Ret res, w')"
    and pfs: "list_all2 (\<lambda>u p. convertToPresignedFile u = Ret p) (ur_presignedFileUrls res)
      (PresignFileResult_GetPresignedFiles (gs_PresignResult resp))"
    using compl run by (rule GeneratePresignedUrl_parts)
  have "\<exists>lot s. uuid_Parse lotId = Inr lot \<and> Some store = Some s \<and> upload_done env (is_s3Storage s) lot (w_db w) (w_db w') (map upload_of ms) res"
    using wf ok sha init by (rule initiateUpload_Ret)
  then obtain lot files need where files: "intentBatchUpload (map upload_of ms) = (files, ur_duplicateFiles res)"
    and need: "mset need = mset (filter (\<lambda>f. \<not> stored (w_db w) f) files)"
    and ans: "upload_answers env (is_s3Storage store) lot (w_db w) (w_db w') need (ur_presignedFileUrls res)"
    unfolding upload_done_def by blast
  have "f \<in> set need" using f(1,2) mset_eq_setD [OF need] by (simp add: files)
  from upload_answers_large [OF ans this f(3)] obtain v where v: "multi_url f v \<in> set (ur_presignedFileUrls res)" by blast
  from list_all2_in_right [OF list_all2_swap [OF pfs] v] obtain p
    where "p \<in> set (PresignFileResult_GetPresignedFiles (gs_PresignResult resp))" and "convertToPresignedFile (multi_url f v) = Ret p"
    by blast
  with convert_multi_url_message [of f v p] show ?thesis by blast
qed

section \<open>The completion\<close>

lemma parts_array_Some: "parts_array (Some n) = Inr ps \<Longrightarrow> ps = map word_of_int [1..n]"
  by (auto simp: parts_array_def split: if_splits)

text \<open>The answer to a completion request for the upload \<open>i\<close> of \<open>n\<close> parts when the object store lists \<open>parts\<close>.\<close>

definition completion_input :: "uploadIdentity \<Rightarrow> CompletedPart list \<Rightarrow> CompleteMultipartUploadInput" where
  "completion_input i ps = \<lparr>cm_Bucket = access_point, cm_Key = ui_storageKey i, cm_UploadId = Some (ui_uploadId i), cm_Parts = ps\<rparr>"

definition completion_answer ::
  "'s env \<Rightarrow> server \<Rightarrow> goint \<Rightarrow> PartEtag list \<Rightarrow> uploadIdentity \<Rightarrow> int \<Rightarrow> s3_Part list \<Rightarrow> 's \<Rightarrow> 's world \<Rightarrow>
   (err, rpc_response option) outcome \<times> 's world" where
  "completion_answer env sv k es i n parts t w =
     (if int (length parts) \<noteq> n
      then (Fail (Leaf (Status (precondition_status (sv_any_new sv) (parts_missing_details (sint k))))), w\<lparr>w_s3 := t\<rparr>)
      else (Ret (Some (RespCompleteMultiPartUpload upload_completed)),
        w\<lparr>w_s3 := snd (CompleteMultipartUpload (e_s3 env) (completion_input i
          (if length es < 2 then map completed_part es else sv_sort sv part_cmp (map completed_part es))) t)\<rparr>))"

lemma serve_complete_later:
  assumes wf: "db_wf (w_db w)" and sized: "uploads_sized (w_db w)" and run: "server_run sv (Up w) (Up w')"
    and a: "a \<in> set (attempts (w_db w))" "at_UploadID a = Some (ui_uploadId i)" "ui_storageKey i = uuid_String (at_StorageKey a)"
    and k: "sint k = at_ID a" and acc: "accepts sv (MsgCompleteMultiPartUpload (complete_request k es))"
    and es: "\<And>p. p \<in> set es \<Longrightarrow> pe_Part p \<noteq> None" and store: "sv_imageStore sv = Some store" and item: "e_faults env QGetItem = None"
    and list: "ListParts (e_s3 env) \<lparr>lp_Bucket = access_point, lp_Key = ui_storageKey i, lp_UploadId = Some (ui_uploadId i)\<rparr> (w_s3 w') =
      (Inr parts, t)"
  shows "serve env sv (CallCompleteMultiPartUpload (Inr (complete_request k es))) w' =
    completion_answer env sv k es i (recorded_parts a) parts t w'"
proof -
  from later_attempt [OF wf sized run a(1,2)] obtain b where
    b: "find (\<lambda>b. at_ID b = sint k) (attempts (w_db w')) = Some b" "at_PartCount b = Some (recorded_parts a)" and same: "same_identity a b"
    using k by auto
  have inputs: "list_input access_point b = \<lparr>lp_Bucket = access_point, lp_Key = ui_storageKey i, lp_UploadId = Some (ui_uploadId i)\<rparr>"
    "complete_input access_point b ps = completion_input i ps" for ps
    using same a(2,3) by (simp_all add: list_input_def complete_input_def completion_input_def same_identity_def)
  have "serve env sv (CallCompleteMultiPartUpload (Inr (complete_request k es))) w' =
     (if int (length parts) \<noteq> recorded_parts a
      then (Fail (Leaf (Status (precondition_status (sv_any_new sv) (parts_missing_details (sint k))))), w'\<lparr>w_s3 := t\<rparr>)
      else (Ret (Some (RespCompleteMultiPartUpload upload_completed)),
        w'\<lparr>w_s3 := snd (CompleteMultipartUpload (e_s3 env) (complete_input access_point b
          (if length es < 2 then map completed_part es else sv_sort sv part_cmp (map completed_part es))) t)\<rparr>))"
    by (rule serve_complete_found [OF acc es store item b]) (simp_all add: inputs list)
  then show ?thesis by (simp only: completion_answer_def inputs)
qed

text \<open>The response as the service made it.\<close>

lemma return_err_not_Some: "return_err e v \<noteq> (Ret (Some r), v')"
  by (cases e) auto

lemma serve_upload_Ret:
  assumes acc: "accepts sv (MsgGeneratePresignedUrl m)"
    and "serve env sv (CallGeneratePresignedUrl (Inr m)) w = (Ret (Some (RespGeneratePresignedUrl resp)), w')"
  shows "GeneratePresignedUrl env (sv_imageStore sv) m w = (Ret (Some resp), w')"
proof -
  have "serve env sv (CallGeneratePresignedUrl (Inr m)) w =
      map_failure (toGRPCError (sv_any_new sv)) (rpc_method env sv (MsgGeneratePresignedUrl m)) w"
    by (rule serve_accepted [OF _ acc]) simp
  with assms(2) show ?thesis
    by (auto simp: return_err_not_Some return_err_not_Some [symmetric] map_failure_def as_response_def bindp_def split: prod.splits outcome.splits)
qed

lemma complete_after_upload_run:
  assumes wf: "db_wf (w_db w)" and sized: "uploads_sized (w_db w)" and ok: "random_ok env" "range_ok env"
    and ms: "\<And>m. m \<in> set ms \<Longrightarrow> good_image m" and acc: "accepts sv (MsgGeneratePresignedUrl (upload_request ms lotId))" and acc': "accepts sv (MsgCompleteMultiPartUpload (complete_request k es))"
    and store: "sv_imageStore sv = Some store"
    and first: "serve env sv (CallGeneratePresignedUrl (Inr (upload_request ms lotId))) w = (Ret (Some (RespGeneratePresignedUrl resp)), w1)"
    and pf: "Some pf \<in> set (PresignFileResult_GetPresignedFiles (gs_PresignResult resp))"
    and m: "PresignedUploadUrl_GetMulti (pf_PresignedUploadUrl pf) = Some m"
    and left: "ids_left (w_db w) (length ms)"
    and run: "server_run sv (Up w1) (Up w2)" and es: "\<And>p. p \<in> set es \<Longrightarrow> pe_Part p \<noteq> None"
    and item: "e_faults env' QGetItem = None" and k: "k = MultiPresignedUploadUrl_GetMultipartAttemptId (Some m)"
  shows "\<exists>i tags n. mu_UploadedEtags m = convertToUploadedEtags tags \<and>
    list_all2 (part_message env (is_s3Storage store) i) (missing_parts tags (map word_of_int [1..n])) (mu_MultiParts m) \<and>
    (\<forall>parts t. ListParts (e_s3 env') \<lparr>lp_Bucket = access_point, lp_Key = ui_storageKey i, lp_UploadId = Some (ui_uploadId i)\<rparr> (w_s3 w2) =
       (Inr parts, t) \<longrightarrow>
     serve env' sv (CallCompleteMultiPartUpload (Inr (complete_request k es))) w2 = completion_answer env' sv k es i n parts t w2)"
proof -
  have gen: "GeneratePresignedUrl env (Some store) (upload_request ms lotId) w = (Ret (Some resp), w1)"
    using serve_upload_Ret [OF acc first] store by simp
  from GeneratePresignedUrl_multi_message [OF wf ok ms left gen pf m] obtain a where a: "a \<in> set (attempts (w_db w1))"
    and msg: "multi_message env (is_s3Storage store) a m" and fits: "fits_int64 (at_ID a)" by blast
  from msg obtain i tags parts where i: "ui_storageKey i = uuid_String (at_StorageKey a)" "at_UploadID a = Some (ui_uploadId i)"
    and parts: "parts_array (at_PartCount a) = Inr parts" and m': "mu_MultipartAttemptId m = Some (word_of_int (at_ID a))"
    and etags: "mu_UploadedEtags m = convertToUploadedEtags tags"
    and urls: "list_all2 (part_message env (is_s3Storage store) i) (missing_parts tags parts) (mu_MultiParts m)"
    unfolding multi_message_def by blast
  have g: "grown (w_db w) (w_db w1)" using serve_grown [OF wf, of env sv] first by (metis snd_conv)
  then have wf1: "db_wf (w_db w1)" by (simp add: grown_def)
  have sized1: "uploads_sized (w_db w1)" using sized.serve_keeps [OF sized, of env sv] first by (metis snd_conv)
  have "parts = map word_of_int [1..recorded_parts a]"
    using parts sized_part_count [OF wf1 sized1 a i(2)] parts_array_Some by simp
  with urls have urls': "list_all2 (part_message env (is_s3Storage store) i)
      (missing_parts tags (map word_of_int [1..recorded_parts a])) (mu_MultiParts m)" by simp
  have k': "sint k = at_ID a"
    using k m' fits by (simp add: MultiPresignedUploadUrl_GetMultipartAttemptId_def get_scalar_def fits_int64_def
        int_word_sint)
  have "serve env' sv (CallCompleteMultiPartUpload (Inr (complete_request k es))) w2 =
      completion_answer env' sv k es i (recorded_parts a) ps t w2"
    if "ListParts (e_s3 env') \<lparr>lp_Bucket = access_point, lp_Key = ui_storageKey i, lp_UploadId = Some (ui_uploadId i)\<rparr> (w_s3 w2) =
       (Inr ps, t)" for ps t
    by (rule serve_complete_later [OF wf1 sized1 run a i(2,1) k' acc' es store item that])
  with etags urls' show ?thesis by blast
qed

end
