(* ===== verification/Started_Uploads.thy ===== *)
theory Started_Uploads
  imports Upload_Resume
begin

text \<open>
  The multipart uploads that a request starts in the object store. \<open>extractFileData\<close> starts one for every large file before
  the database is asked whether the file has a pending attempt; when it has one, the attempt keeps its upload id, and the
  upload that was just started is in no table.
\<close>

section \<open>Counting\<close>

text \<open>A number that the object store adds one to whenever it is asked to start a multipart upload, and at no other call.\<close>

definition counts_uploads :: "('s \<Rightarrow> nat) \<Rightarrow> 's s3_api \<Rightarrow> bool" where
  "counts_uploads started api \<longleftrightarrow>
     (\<forall>b k t. started (snd (CreateMultipartUpload api b k t)) = started t + 1) \<and>
     (\<forall>i t. started (snd (ListParts api i t)) = started t) \<and> (\<forall>i t. started (snd (CompleteMultipartUpload api i t)) = started t) \<and>
     (\<forall>i t. started (snd (PresignPutObject api i t)) = started t) \<and> (\<forall>i t. started (snd (PresignUploadPart api i t)) = started t)"

lemma uncounted_on_db: "keeps (\<lambda>w. I (w_s3 w)) (on_db m)"
  by (rule keepsI) (simp add: on_db_def split: prod.splits)

lemma uncounted_NewRandom: "keeps (\<lambda>w. I (w_s3 w)) (NewRandom env)"
  by (rule keepsI) (simp add: NewRandom_def)

lemma uncounted_calls:
  assumes "counts_uploads started (e_s3 env)"
  shows "keeps (\<lambda>w. started (w_s3 w) = n) (on_s3 (ListParts (e_s3 env) i1))"
    and "keeps (\<lambda>w. started (w_s3 w) = n) (on_s3 (PresignPutObject (e_s3 env) i2))"
    and "keeps (\<lambda>w. started (w_s3 w) = n) (on_s3 (PresignUploadPart (e_s3 env) i3))"
  using assms by (auto simp: keeps_def on_s3_def counts_uploads_def case_prod_beta)

lemma uncounted_presign_part:
  "counts_uploads started (e_s3 env) \<Longrightarrow> keeps (\<lambda>w. started (w_s3 w) = n) (presign_part env st u wrap k)"
  unfolding presign_part_def by (intro keeps_intros uncounted_calls)

lemma uncounted_listNotUploadedParts:
  "counts_uploads started (e_s3 env) \<Longrightarrow> keeps (\<lambda>w. started (w_s3 w) = n) (listNotUploadedParts env st u ks)"
  unfolding listNotUploadedParts_def by (intro keeps_intros uncounted_calls)

lemma uncounted_createSingle:
  "counts_uploads started (e_s3 env) \<Longrightarrow> keeps (\<lambda>w. started (w_s3 w) = n) (createSinglePresignedFileUrl env st lot s)"
  unfolding createSinglePresignedFileUrl_def generateSinglePresignedPutObjectUrl_def Let_def
  by (intro keeps_intros uncounted_on_db uncounted_calls)

lemma uncounted_createMultipart:
  assumes "counts_uploads started (e_s3 env)"
  shows "keeps (\<lambda>w. started (w_s3 w) = n) (createMultipartPresignedFileUrl env st lot m)"
proof -
  note parts = uncounted_presign_part [OF assms] uncounted_listNotUploadedParts [OF assms]
  have "keeps (\<lambda>w. started (w_s3 w) = n) (generateResumeUploadUrls env st u ks)" for u ks
    unfolding generateResumeUploadUrls_def generateExistingMultiPartPresignedUrl_def case_prod_beta by (intro keeps_intros parts)
  moreover have "keeps (\<lambda>w. started (w_s3 w) = n) (generateNewMultiPartUploadUrls env st u ks)" for u ks
    unfolding generateNewMultiPartUploadUrls_def by (intro keeps_intros parts)
  ultimately show ?thesis
    unfolding createMultipartPresignedFileUrl_def generateUrlsForNewUploads_def genrateUrlsForResumableUploads_def case_prod_beta
    by (intro keeps_intros uncounted_on_db)
qed

section \<open>One upload for each large file\<close>

lemma extract_loop_counts:
  assumes "counts_uploads started (e_s3 env)" and "extract_loop env st fs acc w = (Ret ex, w')"
  shows "started (w_s3 w') = started (w_s3 w) + length (filter (\<lambda>f. \<not> is_single f) fs)"
  using assms(2)
proof (induction fs arbitrary: acc w)
  case (Cons f fs)
  show ?case
  proof (cases "is_single f")
    case True
    with Cons show ?thesis by (simp add: is_single_def)
  next
    case False
    with Cons.prems obtain u w1 key id w2 where
      uuid: "makeUUIDText env w = (Ret u, w1)" and id: "generateMultiPartUploadId env st u w1 = (Ret id, w2)"
      and rest: "extract_loop env st fs (acc\<lparr>ex_multipartFile := add_multi f key id (ex_multipartFile acc)\<rparr>) w2 = (Ret ex, w')"
      by (auto simp: is_single_def bindp_Ret_iff on_error_Ret_iff liftp_iff simp del: bindp_liftp)
    have "keeps (\<lambda>v. started (w_s3 v) = started (w_s3 w)) (makeUUIDText env)"
      unfolding makeUUIDText_def by (intro keeps_intros uncounted_NewRandom)
    from keepsD [OF this refl uuid] have "started (w_s3 w1) = started (w_s3 w)" .
    moreover have "started (w_s3 w2) = started (w_s3 w1) + 1"
      using id assms(1)
      by (auto simp: generateMultiPartUploadId_def bindp_Ret_iff on_error_Ret_iff on_s3_Ret_iff counts_uploads_def) (metis snd_conv)
    ultimately show ?thesis using Cons.IH [OF rest] False by simp
  qed
qed simp

lemma generateS3UploadUrl_counts:
  assumes c: "counts_uploads started (e_s3 env)" and run: "generateS3UploadUrl env st lot fs w = (Ret us, w')"
  shows "started (w_s3 w') = started (w_s3 w) + length (filter (\<lambda>f. \<not> is_single f) fs)"
proof -
  obtain ex w1 where ext: "extractFileData env st fs w = (Ret ex, w1)"
    and rest: "bindp (if length (sd_Sha256s (ex_singleFile ex)) > 0
            then createSinglePresignedFileUrl env st lot (ex_singleFile ex) else liftp (Ret []))
       (\<lambda>us1. bindp (if length (md_Sha256s (ex_multipartFile ex)) > 0
            then createMultipartPresignedFileUrl env st lot (ex_multipartFile ex) else liftp (Ret []))
         (\<lambda>us2. liftp (Ret (us1 @ us2)))) w1 = (Ret us, w')"
    using run by (auto simp: generateS3UploadUrl_def bindp_Ret_iff)
  have "keeps (\<lambda>v. started (w_s3 v) = started (w_s3 w1)) (bindp (if length (sd_Sha256s (ex_singleFile ex)) > 0
            then createSinglePresignedFileUrl env st lot (ex_singleFile ex) else liftp (Ret []))
       (\<lambda>us1. bindp (if length (md_Sha256s (ex_multipartFile ex)) > 0
            then createMultipartPresignedFileUrl env st lot (ex_multipartFile ex) else liftp (Ret []))
         (\<lambda>us2. liftp (Ret (us1 @ us2)))))"
    by (intro keeps_intros uncounted_createSingle uncounted_createMultipart c)
  from keepsD [OF this refl rest]
  have "started (w_s3 w') = started (w_s3 w1)" .
  with extract_loop_counts [OF c ext [unfolded extractFileData_def]] show ?thesis by simp
qed

lemma initiateUpload_counts:
  assumes c: "counts_uploads started (e_s3 env)" and rng: "range_ok env"
    and sha: "\<And>f. f \<in> set fs \<Longrightarrow> lower_sha (uf_Sha256 f)"
    and run: "initiateUpload env store fs lotId w = (Ret res, w')"
  shows "started (w_s3 w') = started (w_s3 w) +
    length (filter (\<lambda>f. \<not> is_single f \<and> \<not> stored (w_db w) f) (fst (intentBatchUpload fs)))"
proof -
  let ?files = "fst (intentBatchUpload fs)"
  obtain lot already urls and s :: ImageStore where "upload_body env (is_s3Storage s) lot ?files w = (Ret (already, urls), w')"
    by (rule initiateUpload_Ret_cases [OF run]) (rule that)
  then obtain need w1 where skip: "skipUploadForIdenticalImageBlobs env ?files lot w = (Ret (need, already), w1)"
    and gen: "generateS3UploadUrl env (is_s3Storage s) lot need w1 = (Ret urls, w')"
    by (auto simp: upload_body_def bindp_Ret_iff case_prod_beta)
  have "mset need = mset (filter (\<lambda>f. \<not> stored (w_db w) f) ?files)"
    by (rule skip_Ret(1) [OF _ _ rng skip]) (use sha fresh_subset in \<open>auto simp: intentBatchUpload_eq fresh_distinct\<close>)
  then have "mset (filter (\<lambda>f. \<not> is_single f) need) = mset (filter (\<lambda>f. \<not> is_single f) (filter (\<lambda>f. \<not> stored (w_db w) f) ?files))"
    by (simp only: mset_filter)
  then have "length (filter (\<lambda>f. \<not> is_single f) need) = length (filter (\<lambda>f. \<not> is_single f) (filter (\<lambda>f. \<not> stored (w_db w) f) ?files))"
    by (rule mset_eq_length)
  moreover have "keeps (\<lambda>v. started (w_s3 v) = started (w_s3 w)) (skipUploadForIdenticalImageBlobs env ?files lot)"
    unfolding skipUploadForIdenticalImageBlobs_def Let_def by (intro keeps_intros uncounted_on_db)
  then have "started (w_s3 w1) = started (w_s3 w)" using skip by (auto dest: keepsD)
  ultimately show ?thesis using generateS3UploadUrl_counts [OF c gen] by (simp add: conj_commute)
qed

end
