(* ===== verification/Lifecycle_Properties.thy ===== *)
theory Lifecycle_Properties
  imports Sample_World Upload_Completion Server_Ledger Started_Uploads
begin

text \<open>
  The properties of an image over several requests: from the announcement of a large file to the completion of its upload,
  and the links between lots and images.
\<close>

section \<open>Samples\<close>

text \<open>The sample database when the pending attempt has parts of the size that the program uses.\<close>

definition sized_attempt :: ImageBlobUploadAttempt where
  "sized_attempt = sample_attempt\<lparr>at_PartSize := Some partSize, at_PartCount := Some 15\<rparr>"

definition sized_world :: "unit world" where
  "sized_world = sample_world\<lparr>w_db := sample_db\<lparr>attempts := [sized_attempt]\<rparr>\<rparr>"

lemma sized_world_wf: "db_wf (w_db sized_world)"
  by (simp add: db_wf_def sized_world_def sized_attempt_def sample_db_def attempts_wf_def sample_attempt_def lot_ids_def is_pending_def
      gen_part_count_def sdiv_nonneg partSize_def)

lemma sized_world_sized: "uploads_sized (w_db sized_world)"
  by (simp add: uploads_sized_def upload_sized_def sized_world_def sized_attempt_def sample_attempt_def)

lemma sized_world_lot: "sample_lot_id \<in> lot_ids (w_db sized_world)"
  by (simp add: sized_world_def sample_db_def lot_ids_def)

lemma sized_world_left: "ids_left (w_db sized_world) 1"
  by (simp add: ids_left_def sized_world_def sample_db_def sized_attempt_def sample_attempt_def fits_int64_def)

lemma sized_can_resume: "can_resume sample_lot_id (w_db sized_world) f"
  by (simp add: can_resume_def find_pending_def sized_world_def sized_attempt_def sample_db_def sample_attempt_def resumable_def partSize_def)

abbreviation large_image :: ImageFile where
  "large_image \<equiv> sample_image CHR ''c'' 157286400"

lemma sample_large_response:
  "\<exists>resp w1 pf m. serve sample_env sample_server (CallGeneratePresignedUrl (Inr (upload_request [large_image] sample_lot_text))) sized_world =
      (Ret (Some (RespGeneratePresignedUrl resp)), w1) \<and>
    Some pf \<in> set (PresignFileResult_GetPresignedFiles (gs_PresignResult resp)) \<and>
    PresignedUploadUrl_GetMulti (pf_PresignedUploadUrl pf) = Some m"
proof -
  let ?ms = "[large_image]"
  have good: "\<And>m. m \<in> set ?ms \<Longrightarrow> good_image m" by (simp add: sample_good_image)
  have files: "\<And>f. f \<in> set (map upload_of ?ms) \<Longrightarrow> servable f" by (simp add: sample_servable)
  obtain res w1 where run: "initiateUpload sample_env (Some sample_store) (map upload_of ?ms) sample_lot_text sized_world = (Ret res, w1)"
    using initiateUpload_succeeds [OF sample_outside sized_world_wf files sample_parse sized_world_lot sized_can_resume] by blast
  then obtain resp where gen: "GeneratePresignedUrl sample_env (Some sample_store) (upload_request ?ms sample_lot_text) sized_world = (Ret (Some resp), w1)"
    using GeneratePresignedUrl_after [OF sized_world_wf outside_okD(4,6) [OF sample_outside] good run] by blast
  have "\<exists>pf m. Some pf \<in> set (PresignFileResult_GetPresignedFiles (gs_PresignResult resp)) \<and>
      PresignedUploadUrl_GetMulti (pf_PresignedUploadUrl pf) = Some m"
  proof (rule large_image_message [OF sized_world_wf outside_okD(4,6) [OF sample_outside] good gen])
    show "upload_of large_image \<in> set (fst (intentBatchUpload (map upload_of ?ms)))" by (simp add: intentBatchUpload_eq)
    have "sha_bytes (sample_sha CHR ''c'') = replicate 32 0xcc" unfolding sha_bytes_def sample_sha_def by code_simp
    moreover have "(replicate 32 0xbb :: bytes) \<noteq> replicate 32 0xcc" by code_simp
    ultimately show "\<not> stored (w_db sized_world) (upload_of large_image)"
      by (simp add: stored_def completed_blob_def sized_world_def sample_db_def upload_of_def sample_image_def)
    show "\<not> is_single (upload_of large_image)" by (simp add: is_single_def upload_of_def sample_image_def multipartThreshold_def)
  qed
  moreover have "serve sample_env sample_server (CallGeneratePresignedUrl (Inr (upload_request ?ms sample_lot_text))) sized_world =
      (Ret (Some (RespGeneratePresignedUrl resp)), w1)"
  proof -
    have "rpc_method sample_env sample_server (MsgGeneratePresignedUrl (upload_request ?ms sample_lot_text)) sized_world =
        (Ret (Some (RespGeneratePresignedUrl resp)), w1)"
      using gen sample_complete_hyps(2) by (simp add: as_response_simps)
    then show ?thesis by (subst serve_accepted [OF _ sample_accepts]) (simp, rule map_failure_simps(1))
  qed
  ultimately show ?thesis by blast
qed

section \<open>From the announcement to the completion\<close>

text \<open>C8: the attempt id in the message of a multipart upload leads, after any run of the server, back to that upload: the
  message has a URL for every part from 1 to \<open>n\<close> that the object store had not listed, each made for the same object and
  upload, and a completion request with that id asks the object store for just this object and upload. It is answered with success,
  after one call that completes the upload from the parts of the request, when the store lists \<open>n\<close> parts, and with
  \<open>FailedPrecondition\<close> when it lists fewer or more.\<close>

theorem complete_after_upload:
  assumes "db_wf (w_db w)" and "uploads_sized (w_db w)" and "ids_left (w_db w) (length ms)" and "random_ok env" and "range_ok env"
    and "\<And>m. m \<in> set ms \<Longrightarrow> good_image m"
    and "accepts sv (MsgGeneratePresignedUrl (upload_request ms lotId))" and "accepts sv (MsgCompleteMultiPartUpload (complete_request k es))"
    and "sv_imageStore sv = Some store"
    and "serve env sv (CallGeneratePresignedUrl (Inr (upload_request ms lotId))) w = (Ret (Some (RespGeneratePresignedUrl resp)), w1)"
    and "Some pf \<in> set (PresignFileResult_GetPresignedFiles (gs_PresignResult resp))"
    and "PresignedUploadUrl_GetMulti (pf_PresignedUploadUrl pf) = Some m"
    and "server_run sv (Up w1) (Up w2)" and "\<And>p. p \<in> set es \<Longrightarrow> pe_Part p \<noteq> None" and "e_faults env' QGetItem = None"
    and "k = MultiPresignedUploadUrl_GetMultipartAttemptId (Some m)"
  shows "\<exists>i tags n. mu_UploadedEtags m = convertToUploadedEtags tags \<and>
    list_all2 (part_message env (is_s3Storage store) i) (missing_parts tags (map word_of_int [1..n])) (mu_MultiParts m) \<and>
    (\<forall>parts t. ListParts (e_s3 env') \<lparr>lp_Bucket = access_point, lp_Key = ui_storageKey i, lp_UploadId = Some (ui_uploadId i)\<rparr> (w_s3 w2) =
       (Inr parts, t) \<longrightarrow>
     serve env' sv (CallCompleteMultiPartUpload (Inr (complete_request k es))) w2 = completion_answer env' sv k es i n parts t w2)"
  using assms(1,2,4-9,10-12,3,13-16) by (rule complete_after_upload_run)

theorem complete_after_upload_witness:
  "\<exists>resp w1 pf m i tags n. serve sample_env sample_server (CallGeneratePresignedUrl (Inr (upload_request [large_image] sample_lot_text)))
      sized_world = (Ret (Some (RespGeneratePresignedUrl resp)), w1) \<and>
    Some pf \<in> set (PresignFileResult_GetPresignedFiles (gs_PresignResult resp)) \<and>
    list_all2 (part_message sample_env (is_s3Storage sample_store) i) (missing_parts tags (map word_of_int [1..n])) (mu_MultiParts m) \<and>
    serve sample_env sample_server (CallCompleteMultiPartUpload (Inr (complete_request
        (MultiPresignedUploadUrl_GetMultipartAttemptId (Some m)) [sample_part]))) w1 =
      completion_answer sample_env sample_server (MultiPresignedUploadUrl_GetMultipartAttemptId (Some m)) [sample_part] i n
        [\<lparr>s3p_ETag = Some ''e1'', s3p_PartNumber = Some 1\<rparr>] () w1"
proof -
  obtain resp w1 pf m where run: "serve sample_env sample_server
      (CallGeneratePresignedUrl (Inr (upload_request [large_image] sample_lot_text))) sized_world = (Ret (Some (RespGeneratePresignedUrl resp)), w1)"
    and pf: "Some pf \<in> set (PresignFileResult_GetPresignedFiles (gs_PresignResult resp))"
    and m: "PresignedUploadUrl_GetMulti (pf_PresignedUploadUrl pf) = Some m" using sample_large_response by blast
  have good: "\<And>m. m \<in> set [large_image] \<Longrightarrow> good_image m" by (simp add: sample_good_image)
  have left: "ids_left (w_db sized_world) (length [large_image])" using sized_world_left by simp
  from complete_after_upload [OF sized_world_wf sized_world_sized left outside_okD(4,6) [OF sample_outside] good sample_accepts sample_accepts
      sample_complete_hyps(2) run pf m rtranclp.rtrancl_refl sample_complete_hyps(1,3) refl]
  obtain i tags n where urls: "list_all2 (part_message sample_env (is_s3Storage sample_store) i)
      (missing_parts tags (map word_of_int [1..n])) (mu_MultiParts m)"
    and answer: "\<forall>parts t. ListParts (e_s3 sample_env) \<lparr>lp_Bucket = access_point, lp_Key = ui_storageKey i,
         lp_UploadId = Some (ui_uploadId i)\<rparr> (w_s3 w1) = (Inr parts, t) \<longrightarrow>
      serve sample_env sample_server (CallCompleteMultiPartUpload (Inr (complete_request
        (MultiPresignedUploadUrl_GetMultipartAttemptId (Some m)) [sample_part]))) w1 =
      completion_answer sample_env sample_server (MultiPresignedUploadUrl_GetMultipartAttemptId (Some m)) [sample_part] i n parts t w1"
    by blast
  have "ListParts (e_s3 sample_env) \<lparr>lp_Bucket = access_point, lp_Key = ui_storageKey i, lp_UploadId = Some (ui_uploadId i)\<rparr> (w_s3 w1) =
      (Inr [\<lparr>s3p_ETag = Some ''e1'', s3p_PartNumber = Some 1\<rparr>], ())" by (simp add: sample_env_def sample_s3_def)
  with run pf urls answer show ?thesis by blast
qed

text \<open>C34: a successful request of files with lower-case SHA-256 hashes starts in the object store one multipart upload for every large
  file, duplicates apart, that is not stored, also for one that has a pending attempt; and every attempt that was pending keeps the upload id
  that it had.\<close>

theorem large_images_start_uploads:
  assumes "db_wf (w_db w)" and "range_ok env" and "counts_uploads started (e_s3 env)"
    and "\<And>f. f \<in> set fs \<Longrightarrow> lower_sha (uf_Sha256 f)" and "initiateUpload env store fs lotId w = (Ret res, w')"
  shows "started (w_s3 w') = started (w_s3 w) +
      length (filter (\<lambda>f. multipartThreshold \<le> uint (uf_FileSize f) \<and> \<not> stored (w_db w) f) (fst (intentBatchUpload fs))) \<and>
    (\<forall>k a. find_pending k (attempts (w_db w)) = Some a \<longrightarrow>
      (\<exists>a'. find_pending k (attempts (w_db w')) = Some a' \<and> at_UploadID a' = at_UploadID a))"
proof (intro conjI allI impI)
  show "started (w_s3 w') = started (w_s3 w) +
      length (filter (\<lambda>f. multipartThreshold \<le> uint (uf_FileSize f) \<and> \<not> stored (w_db w) f) (fst (intentBatchUpload fs)))"
    using initiateUpload_counts [OF assms(3,2,4,5)] by (simp add: is_single_def not_less)
  have "grown (w_db w) (w_db w')" using initiateUpload_grown [OF assms(1), of env store fs lotId] assms(5) by simp
  then show "\<exists>a'. find_pending k (attempts (w_db w')) = Some a' \<and> at_UploadID a' = at_UploadID a"
    if "find_pending k (attempts (w_db w)) = Some a" for k a
    using that grown_pending by (fastforce simp: same_identity_def)
qed

text \<open>The object store of the samples, which counts the uploads that it starts.\<close>

definition meter_env :: "nat env" where
  "meter_env = \<lparr>e_faults = (\<lambda>_. None), e_sql = sample_sql_env, e_begin = None, e_commit = CommitOk,
     e_rand = (\<lambda>n. Inr (replicate 16 (word_of_nat n))), e_range = (\<lambda>ks. ks),
     e_s3 = \<lparr>CreateMultipartUpload = (\<lambda>b k n. (Inr (Some ''up''), n + 1)),
       ListParts = (\<lambda>i n. (Inr [\<lparr>s3p_ETag = Some ''e1'', s3p_PartNumber = Some 1\<rparr>], n)),
       CompleteMultipartUpload = (\<lambda>i n. (Inr (), n)),
       PresignPutObject = (\<lambda>i n. (Inr sample_request, n)), PresignUploadPart = (\<lambda>i n. (Inr sample_request, n))\<rparr>\<rparr>"

definition meter_world :: "nat world" where
  "meter_world = \<lparr>w_db = w_db sized_world, w_s3 = 0, w_rand = 0\<rparr>"

theorem large_images_start_uploads_witness:
  "\<exists>res w' a'. initiateUpload meter_env (Some sample_store) [upload_of large_image] sample_lot_text meter_world = (Ret res, w') \<and>
    w_s3 w' = 1 \<and> find_pending (replicate 32 0xcc, sample_lot_id) (attempts (w_db w')) = Some a' \<and> at_UploadID a' = Some ''old''"
proof -
  have ok: "outside_ok meter_env"
    by (simp add: outside_ok_def meter_env_def random_ok_def range_ok_def answers_def)
  have wf: "db_wf (w_db meter_world)" using sized_world_wf by (simp add: meter_world_def)
  have lot: "sample_lot_id \<in> lot_ids (w_db meter_world)" using sized_world_lot by (simp add: meter_world_def)
  have old: "\<And>f. can_resume sample_lot_id (w_db meter_world) f" using sized_can_resume by (simp add: meter_world_def)
  have files: "\<And>f. f \<in> set [upload_of large_image] \<Longrightarrow> servable f" by (simp add: sample_servable)
  obtain res w' where run: "initiateUpload meter_env (Some sample_store) [upload_of large_image] sample_lot_text meter_world = (Ret res, w')"
    using initiateUpload_succeeds [OF ok wf files sample_parse lot old] by blast
  have counts: "counts_uploads (\<lambda>n. n) (e_s3 meter_env)" by (simp add: counts_uploads_def meter_env_def)
  have sha: "\<And>f. f \<in> set [upload_of large_image] \<Longrightarrow> lower_sha (uf_Sha256 f)" using files by (auto simp: servable_def)
  have "sha_bytes (sample_sha CHR ''c'') = replicate 32 0xcc" unfolding sha_bytes_def sample_sha_def by code_simp
  moreover have "(replicate 32 0xbb :: bytes) \<noteq> replicate 32 0xcc" by code_simp
  ultimately have new: "\<not> stored (w_db meter_world) (upload_of large_image)"
    by (simp add: stored_def completed_blob_def meter_world_def sized_world_def sample_db_def upload_of_def sample_image_def)
  have large: "multipartThreshold \<le> uint (uf_FileSize (upload_of large_image))"
    by (simp add: upload_of_def sample_image_def multipartThreshold_def)
  have batch: "fst (intentBatchUpload [upload_of large_image]) = [upload_of large_image]" by (simp add: intentBatchUpload_eq)
  have pending: "find_pending (replicate 32 0xcc, sample_lot_id) (attempts (w_db meter_world)) = Some sized_attempt"
    by (simp add: find_pending_def is_pending_def pending_key_def meter_world_def sized_world_def sized_attempt_def sample_attempt_def)
  have "at_UploadID sized_attempt = Some ''old''" "w_s3 meter_world = 0"
    by (simp_all add: sized_attempt_def sample_attempt_def meter_world_def)
  moreover note both = large_images_start_uploads [OF wf outside_okD(6) [OF ok] counts sha run]
  from both [THEN conjunct2] pending obtain a' where
    "find_pending (replicate 32 0xcc, sample_lot_id) (attempts (w_db w')) = Some a'" "at_UploadID a' = at_UploadID sized_attempt" by blast
  moreover have "w_s3 w' = w_s3 meter_world + 1" using both [THEN conjunct1] new large batch by simp
  ultimately show ?thesis using run by simp
qed

section \<open>Links\<close>

text \<open>C11: in any run of the server, whatever requests come and whatever the outside answers, every link of a lot is to an image whose
  upload is complete, and every started upload has the type and the part size that make its part count.\<close>

theorem only_uploaded_images_linked:
  assumes "server_run sv s s'" and "links_completed (w_db (world_of s))" and "uploads_sized (w_db (world_of s))"
  shows "links_completed (w_db (world_of s')) \<and> uploads_sized (w_db (world_of s'))"
  using completed.server_run_keeps [OF assms(1,2)] sized.server_run_keeps [OF assms(1,3)] ..

theorem only_uploaded_images_linked_witness:
  "\<exists>s'. server_step sample_server (Up sized_world) s' \<and> links_completed (w_db (world_of s')) \<and> uploads_sized (w_db (world_of s'))"
proof -
  obtain resp w1 where run: "serve sample_env sample_server
      (CallGeneratePresignedUrl (Inr (upload_request [large_image] sample_lot_text))) sized_world = (Ret (Some (RespGeneratePresignedUrl resp)), w1)"
    using sample_large_response by blast
  have step: "server_step sample_server (Up sized_world) (Up w1)" by (rule server_step.answered [OF run]) simp
  have "links_completed (w_db (world_of (Up sized_world)))" by (simp add: links_completed_def sized_world_def sample_db_def)
  moreover have "uploads_sized (w_db (world_of (Up sized_world)))" using sized_world_sized by simp
  moreover have "server_run sample_server (Up sized_world) (Up w1)" using step by (rule r_into_rtranclp)
  ultimately show ?thesis using only_uploaded_images_linked step by blast
qed

text \<open>C18: every successful request, all of whose files have lower-case SHA-256 hashes, adds one link from its lot to each stored image
  that it lists, also when the lot has one already: a batch that is announced again shows its images again.\<close>

theorem stored_image_linked_again:
  assumes "db_wf (w_db w)" and "random_ok env" and "range_ok env" and "\<And>f. f \<in> set fs \<Longrightarrow> lower_sha (uf_Sha256 f)"
    and "initiateUpload env store fs lotId w = (Ret res, w')" and "uuid_Parse lotId = Inr lot"
    and "f \<in> set fs" and "completed_blob (w_db w) (sha_bytes (uf_Sha256 f)) = Some b"
  shows "length (filter (\<lambda>l. li_LotID l = lot \<and> li_ImageBlobID l = ib_ImageBlobID b) (lot_images (w_db w'))) =
    length (filter (\<lambda>l. li_LotID l = lot \<and> li_ImageBlobID l = ib_ImageBlobID b) (lot_images (w_db w))) + 1"
proof -
  have "link_count (w_db w') lot b = link_count (w_db w) lot b + 1" using assms by (rule initiateUpload_link_count)
  then show ?thesis unfolding link_count_def .
qed

theorem stored_image_linked_again_witness:
  "\<exists>res w' (b :: ImageBlob). initiateUpload sample_env (Some sample_store) (map upload_of sample_images) sample_lot_text sample_world = (Ret res, w') \<and>
    length (filter (\<lambda>l. li_LotID l = sample_lot_id \<and> li_ImageBlobID l = ib_ImageBlobID b) (lot_images (w_db w'))) = 1"
proof -
  obtain res w' where run: "initiateUpload sample_env (Some sample_store) (map upload_of sample_images) sample_lot_text sample_world = (Ret res, w')"
    using sample_upload_run by blast
  let ?f = "upload_of (sample_image CHR ''b'' 5)"
  have "sha_bytes (sample_sha CHR ''b'') = replicate 32 0xbb" unfolding sha_bytes_def sample_sha_def by code_simp
  then obtain b where b: "completed_blob (w_db sample_world) (sha_bytes (uf_Sha256 ?f)) = Some b"
    by (simp add: completed_blob_def sample_world_def sample_db_def upload_of_def sample_image_def)
  have sha: "\<And>f. f \<in> set (map upload_of sample_images) \<Longrightarrow> lower_sha (uf_Sha256 f)"
    using sample_images_servable by (auto simp: servable_def)
  have "?f \<in> set (map upload_of sample_images)" by (simp add: sample_images_def)
  note again = stored_image_linked_again [OF sample_world_wf outside_okD(4,6) [OF sample_outside] sha run sample_parse this b]
  have "lot_images (w_db sample_world) = []" by (simp add: sample_world_def sample_db_def)
  with again have "length (filter (\<lambda>l. li_LotID l = sample_lot_id \<and> li_ImageBlobID l = ib_ImageBlobID b) (lot_images (w_db w'))) = 1"
    by (simp only: filter.simps list.size add_0)
  with run show ?thesis by blast
qed

section \<open>The server as a ledger\<close>

text \<open>C3: the server refines the ledger: in any run, whatever the requests ask and whatever the outside answers, each request is,
  with its outcome, a step of the ledger. One without a response changes nothing, unless it is an announcement; a created lot is the
  one of its response; an announcement only adds links of its own lot to images that are there, and uploads of its own lot.\<close>

theorem server_refines_ledger:
  assumes "server_trace sv tr s s'" and "db_wf (w_db (world_of s))"
  shows "ledger_trace tr (ledger_of (w_db (world_of s))) (ledger_of (w_db (world_of s')))"
  using assms by (rule server_trace_ledger)

lemma large_response_trace:
  "\<exists>r w1. server_trace sample_server [(CallGeneratePresignedUrl (Inr (upload_request [large_image] sample_lot_text)), r)]
      (Up sized_world) (Up w1)"
proof -
  obtain resp w1 where "serve sample_env sample_server
      (CallGeneratePresignedUrl (Inr (upload_request [large_image] sample_lot_text))) sized_world = (Ret (Some (RespGeneratePresignedUrl resp)), w1)"
    using sample_large_response by blast
  from server_call [OF this server_done] show ?thesis unfolding next_state_def by auto
qed

theorem server_refines_ledger_witness:
  "\<exists>r w1. server_trace sample_server [(CallGeneratePresignedUrl (Inr (upload_request [large_image] sample_lot_text)), r)]
      (Up sized_world) (Up w1) \<and>
    ledger_trace [(CallGeneratePresignedUrl (Inr (upload_request [large_image] sample_lot_text)), r)]
      (ledger_of (w_db sized_world)) (ledger_of (w_db w1))"
proof -
  obtain r w1 where run: "server_trace sample_server [(CallGeneratePresignedUrl (Inr (upload_request [large_image] sample_lot_text)), r)]
      (Up sized_world) (Up w1)" using large_response_trace by blast
  have "db_wf (w_db (world_of (Up sized_world)))" using sized_world_wf by simp
  from server_refines_ledger [OF run this] run show ?thesis by auto
qed

text \<open>C4: lots are kept apart: as long as no request names a lot, in any run of the server, the lot has the same images, in the same
  order, and every hash has the same object and the same multipart upload under way in it, or none.\<close>

theorem lots_kept_apart:
  assumes "server_trace sv tr s s'" and "db_wf (w_db (world_of s))"
    and "\<And>call r. (call, r) \<in> set tr \<Longrightarrow> \<not> names_lot lot call"
  shows "map li_ImageBlobID (filter (\<lambda>l. li_LotID l = lot) (lot_images (w_db (world_of s')))) =
      map li_ImageBlobID (filter (\<lambda>l. li_LotID l = lot) (lot_images (w_db (world_of s)))) \<and>
    map_option (\<lambda>a. (at_StorageKey a, at_UploadID a)) (find_pending (sha, lot) (attempts (w_db (world_of s')))) =
      map_option (\<lambda>a. (at_StorageKey a, at_UploadID a)) (find_pending (sha, lot) (attempts (w_db (world_of s))))"
  using ledger_trace_other_lot [OF server_trace_ledger [OF assms(1,2)] assms(3)] by (simp add: links_of_ledger uploads_of_ledger)

theorem lots_kept_apart_witness:
  "\<exists>r w1. server_trace sample_server [(CallGeneratePresignedUrl (Inr (upload_request [large_image] sample_lot_text)), r)]
      (Up sized_world) (Up w1) \<and>
    map li_ImageBlobID (filter (\<lambda>l. li_LotID l = replicate 16 9) (lot_images (w_db w1))) = []"
proof -
  obtain r w1 where run: "server_trace sample_server [(CallGeneratePresignedUrl (Inr (upload_request [large_image] sample_lot_text)), r)]
      (Up sized_world) (Up w1)" using large_response_trace by blast
  have wf: "db_wf (w_db (world_of (Up sized_world)))" using sized_world_wf by simp
  have other: "\<not> names_lot (replicate 16 9) c"
    if "(c, x) \<in> set [(CallGeneratePresignedUrl (Inr (upload_request [large_image] sample_lot_text)), r)]" for c x
  proof -
    have "sample_lot_id \<noteq> replicate 16 9" by (simp add: sample_lot_id_def replicate_eq_replicate)
    with that sample_parse show ?thesis by (simp add: upload_request_def)
  qed
  have "map li_ImageBlobID (filter (\<lambda>l. li_LotID l = replicate 16 9) (lot_images (w_db (world_of (Up w1))))) =
      map li_ImageBlobID (filter (\<lambda>l. li_LotID l = replicate 16 9) (lot_images (w_db (world_of (Up sized_world)))))"
    by (rule lots_kept_apart [OF run wf, THEN conjunct1]) (rule other)
  moreover have "lot_images (w_db (world_of (Up sized_world))) = []" by (simp add: sized_world_def sample_db_def)
  ultimately have "map li_ImageBlobID (filter (\<lambda>l. li_LotID l = replicate 16 9) (lot_images (w_db w1))) = []" by simp
  with run show ?thesis by blast
qed

end
