(* ===== verification/Upload_Hashes.thy ===== *)
theory Upload_Hashes
  imports Upload_Refusal
begin

text \<open>
  Hashes that the rules of a message let through and the service does not expect. The database keeps the bytes of a
  hash and gives them back as lower-case hexadecimal, while the maps of the request are keyed by the text of the client:
  a hash with an upper-case digit is found in none of them. A hash that is no hexadecimal at all is refused by the
  first statement.
\<close>

section \<open>Texts that the database does not give back\<close>

lemma lower_hex_encode_fixed: "map ascii_lower (hex_encode bs) = hex_encode bs"
  using lower_hex_encode [of bs] by (simp add: lower_hex_def map_idI)

text \<open>The key of a map filled from rows is never a text with an upper-case digit.\<close>

lemma lookup_other_case:
  assumes "\<And>r. r \<in> set rs \<Longrightarrow> \<exists>bs. key r = hex_encode bs" and "map ascii_lower s \<noteq> s"
  shows "map_build key v rs s = None"
proof -
  have "s \<notin> key ` set rs" using assms lower_hex_encode_fixed by (metis imageE)
  then show ?thesis by (simp add: map_build_None_iff)
qed

lemma in_dropWhile: "x \<in> set xs \<Longrightarrow> \<not> P x \<Longrightarrow> x \<in> set (dropWhile P xs)"
  by (induction xs) auto

lemma single_row_texts:
  assumes "InsertSinglePartUpload fault env p d = (Ret rs, d')" and "r \<in> set rs"
  shows "\<exists>bs. sr_Sha256 r = hex_encode bs"
proof -
  have "upsert_statement (single_propose env p) single_on_conflict single_returning (single_inputs p) d = (Ret rs, d')"
    using assms(1) by (simp add: InsertSinglePartUpload_def run_query_def sql_InsertSinglePartUpload_def split: option.splits)
  then obtain rows where "list_all2 (\<lambda>row r. single_returning (fst row) (snd row) = Inr r) rows rs"
    by (cases rule: single_upsert.upsert_statement_cases) auto
  from list_all2_in_right [OF this assms(2)] show ?thesis by (auto simp: single_returning_def)
qed

lemma identical_row_texts:
  assumes "insert_identical d lot xs seq = (Inr rs, seq')" and "r \<in> set rs"
  shows "\<exists>bs. ir_Sha256 (snd r) = hex_encode bs"
  using assms
proof (induction xs arbitrary: seq rs)
  case (Cons x xs)
  obtain sha name where x: "x = (sha, name)" by (cases x)
  with Cons.prems obtain b where b: "decode_optional sha = Inr b" by (cases "decode_optional sha") auto
  show ?case
  proof (cases "Option.bind b (completed_blob d)")
    case None
    with x b Cons show ?thesis by simp
  next
    case (Some blob)
    with x b Cons.prems obtain nm where nm: "name = Some nm" by (cases name) auto
    obtain r1 s1 where rest: "insert_identical d lot xs (seq + 1) = (r1, s1)" by fastforce
    with x b Some nm Cons.prems obtain rs1 first where r1: "r1 = Inr rs1" "s1 = seq'" and rs: "rs = first # rs1"
      and first: "ir_Sha256 (snd first) = hex_encode (ib_Sha256 blob)" by (cases r1) (auto simp: Let_def)
    show ?thesis
    proof (cases "r = first")
      case False
      with Cons.prems(2) rs Cons.IH [OF rest [unfolded r1]] show ?thesis by simp
    qed (use first in blast)
  qed
qed simp

section \<open>A small file\<close>

lemma single_url_sha:
  assumes "bindp (generateSinglePresignedPutObjectUrl env st k s) (\<lambda>u. liftp (Ret (single_url f u))) w = (Ret u, w')"
  shows "\<exists>bs q. hex_decode s = Inr bs \<and> presigned_put env st k bs q \<and> u = single_url f \<lparr>sU_request = Some q\<rparr>"
proof -
  from assms obtain v where v: "generateSinglePresignedPutObjectUrl env st k s w = (Ret v, w')" and u: "u = single_url f v"
    by (auto simp: bindp_Ret_iff)
  from v obtain b where b: "hexToBase64 s = Ret b"
    by (auto simp: generateSinglePresignedPutObjectUrl_def bindp_Ret_iff on_error_Ret_iff liftp_iff simp del: bindp_liftp)
  then obtain bs where bs: "hex_decode s = Inr bs" "b = b64_encode bs" by (auto simp: hexToBase64_def split: sum.splits)
  with v b obtain q where "presigned_put env st k bs q" and "v = \<lparr>sU_request = Some q\<rparr>"
    by (auto simp: generateSinglePresignedPutObjectUrl_def bindp_Ret_iff on_error_Ret_iff liftp_iff on_s3_Ret_iff presigned_put_def
        simp del: bindp_liftp)
  with bs u show ?thesis by blast
qed

lemma createSingle_other_case:
  assumes run: "createSinglePresignedFileUrl env st lot s w = (Ret us, w')" and u: "u \<in> set us"
    and other: "map ascii_lower (uf_Sha256 (pF_uploadFile u)) \<noteq> uf_Sha256 (pF_uploadFile u)"
  shows "\<exists>bs q. hex_decode (uf_Sha256 (pF_uploadFile u)) = Inr bs \<and> presigned_put env st (uuid_String uuid_Nil) bs q \<and>
    u = single_url (pF_uploadFile u) \<lparr>sU_request = Some q\<rparr>"
proof -
  let ?key = "\<lambda>rs f. uuid_String (map_get uuid_Nil (map_build sr_Sha256 sr_StorageKey rs) (uf_Sha256 f))"
  let ?one = "\<lambda>rs f. bindp (generateSinglePresignedPutObjectUrl env st (?key rs f) (uf_Sha256 f)) (\<lambda>u. liftp (Ret (single_url f u)))"
  obtain rs d1 where stmt: "InsertSinglePartUpload (e_faults env) (e_sql env) (single_params lot s) (w_db w) = (Ret rs, d1)"
    and loop: "mapp (?one rs) (sd_singleFileUploads s) (w\<lparr>w_db := d1\<rparr>) = (Ret us, w')"
    using run by (auto simp: createSinglePresignedFileUrl_def bindp_Ret_iff on_error_Ret_iff on_db_Ret_iff Let_def)
  have "list_all2 (\<lambda>f u. \<exists>bs q. hex_decode (uf_Sha256 f) = Inr bs \<and> presigned_put env st (?key rs f) bs q \<and>
      u = single_url f \<lparr>sU_request = Some q\<rparr>) (sd_singleFileUploads s) us"
    by (rule mapp_Ret_all2 [OF loop]) (rule single_url_sha)
  from list_all2_in_right [OF this u] obtain f bs q where f: "hex_decode (uf_Sha256 f) = Inr bs" "presigned_put env st (?key rs f) bs q"
    and eq: "u = single_url f \<lparr>sU_request = Some q\<rparr>"
    by blast
  have "map_build sr_Sha256 sr_StorageKey rs (uf_Sha256 f) = None"
    using other single_row_texts [OF stmt] by (intro lookup_other_case) (auto simp: eq single_url_def)
  with f eq show ?thesis by (auto simp: single_url_def map_get_def)
qed

text \<open>A URL with a single request was not made by the multipart branch.\<close>

lemma createMultipart_no_single:
  assumes "createMultipartPresignedFileUrl env st lot m w = (Ret us, w')" and "u \<in> set us"
  shows "sU_request (pU_Single (pF_presignedUploadUrl u)) = None"
proof -
  have new: "list_all2 (\<lambda>_ u. sU_request (pU_Single (pF_presignedUploadUrl u)) = None) gs vs"
    if "generateUrlsForNewUploads env st mm gs v = (Ret vs, v')" for gs vs v v' mm
    using that unfolding generateUrlsForNewUploads_def
    by (rule mapp_Ret_all2) (auto simp: bindp_Ret_iff multi_url_def)
  have res: "list_all2 (\<lambda>_ u. sU_request (pU_Single (pF_presignedUploadUrl u)) = None) gs vs"
    if "genrateUrlsForResumableUploads env st mm gs v = (Ret vs, v')" for gs vs v v' mm
    using that unfolding genrateUrlsForResumableUploads_def
    by (rule mapp_Ret_all2) (auto simp: bindp_Ret_iff multi_url_def case_prod_beta)
  obtain news olds us1 w1 w2 us2 where "us = us1 @ us2"
    and "generateUrlsForNewUploads env st (md_multiFileUploadMap m) news w1 = (Ret us1, w2)"
    and "genrateUrlsForResumableUploads env st (md_multiFileUploadMap m) olds w2 = (Ret us2, w')"
    using assms(1) by (auto simp: createMultipartPresignedFileUrl_def bindp_Ret_iff on_error_Ret_iff on_db_Ret_iff liftp_iff
        case_prod_beta simp del: bindp_liftp)
  with new res assms(2) show ?thesis by (auto simp: list_all2_conv_all_nth in_set_conv_nth)
qed

lemma initiateUpload_other_case:
  assumes run: "initiateUpload env store fs lotId w = (Ret res, w')" and u: "u \<in> set (ur_presignedFileUrls res)"
    and q: "sU_request (pU_Single (pF_presignedUploadUrl u)) = Some q"
    and other: "map ascii_lower (uf_Sha256 (pF_uploadFile u)) \<noteq> uf_Sha256 (pF_uploadFile u)"
  shows "\<exists>s bs. store = Some s \<and> hex_decode (uf_Sha256 (pF_uploadFile u)) = Inr bs \<and>
    presigned_put env (is_s3Storage s) (uuid_String uuid_Nil) bs q"
proof -
  from run obtain lot s already urls where s: "store = Some s"
    and body: "upload_body env (is_s3Storage s) lot (fst (intentBatchUpload fs)) w = (Ret (already, urls), w')"
    and res: "res = \<lparr>ur_duplicateFiles = snd (intentBatchUpload fs), ur_alreadyUploadedFiles = already, ur_presignedFileUrls = urls\<rparr>"
    by (rule initiateUpload_Ret_cases)
  from body obtain need w1 where gen: "generateS3UploadUrl env (is_s3Storage s) lot need w1 = (Ret urls, w')"
    by (auto simp: upload_body_def bindp_Ret_iff case_prod_beta)
  then obtain ex :: extractFile and w2 us1 w3 us2 w4 where
    single: "(if length (sd_Sha256s (ex_singleFile ex)) > 0 then createSinglePresignedFileUrl env (is_s3Storage s) lot (ex_singleFile ex)
        else liftp (Ret [])) w2 = (Ret us1, w3)"
    and multi: "(if length (md_Sha256s (ex_multipartFile ex)) > 0
        then createMultipartPresignedFileUrl env (is_s3Storage s) lot (ex_multipartFile ex) else liftp (Ret [])) w3 = (Ret us2, w4)"
    and urls: "urls = us1 @ us2" and "w4 = w'"
    unfolding generateS3UploadUrl_def bindp_Ret_iff liftp_apply prod.inject outcome.inject by blast
  have "u \<notin> set us2" using multi q createMultipart_no_single by (fastforce split: if_splits)
  then have "u \<in> set us1" using u res urls by simp
  then obtain bs q' where "hex_decode (uf_Sha256 (pF_uploadFile u)) = Inr bs"
    and "presigned_put env (is_s3Storage s) (uuid_String uuid_Nil) bs q'" and "u = single_url (pF_uploadFile u) \<lparr>sU_request = Some q'\<rparr>"
    using single createSingle_other_case [OF _ _ other] by (fastforce split: if_splits)
  moreover from arg_cong [OF this(3), of "\<lambda>u. sU_request (pU_Single (pF_presignedUploadUrl u))"] q have "q' = q"
    by (simp add: single_url_def)
  ultimately show ?thesis using s by blast
qed

section \<open>A large file\<close>

lemma range_one: "range_ok env \<Longrightarrow> e_range env [k] = [k]"
proof -
  assume "range_ok env"
  then have "distinct (e_range env [k])" and set: "set (e_range env [k]) = {k}" by (auto simp: range_ok_def)
  then have "length (e_range env [k]) = 1" by (simp add: distinct_card [symmetric])
  then show ?thesis using set by (cases "e_range env [k]") auto
qed

text \<open>A file whose hash has an upper-case digit counts as new, even when its content is stored.\<close>

lemma skip_other_case:
  assumes ok: "outside_ok env" and sha: "sha_text (uf_Sha256 f)" and other: "map ascii_lower (uf_Sha256 f) \<noteq> uf_Sha256 f"
    and lot: "lot \<in> lot_ids (w_db w)"
  shows "\<exists>w1. skipUploadForIdenticalImageBlobs env [f] lot w = (Ret ([f], []), w1) \<and> attempts (w_db w1) = attempts (w_db w)"
proof -
  let ?p = "\<lparr>ip_LotID = lot, ip_Sha256s = [uf_Sha256 f], ip_FileNames = [uf_FileName f]\<rparr>"
  have inputs: "identical_inputs ?p = [(Some (uf_Sha256 f), Some (uf_FileName f))]" using identical_inputs_eq [of lot "[f]"] by simp
  obtain rs seq where ins: "insert_identical (w_db w) lot [(Some (uf_Sha256 f), Some (uf_FileName f))] (lot_image_seq (w_db w)) = (Inr rs, seq)"
    using insert_identical_succeeds [of "[f]"] sha by force
  have none: "map_build ir_Sha256 id (map snd rs) (uf_Sha256 f) = None"
    using identical_row_texts [OF ins] other by (intro lookup_other_case) auto
  have "on_db (InsertIdenticalImageBlobsToLotImages (e_faults env) ?p) w =
      (Ret (map snd rs), w\<lparr>w_db := (w_db w)\<lparr>lot_image_seq := seq, lot_images := lot_images (w_db w) @ map fst rs\<rparr>\<rparr>)"
    using ins lot outside_okD(1) [OF ok] inputs
    by (simp add: InsertIdenticalImageBlobsToLotImages_def run_query_def sql_InsertIdenticalImageBlobsToLotImages_def Let_def on_db_def)
  then show ?thesis
    using none range_one [OF outside_okD(6) [OF ok]]
    by (simp add: skipUploadForIdenticalImageBlobs_def Let_def on_error_def bindp_def separateUploadedAndNeedToBeUploadedFiles_def
        map_build_def map_get_def)
qed

lemma createSingle_files:
  assumes "createSinglePresignedFileUrl env st lot s w = (Ret us, w')"
  shows "list_all2 (\<lambda>f u. \<exists>q. u = single_url f \<lparr>sU_request = Some q\<rparr>) (sd_singleFileUploads s) us"
proof -
  obtain g w1 where loop: "mapp (\<lambda>f. bindp (generateSinglePresignedPutObjectUrl env st (g f) (uf_Sha256 f)) (\<lambda>u. liftp (Ret (single_url f u))))
      (sd_singleFileUploads s) w1 = (Ret us, w')"
    using assms by (auto simp: createSinglePresignedFileUrl_def bindp_Ret_iff on_error_Ret_iff on_db_Ret_iff Let_def)
  show ?thesis by (rule mapp_Ret_all2 [OF loop]) (use single_url_sha in blast)
qed

text \<open>A request with a single such file, up to its insert statement, and from its URLs to the result.\<close>

lemma other_case_front:
  assumes ok: "outside_ok env" and wf: "db_wf (w_db w)" and lot: "lot \<in> lot_ids (w_db w)"
    and sha: "sha_text (uf_Sha256 f)" and other: "map ascii_lower (uf_Sha256 f) \<noteq> uf_Sha256 f"
  obtains w1 ex w2 ts where "skipUploadForIdenticalImageBlobs env [f] lot w = (Ret ([f], []), w1)"
    and "extractFileData env st [f] w1 = (Ret ex, w2)" and "ex = extracted (filter is_single [f]) ts"
    and "map fst ts = filter (\<lambda>f. \<not> is_single f) [f]"
    and "db_wf (w_db w2)" and "lot \<in> lot_ids (w_db w2)" and "attempts (w_db w2) = attempts (w_db w)"
proof -
  obtain w1 where skip: "skipUploadForIdenticalImageBlobs env [f] lot w = (Ret ([f], []), w1)"
    and att: "attempts (w_db w1) = attempts (w_db w)" using skip_other_case [OF ok sha other lot] by blast
  have g: "grown (w_db w) (w_db w1)" by (rule keepsD [OF keeps_skip _ skip]) (rule grown_refl [OF wf])
  obtain ex w2 where ext: "extractFileData env st [f] w1 = (Ret ex, w2)"
    using answeringD [OF answering_extractFileData [OF ok]] by blast
  then obtain ts where ts: "ex = extracted (filter is_single [f]) ts" "map fst ts = filter (\<lambda>f. \<not> is_single f) [f]"
    and db2: "w_db w2 = w_db w1"
    using extractFileData_Ret [OF outside_okD(4) [OF ok]] by metis
  show thesis by (rule that [OF skip ext ts]) (use g grown_lot_ids [OF g] lot att in \<open>auto simp: db2 grown_def\<close>)
qed

lemma initiateUpload_one:
  assumes ok: "outside_ok env" and lotId: "uuid_Parse lotId = Inr lot"
    and skip: "skipUploadForIdenticalImageBlobs env [f] lot w = (Ret ([f], []), w1)"
    and gen: "generateS3UploadUrl env (is_s3Storage store) lot [f] w1 = (Ret us, w')"
  shows "initiateUpload env (Some store) [f] lotId w =
    (Ret \<lparr>ur_duplicateFiles = [], ur_alreadyUploadedFiles = [], ur_presignedFileUrls = us\<rparr>, w')"
proof -
  have "upload_body env (is_s3Storage store) lot [f] w = (Ret ([], us), w')" using skip gen by (simp add: upload_body_def)
  then have "in_tx env begin_failure commit_failure (upload_body env (is_s3Storage store) lot [f]) w = (Ret ([], us), w')"
    unfolding in_tx_Ret_iff using outside_okD(2,3) [OF ok] by blast
  then show ?thesis using lotId by (simp add: initiateUpload_def intentBatchUpload_eq)
qed

text \<open>A request with a small file whose hash has an upper-case digit succeeds.\<close>

lemma initiateUpload_small_other_case:
  assumes ok: "outside_ok env" and wf: "db_wf (w_db w)" and lotId: "uuid_Parse lotId = Inr lot" and lot: "lot \<in> lot_ids (w_db w)"
    and sha: "sha_text (uf_Sha256 f)" and other: "map ascii_lower (uf_Sha256 f) \<noteq> uf_Sha256 f" and small: "is_single f" and name: "name_fits f"
  shows "\<exists>q w'. initiateUpload env (Some store) [f] lotId w = (Ret \<lparr>ur_duplicateFiles = [], ur_alreadyUploadedFiles = [],
    ur_presignedFileUrls = [single_url f \<lparr>sU_request = Some q\<rparr>]\<rparr>, w')"
proof -
  let ?st = "is_s3Storage store"
  obtain w1 ex w2 ts where skip: "skipUploadForIdenticalImageBlobs env [f] lot w = (Ret ([f], []), w1)"
    and ext: "extractFileData env ?st [f] w1 = (Ret ex, w2)" and ex: "ex = extracted (filter is_single [f]) ts"
    and ts: "map fst ts = filter (\<lambda>f. \<not> is_single f) [f]" and w2: "db_wf (w_db w2)" "lot \<in> lot_ids (w_db w2)"
    by (rule other_case_front [OF ok wf lot sha other])
  have sel: "ex_singleFile ex = single_data [f]" "ex_multipartFile ex = multi_data []"
    using small ts by (simp_all add: ex extracted_def)
  have "\<exists>us w'. createSinglePresignedFileUrl env ?st lot (single_data [f]) w2 = (Ret us, w')"
    by (rule createSingle_succeeds [OF ok w2(1)]) (use sha name w2(2) in auto)
  then obtain us w' where single: "createSinglePresignedFileUrl env ?st lot (single_data [f]) w2 = (Ret us, w')" by blast
  from createSingle_files [OF this] obtain q where us: "us = [single_url f \<lparr>sU_request = Some q\<rparr>]"
    by (auto simp: single_data_def list_all2_Cons1)
  have "generateS3UploadUrl env ?st lot [f] w1 = (Ret us, w')"
    using ext single sel unfolding generateS3UploadUrl_def by (simp add: single_data_def multi_data_def)
  from initiateUpload_one [OF ok lotId skip this] us show ?thesis by blast
qed

text \<open>The URLs of its upload are filed under no file.\<close>

lemma createMultipart_other_case:
  assumes ok: "outside_ok env" and wf: "db_wf (w_db w)" and sha: "sha_text (uf_Sha256 (fst t))"
    and other: "map ascii_lower (uf_Sha256 (fst t)) \<noteq> uf_Sha256 (fst t)" and lot: "lot \<in> lot_ids (w_db w)"
    and old: "\<And>old. find_pending (file_key lot (fst t)) (attempts (w_db w)) = Some old \<Longrightarrow> resumable old"
  shows "\<exists>u a w'. createMultipartPresignedFileUrl env st lot (multi_data [t]) w = (Ret [u], w') \<and> pF_uploadFile u = zero_uploadFile \<and>
    sU_request (pU_Single (pF_presignedUploadUrl u)) = None \<and> find_pending (file_key lot (fst t)) (attempts (w_db w')) = Some a"
proof -
  let ?m = "map_build uf_Sha256 id [fst t]"
  obtain us w' where run: "createMultipartPresignedFileUrl env st lot (multi_data [t]) w = (Ret us, w')"
    using createMultipart_succeeds [OF ok wf, of "[t]" lot st] sha lot old by auto
  then obtain rs d1 news resumables us1 w2 us2 where
    stmt: "InsertAndValidateMultiPartUpload (e_faults env) (e_sql env) (multi_params lot (multi_data [t])) (w_db w) = (Ret rs, d1)"
    and seg: "segregateMultiUploadFiles rs = Ret (news, resumables)"
    and new: "generateUrlsForNewUploads env st ?m news (w\<lparr>w_db := d1\<rparr>) = (Ret us1, w2)"
    and res: "genrateUrlsForResumableUploads env st ?m resumables w2 = (Ret us2, w')" and us: "us = us1 @ us2"
    by (auto simp: createMultipartPresignedFileUrl_def bindp_Ret_iff on_error_Ret_iff on_db_Ret_iff liftp_iff
        case_prod_beta simp del: bindp_liftp map_build_def)
  obtain r where rs: "rs = [r]" and row: "multi_row_ok (e_sql env) lot (w_db w) d1 t r"
    using multi_rows(1) [OF wf _ stmt] sha by (auto simp: list_all2_Cons1)
  have zero: "map_get zero_uploadFile ?m (mr_Sha256 r) = zero_uploadFile"
    using row other by (auto simp: multi_row_ok_def map_build_def map_get_def)
  from seg have compl: "\<forall>r \<in> set rs. complete_row r" and n: "news = map row_data (filter is_new rs)"
    and v: "resumables = map row_data (filter (\<lambda>r. \<not> is_new r) rs)"
    by (auto simp: segregate_eq split: if_splits)
  have "list_all2 (row_url env st ?m) (filter is_new rs) us1" by (rule new_urls_Ret [OF new [unfolded n]]) (use compl in auto)
  moreover have "list_all2 (row_url env st ?m) (filter (\<lambda>r. \<not> is_new r) rs) us2"
    by (rule resumable_urls_Ret [OF res [unfolded v]]) (use compl in auto)
  ultimately obtain u where "us = [u]" and "row_url env st ?m r u" using us rs by (auto simp: list_all2_Cons1 split: if_splits)
  moreover from this(2) zero have "pF_uploadFile u = zero_uploadFile" by (auto simp: row_url_def multi_url_def)
  moreover have "w_db w' = d1"
    using db_same [OF keeps_generateUrlsForNewUploads new] db_same [OF keeps_genrateUrlsForResumableUploads res] by simp
  ultimately show ?thesis using run row createMultipart_no_single [OF run] by (auto simp: multi_row_ok_def)
qed

lemma initiateUpload_large_other_case:
  assumes ok: "outside_ok env" and wf: "db_wf (w_db w)" and lotId: "uuid_Parse lotId = Inr lot" and lot: "lot \<in> lot_ids (w_db w)"
    and sha: "sha_text (uf_Sha256 f)" and other: "map ascii_lower (uf_Sha256 f) \<noteq> uf_Sha256 f" and large: "\<not> is_single f"
    and old: "can_resume lot (w_db w) f"
  shows "\<exists>u a w'. initiateUpload env (Some store) [f] lotId w =
      (Ret \<lparr>ur_duplicateFiles = [], ur_alreadyUploadedFiles = [], ur_presignedFileUrls = [u]\<rparr>, w') \<and>
    pF_uploadFile u = zero_uploadFile \<and> find_pending (file_key lot f) (attempts (w_db w')) = Some a"
proof -
  let ?st = "is_s3Storage store"
  obtain w1 ex w2 ts where skip: "skipUploadForIdenticalImageBlobs env [f] lot w = (Ret ([f], []), w1)"
    and ext: "extractFileData env ?st [f] w1 = (Ret ex, w2)" and ex: "ex = extracted (filter is_single [f]) ts"
    and ts: "map fst ts = filter (\<lambda>f. \<not> is_single f) [f]" and w2: "db_wf (w_db w2)" "lot \<in> lot_ids (w_db w2)"
    and att: "attempts (w_db w2) = attempts (w_db w)"
    by (rule other_case_front [OF ok wf lot sha other])
  from ts large obtain t where t: "ts = [t]" "fst t = f" by auto
  have sel: "ex_singleFile ex = single_data []" "ex_multipartFile ex = multi_data [t]"
    using large t by (simp_all add: ex extracted_def)
  have "\<exists>u a w'. createMultipartPresignedFileUrl env ?st lot (multi_data [t]) w2 = (Ret [u], w') \<and> pF_uploadFile u = zero_uploadFile \<and>
    sU_request (pU_Single (pF_presignedUploadUrl u)) = None \<and> find_pending (file_key lot (fst t)) (attempts (w_db w')) = Some a"
  proof (rule createMultipart_other_case [OF ok w2(1)])
    show "resumable o'" if "find_pending (file_key lot (fst t)) (attempts (w_db w2)) = Some o'" for o'
      using old large that by (auto simp: can_resume_def t att)
  qed (use sha other t w2(2) in simp_all)
  then obtain u a w' where multi: "createMultipartPresignedFileUrl env ?st lot (multi_data [t]) w2 = (Ret [u], w')"
    and u: "pF_uploadFile u = zero_uploadFile" and a: "find_pending (file_key lot f) (attempts (w_db w')) = Some a"
    unfolding t(2) by blast
  have "generateS3UploadUrl env ?st lot [f] w1 = (Ret [u], w')"
    using ext multi sel unfolding generateS3UploadUrl_def by (simp add: single_data_def multi_data_def)
  from initiateUpload_one [OF ok lotId skip this] u a show ?thesis by blast
qed

text \<open>The response cannot be written, after the commit.\<close>

definition unwritable :: "string \<Rightarrow> err" where
  "unwritable msg = client_err (InternalServerError ''imagestore.convertToImageFile''
     (Some (Errorf msg (Some (Leaf (Num ''Atoi'' '''' ErrSyntax))) '''')) ''internal error'')"

lemma zero_file_not_written: "\<exists>msg. convertToImageFile zero_uploadFile = Fail (unwritable msg)"
  by (rule exI [of _ "''cannot convert client file id  to integer:''"])
    (simp add: convertToImageFile_def zero_uploadFile_def atoi_def unwritable_def)

lemma toGRPCError_unwritable: "toGRPCError any_new (Some (unwritable msg)) = Some (Leaf (Status (status_New Internal '''')))"
  unfolding unwritable_def by (rule toGRPCError_internal) (simp add: plain_simps)

lemma serve_large_other_case:
  assumes ok: "outside_ok env" and wf: "db_wf (w_db w)" and acc: "accepts sv (MsgGeneratePresignedUrl (upload_request [m] lotId))"
    and store: "sv_imageStore sv = Some store" and lotId: "uuid_Parse lotId = Inr lot" and lot: "lot \<in> lot_ids (w_db w)"
    and m: "complete_image m" "sha_text (uf_Sha256 (upload_of m))" "map ascii_lower (uf_Sha256 (upload_of m)) \<noteq> uf_Sha256 (upload_of m)"
    and large: "\<not> is_single (upload_of m)" and old: "can_resume lot (w_db w) (upload_of m)"
  shows "\<exists>a w'. serve env sv (CallGeneratePresignedUrl (Inr (upload_request [m] lotId))) w =
      (Fail (Leaf (Status (status_New Internal ''''))), w') \<and>
    find_pending (file_key lot (upload_of m)) (attempts (w_db w')) = Some a"
proof -
  obtain u a w' where run: "initiateUpload env (Some store) [upload_of m] lotId w =
      (Ret \<lparr>ur_duplicateFiles = [], ur_alreadyUploadedFiles = [], ur_presignedFileUrls = [u]\<rparr>, w')"
    and u: "pF_uploadFile u = zero_uploadFile" and a: "find_pending (file_key lot (upload_of m)) (attempts (w_db w')) = Some a"
    using initiateUpload_large_other_case [OF ok wf lotId lot m(2,3) large old] by blast
  obtain msg where "convertToImageFile zero_uploadFile = Fail (unwritable msg)" using zero_file_not_written by blast
  then have "upload_reply \<lparr>ur_duplicateFiles = [], ur_alreadyUploadedFiles = [], ur_presignedFileUrls = [u]\<rparr> w' = (Fail (unwritable msg), w')"
    by (simp add: upload_reply_def convertToImageFiles_def convertToPresignedImageFiles_def convertToPresignedFile_def u bindp_def)
  with run store m(1) have "serve env sv (CallGeneratePresignedUrl (Inr (upload_request [m] lotId))) w =
      (Fail (Leaf (Status (status_New Internal ''''))), w')"
    by (subst serve_upload [OF acc]) (simp_all add: map_failure_def as_response_def bindp_def toGRPCError_unwritable)
  with a show ?thesis by blast
qed

section \<open>A hash that is no hexadecimal\<close>

text \<open>An error of the database that names no constraint.\<close>

definition data_error :: "err \<Rightarrow> bool" where
  "data_error e \<longleftrightarrow> (\<exists>code msg. e = pg_err code msg '''')"

definition not_hex :: "string \<Rightarrow> bool" where
  "not_hex s \<longleftrightarrow> (\<exists>c \<in> set s. hex_val c = None \<and> \<not> sql_blank c)"

lemma data_errorI [simp]: "data_error (pg_err code msg '''')"
  by (auto simp: data_error_def)

lemma sql_decode_hex_error: "sql_decode_hex s = Inl e \<Longrightarrow> data_error e"
  by (induction s rule: sql_decode_hex.induct) (auto simp: bad_hex_digit_def odd_hex_def split: if_splits option.splits sum.splits)

lemma not_hex_Cons: "not_hex (c # s) \<longleftrightarrow> hex_val c = None \<and> \<not> sql_blank c \<or> not_hex s"
  by (auto simp: not_hex_def)

lemma sql_decode_not_hex: "not_hex s \<Longrightarrow> \<exists>e. sql_decode_hex s = Inl e"
proof (induction s rule: sql_decode_hex.induct)
  case (3 c d s)
  then show ?case by (cases "sql_blank c"; cases "hex_val c"; cases "hex_val d") (fastforce simp: not_hex_Cons)+
qed (auto simp: not_hex_def split: option.splits)

text \<open>The cast to 64 characters takes only blanks away.\<close>

lemma not_hex_cast:
  assumes "not_hex s" and "rune_count s = 64"
  shows "not_hex (cast_char64 s)"
proof -
  from assms(1) obtain c where c: "c \<in> set s" "hex_val c = None" "\<not> sql_blank c" by (auto simp: not_hex_def)
  moreover have "c \<noteq> CHR '' ''" using c(3) by (auto simp: sql_blank_def)
  ultimately have "c \<in> set (dropWhile (\<lambda>c. c = CHR '' '') (rev s))" by (intro in_dropWhile) simp_all
  with c(2,3) assms(2) show ?thesis by (auto simp: not_hex_def cast_char64_def take_runes_all)
qed

lemma insert_identical_data_error:
  assumes "f \<in> set fs" and "not_hex (uf_Sha256 f)" and "rune_count (uf_Sha256 f) = 64"
  shows "\<exists>e seq'. insert_identical d lot (map (\<lambda>f. (Some (uf_Sha256 f), Some (uf_FileName f))) fs) seq = (Inl e, seq') \<and> data_error e"
  using assms(1)
proof (induction fs arbitrary: seq)
  case (Cons g gs)
  show ?case
  proof (cases "sql_decode_hex (cast_char64 (uf_Sha256 g))")
    case (Inl e)
    then show ?thesis by (simp add: decode_optional_def sql_decode_hex_error)
  next
    case (Inr bs)
    with sql_decode_not_hex [OF not_hex_cast [OF assms(2,3)]] Cons.prems have "f \<in> set gs" by auto
    note IH = Cons.IH [OF this]
    show ?thesis
    proof (cases "completed_blob d bs")
      case None
      with IH [of seq] Inr show ?thesis by (simp add: decode_optional_def)
    next
      case (Some b)
      with IH [of "seq + 1"] Inr show ?thesis by (auto simp: decode_optional_def Let_def)
    qed
  qed
qed simp

lemma toGRPCError_data_error:
  "data_error e \<Longrightarrow> toGRPCError any_new (Some (skip_failure e)) = Some (Leaf (Status (status_New Internal '''')))"
  by (auto simp: data_error_def skip_failure_def storage_failure_def databaseConstraint_def constraint_names toGRPCError_internal
      pg_err_def plain_simps)

lemma upload_body_not_hex:
  assumes fault: "e_faults env QInsertIdentical = None"
    and f: "f \<in> set fs" "not_hex (uf_Sha256 f)" "rune_count (uf_Sha256 f) = 64"
  shows "\<exists>e w'. upload_body env st lot fs w = (Fail (skip_failure e), w') \<and> data_error e"
proof -
  let ?p = "\<lparr>ip_LotID = lot, ip_Sha256s = map uf_Sha256 fs, ip_FileNames = map uf_FileName fs\<rparr>"
  obtain e seq where e: "data_error e" and ins: "insert_identical (w_db w) lot (map (\<lambda>f. (Some (uf_Sha256 f), Some (uf_FileName f))) fs)
      (lot_image_seq (w_db w)) = (Inl e, seq)"
    using insert_identical_data_error [OF f] by blast
  have "on_db (InsertIdenticalImageBlobsToLotImages (e_faults env) ?p) w = (Fail e, w\<lparr>w_db := (w_db w)\<lparr>lot_image_seq := seq\<rparr>\<rparr>)"
    using ins fault by (simp add: InsertIdenticalImageBlobsToLotImages_def run_query_def sql_InsertIdenticalImageBlobsToLotImages_def
        identical_inputs_eq Let_def on_db_def)
  then show ?thesis
    using e by (auto simp: upload_body_def skipUploadForIdenticalImageBlobs_def Let_def on_error_def bindp_def skip_failure_def)
qed

lemma serve_not_hex:
  assumes up: "e_begin env = None" "e_faults env QInsertIdentical = None"
    and acc: "accepts sv (MsgGeneratePresignedUrl (upload_request ms lotId))"
    and store: "sv_imageStore sv = Some store" and lotId: "uuid_Parse lotId = Inr lot"
    and ms: "\<And>m. m \<in> set ms \<Longrightarrow> complete_image m"
    and m: "m \<in> set ms" "ImageFile_rules m" "not_hex (uf_Sha256 (upload_of m))"
  shows "\<exists>w'. serve env sv (CallGeneratePresignedUrl (Inr (upload_request ms lotId))) w =
      (Fail (Leaf (Status (status_New Internal ''''))), w') \<and> same_tables (w_db w) (w_db w')"
proof -
  let ?fs = "fst (intentBatchUpload (map upload_of ms))"
  have "uf_Sha256 (upload_of m) \<in> uf_Sha256 ` set ?fs" using m(1) by (simp add: intentBatchUpload_eq fresh_shas)
  then obtain f where f: "f \<in> set ?fs" "uf_Sha256 f = uf_Sha256 (upload_of m)" by auto
  have "rune_count (uf_Sha256 (upload_of m)) = 64"
    using m(2) by (auto simp: ImageFile_rules_def upload_of_def split: option.splits)
  with f m(3) obtain e w1 where body: "upload_body env (is_s3Storage store) lot ?fs w = (Fail (skip_failure e), w1)" and e: "data_error e"
    using upload_body_not_hex [OF up(2) f(1)] by metis
  have init: "initiateUpload env (sv_imageStore sv) (map upload_of ms) lotId w = (Fail (skip_failure e), rollback_to (w_db w) w1)"
    unfolding store by (rule initiateUpload_body_fails [OF lotId up(1) body])
  have "serve env sv (CallGeneratePresignedUrl (Inr (upload_request ms lotId))) w =
      (Fail (Leaf (Status (status_New Internal ''''))), rollback_to (w_db w) w1)"
    using acc ms init toGRPCError_data_error [OF e] by (rule serve_upload_fails)
  then show ?thesis using rolled_back_tables by (metis w_db_rollback_to)
qed

end
