(* ===== verification/Message_Fields.thy ===== *)
theory Message_Fields
  imports Service_Laws
begin

text \<open>
  The rules of the messages beside the fields that the services dereference. A scalar field is a pointer, and a rule
  that is not \<open>required\<close> holds of an absent field: a message can keep all its rules and still lack a field that its
  service reads through a nil pointer.
\<close>

section \<open>The fields that the services read\<close>

fun message_rules :: "rpc_message \<Rightarrow> bool" where
  "message_rules (MsgCreateLot m) \<longleftrightarrow> CreateLotRequest_rules m"
| "message_rules (MsgGeneratePresignedUrl m) \<longleftrightarrow> GeneratePresignedUrlRequest_rules m"
| "message_rules (MsgCompleteMultiPartUpload m) \<longleftrightarrow> CompleteMultiPartUploadRequest_rules m"

fun lacks_field :: "rpc_message \<Rightarrow> bool" where
  "lacks_field (MsgCreateLot m) \<longleftrightarrow> kq_Lot m = None"
| "lacks_field (MsgGeneratePresignedUrl m) \<longleftrightarrow> gq_LotId m = None \<or>
     (\<exists>i. Some i \<in> set (gq_LotImages m) \<and> (if_ClientFileId i = None \<or> if_FileSize i = None))"
| "lacks_field (MsgCompleteMultiPartUpload m) \<longleftrightarrow> cq_MultipartAttemptId m = None \<or>
     (\<exists>p. Some p \<in> set (cq_PartEtags m) \<and> pe_Part p = None)"

text \<open>A server whose validators accept whatever keeps the rules, as protovalidate does.\<close>

definition validates_rules :: "server \<Rightarrow> bool" where
  "validates_rules sv \<longleftrightarrow> (\<exists>v. sv_validator sv = Some v \<and> (\<forall>m. message_rules m \<longrightarrow> v m = Valid)) \<and>
     (\<forall>m. CreateLotRequest_rules m \<longrightarrow> sv_validate sv m = None)"

lemma validates_accepts: "validates_rules sv \<Longrightarrow> message_rules m \<Longrightarrow> accepts sv m"
  by (auto simp: validates_rules_def accepts_def)

section \<open>The converters on an absent field\<close>

text \<open>A conversion that can only go wrong by reading a nil pointer.\<close>

definition reads_pointers :: "(err, 'a) outcome \<Rightarrow> bool" where
  "reads_pointers m \<longleftrightarrow> (\<exists>a. m = Ret a) \<or> m = Panic nil_deref"

lemma reads_pointersI [simp]: "reads_pointers (Ret a)" "reads_pointers (Panic nil_deref)"
  by (auto simp: reads_pointers_def)

lemma reads_deref [simp]: "reads_pointers (deref p)"
  by (cases p) (auto simp: reads_pointers_def)

lemma reads_bindo: "reads_pointers m \<Longrightarrow> (\<And>a. m = Ret a \<Longrightarrow> reads_pointers (f a)) \<Longrightarrow> reads_pointers (bindo m f)"
  by (auto simp: reads_pointers_def)

lemma reads_mapo: "(\<And>x. x \<in> set xs \<Longrightarrow> reads_pointers (f x)) \<Longrightarrow> reads_pointers (mapo f xs)"
  by (induction xs) (auto intro!: reads_bindo)

lemma reads_not_Ret: "reads_pointers m \<Longrightarrow> (\<And>a. m \<noteq> Ret a) \<Longrightarrow> m = Panic nil_deref"
  by (auto simp: reads_pointers_def)

lemma mapo_nil:
  assumes "\<And>x. x \<in> set xs \<Longrightarrow> reads_pointers (f x)" and "x \<in> set xs" and "f x = Panic p"
  shows "mapo f xs = Panic nil_deref"
  using assms by (intro reads_not_Ret reads_mapo) (auto simp: mapo_Ret_iff list_all2_conv_all_nth in_set_conv_nth)

lemma reads_convertToUploadFile: "reads_pointers (convertToUploadFile p)"
  unfolding convertToUploadFile_def by (intro reads_bindo reads_deref reads_pointersI)

lemma reads_convertToUploadFiles: "reads_pointers (convertToUploadFiles ps)"
  unfolding convertToUploadFiles_def by (rule reads_mapo) (rule reads_convertToUploadFile)

lemma reads_convertToCompletedPart: "reads_pointers (convertToCompletedPart ps)"
  unfolding convertToCompletedPart_def by (intro reads_mapo reads_bindo reads_deref reads_pointersI)

lemma convertToUploadFiles_incomplete:
  assumes "Some i \<in> set ps" and "\<not> complete_image i"
  shows "convertToUploadFiles ps = Panic nil_deref"
  unfolding convertToUploadFiles_def
  using assms by (intro mapo_nil [of ps _ "Some i"] reads_convertToUploadFile) (simp_all add: convertToUploadFile_eq)

lemma convertToCompletedPart_incomplete:
  assumes "Some p \<in> set ps" and "pe_Part p = None"
  shows "convertToCompletedPart ps = Panic nil_deref"
  unfolding convertToCompletedPart_def
  using assms by (intro mapo_nil [of ps _ "Some p"] reads_bindo reads_deref reads_pointersI) simp_all

section \<open>The services on an absent field\<close>

lemma GeneratePresignedUrl_lacks_field:
  assumes "lacks_field (MsgGeneratePresignedUrl m)"
  shows "GeneratePresignedUrl env store m w = (Panic nil_deref, w)"
proof (cases "convertToUploadFiles (gq_LotImages m)")
  case (Ret files)
  then have "gq_LotId m = None" using assms convertToUploadFiles_incomplete by (fastforce simp: complete_image_def)
  with Ret show ?thesis by (simp add: GeneratePresignedUrl_def)
next
  case (Panic p)
  then show ?thesis using reads_convertToUploadFiles [of "gq_LotImages m"]
    by (auto simp: reads_pointers_def GeneratePresignedUrl_def)
qed (use reads_convertToUploadFiles [of "gq_LotImages m"] in \<open>auto simp: reads_pointers_def\<close>)

lemma CompleteMultiPartUpload_lacks_field:
  assumes "lacks_field (MsgCompleteMultiPartUpload m)"
  shows "CompleteMultiPartUpload env sort_parts store m w = (Panic nil_deref, w)"
proof (cases "convertToCompletedPart (cq_PartEtags m)")
  case (Ret parts)
  then have "cq_MultipartAttemptId m = None" using assms convertToCompletedPart_incomplete by fastforce
  with Ret show ?thesis by (simp add: CompleteMultiPartUpload_def)
next
  case (Panic p)
  then show ?thesis using reads_convertToCompletedPart [of "cq_PartEtags m"]
    by (auto simp: reads_pointers_def CompleteMultiPartUpload_def)
qed (use reads_convertToCompletedPart [of "cq_PartEtags m"] in \<open>auto simp: reads_pointers_def\<close>)

lemma CreateLot_lacks_field:
  "lacks_field (MsgCreateLot m) \<Longrightarrow> validate m = None \<Longrightarrow> LotServer_CreateLot env validate m w = (Panic nil_deref, w)"
  by (simp add: LotServer_CreateLot_def create_lot_params_def)

lemma rpc_method_lacks_field:
  assumes "validates_rules sv" and "message_rules m" and "lacks_field m"
  shows "rpc_method env sv m w = (Panic nil_deref, w)"
proof (cases m)
  case (MsgCreateLot k)
  with assms have "LotServer_CreateLot env (sv_validate sv) k w = (Panic nil_deref, w)"
    by (intro CreateLot_lacks_field) (auto simp: validates_rules_def)
  with MsgCreateLot show ?thesis by (simp add: as_response_simps)
next
  case (MsgGeneratePresignedUrl k)
  with assms(3) have "GeneratePresignedUrl env (sv_imageStore sv) k w = (Panic nil_deref, w)"
    by (intro GeneratePresignedUrl_lacks_field) simp
  with MsgGeneratePresignedUrl show ?thesis by (simp add: as_response_simps)
next
  case (MsgCompleteMultiPartUpload k)
  with assms(3) have "CompleteMultiPartUpload env (sv_sort sv) (sv_imageStore sv) k w = (Panic nil_deref, w)"
    by (intro CompleteMultiPartUpload_lacks_field) simp
  with MsgCompleteMultiPartUpload show ?thesis by (simp add: as_response_simps)
qed

lemma serve_lacks_field:
  assumes "validates_rules sv" and "decoded call = Inr m" and "message_rules m" and "lacks_field m"
  shows "serve env sv call w = (Panic nil_deref, w)"
proof -
  have "serve env sv call w = map_failure (toGRPCError (sv_any_new sv)) (rpc_method env sv m) w"
    by (rule serve_accepted [OF assms(2) validates_accepts [OF assms(1,3)]])
  with rpc_method_lacks_field [OF assms(1,3,4), of env w] show ?thesis by (simp add: map_failure_simps)
qed

end
