(* ===== verification/Input_Properties.thy ===== *)
theory Input_Properties
  imports Sample_World Upload_Hashes Message_Fields
begin

text \<open>
  The properties of messages that keep every rule of the protocol and still are not what the services expect: hashes
  in upper case, hashes that are no hexadecimal, and fields that are absent.
\<close>

section \<open>Samples\<close>

lemma sample_upper: "sha_text (sample_sha CHR ''A'')" "map ascii_lower (sample_sha CHR ''A'') \<noteq> sample_sha CHR ''A''"
  unfolding sha_text_def sample_sha_def by code_simp+

lemma sample_upload_sha: "uf_Sha256 (upload_of (sample_image c n)) = sample_sha c"
  by (simp add: upload_of_def sample_image_def)

lemma sample_complete_image: "complete_image (sample_image c n)"
  by (simp add: complete_image_def sample_image_def)

lemma sample_sizes: "is_single (upload_of (sample_image c 100))" "\<not> is_single (upload_of (sample_image c 157286400))"
  by (simp_all add: is_single_def upload_of_def sample_image_def multipartThreshold_def)

lemma sample_name_fits: "name_fits (upload_of (sample_image c n))"
  by (simp add: name_fits_def upload_of_def sample_image_def rune_count_def)

lemma sample_store_of_server: "sv_imageStore sample_server = Some sample_store"
  by (simp add: sample_server_def)

lemma sample_rules: "ImageFile_rules (sample_image CHR ''a'' 5)" "ImageFile_rules (sample_image CHR ''g'' 5)"
  by (simp_all add: ImageFile_rules_def sample_image_def sample_sha_def rune_count_ascii)

lemma sample_not_hex: "not_hex (uf_Sha256 (upload_of (sample_image CHR ''g'' 5)))"
  unfolding sample_upload_sha sample_sha_def not_hex_def by code_simp

section \<open>Hashes in upper case\<close>

text \<open>C15: the URL of a small file whose hash has an upper-case digit is for the object of the nil UUID, whatever the file, the
  lot and the request, and not for the object of the attempt that was recorded for it: its upload is not found, and every
  such upload overwrites the one before.\<close>

theorem upper_case_hash_shares_object:
  assumes "initiateUpload env store fs lotId w = (Ret res, w')" and "u \<in> set (ur_presignedFileUrls res)"
    and "sU_request (pU_Single (pF_presignedUploadUrl u)) = Some q"
    and "map ascii_lower (uf_Sha256 (pF_uploadFile u)) \<noteq> uf_Sha256 (pF_uploadFile u)"
  shows "\<exists>s bs. store = Some s \<and> hex_decode (uf_Sha256 (pF_uploadFile u)) = Inr bs \<and>
    presigned_put env (is_s3Storage s) ''00000000-0000-0000-0000-000000000000'' bs q"
proof -
  have "uuid_String uuid_Nil = ''00000000-0000-0000-0000-000000000000''" by code_simp
  with initiateUpload_other_case [OF assms] show ?thesis by simp
qed

theorem upper_case_hash_shares_object_witness:
  "\<exists>q res w'. initiateUpload sample_env (Some sample_store) [upload_of (sample_image CHR ''A'' 100)] sample_lot_text sample_world = (Ret res, w') \<and>
    (\<exists>bs. presigned_put sample_env (is_s3Storage sample_store) ''00000000-0000-0000-0000-000000000000'' bs q)"
proof -
  let ?f = "upload_of (sample_image CHR ''A'' 100)"
  have upper: "sha_text (uf_Sha256 ?f)" "map ascii_lower (uf_Sha256 ?f) \<noteq> uf_Sha256 ?f"
    using sample_upper by (simp_all add: sample_upload_sha)
  obtain q w' where run: "initiateUpload sample_env (Some sample_store) [?f] sample_lot_text sample_world =
      (Ret \<lparr>ur_duplicateFiles = [], ur_alreadyUploadedFiles = [], ur_presignedFileUrls = [single_url ?f \<lparr>sU_request = Some q\<rparr>]\<rparr>, w')"
    using initiateUpload_small_other_case [OF sample_outside sample_world_wf sample_parse sample_lot upper sample_sizes(1) sample_name_fits]
    by blast
  from upper_case_hash_shares_object [OF this, of "single_url ?f \<lparr>sU_request = Some q\<rparr>" q] upper(2) run
  show ?thesis by (fastforce simp: single_url_def)
qed

text \<open>C16: a request with a single image, which is large and has all its fields, and whose hash is 64 hexadecimal digits, not all in lower
  case, for a lot that exists, when nothing outside fails and the pending attempt of its hash and lot, if there is one, can be gone on with: it
  is answered an empty \<open>Internal\<close>, after its transaction was committed; the upload attempt is recorded and stays pending.\<close>

theorem upper_case_hash_unanswered:
  assumes "outside_ok env" and "db_wf (w_db w)" and "accepts sv (MsgGeneratePresignedUrl (upload_request [m] lotId))"
    and "sv_imageStore sv = Some store" and "uuid_Parse lotId = Inr lot" and "lot \<in> lot_ids (w_db w)"
    and "complete_image m" and "sha_text (uf_Sha256 (upload_of m))" and "map ascii_lower (uf_Sha256 (upload_of m)) \<noteq> uf_Sha256 (upload_of m)"
    and "\<not> is_single (upload_of m)" and "can_resume lot (w_db w) (upload_of m)"
  shows "\<exists>a w'. serve env sv (CallGeneratePresignedUrl (Inr (upload_request [m] lotId))) w =
      (Fail (Leaf (Status (status_New Internal ''''))), w') \<and>
    find_pending (file_key lot (upload_of m)) (attempts (w_db w')) = Some a"
  using assms by (rule serve_large_other_case)

theorem upper_case_hash_unanswered_witness:
  "\<exists>a w'. serve sample_env sample_server (CallGeneratePresignedUrl (Inr (upload_request [sample_image CHR ''A'' 157286400] sample_lot_text)))
      sample_world = (Fail (Leaf (Status (status_New Internal ''''))), w') \<and>
    find_pending (file_key sample_lot_id (upload_of (sample_image CHR ''A'' 157286400))) (attempts (w_db w')) = Some a"
  by (rule upper_case_hash_unanswered [OF sample_outside sample_world_wf sample_accepts sample_store_of_server sample_parse sample_lot
        sample_complete_image _ _ sample_sizes(2) sample_can_resume])
    (simp_all only: sample_upload_sha sample_upper simp_thms not_False_eq_True)

section \<open>Hashes that are no hexadecimal\<close>

text \<open>C17: the rules ask for 64 characters and no more: a request of images that have all their fields, one of which keeps the rules and has a
  character in its hash that is neither a hexadecimal digit nor a blank, fails in its first statement, once this reaches the database, and is
  answered an empty \<open>Internal\<close>. The tables are as they were.\<close>

theorem hash_not_hex_refused:
  assumes "e_begin env = None" and "e_faults env QInsertIdentical = None"
    and "accepts sv (MsgGeneratePresignedUrl (upload_request ms lotId))" and "sv_imageStore sv = Some store"
    and "uuid_Parse lotId = Inr lot" and "\<And>m. m \<in> set ms \<Longrightarrow> complete_image m"
    and "m \<in> set ms" and "ImageFile_rules m" and "not_hex (uf_Sha256 (upload_of m))"
  shows "\<exists>w'. serve env sv (CallGeneratePresignedUrl (Inr (upload_request ms lotId))) w =
      (Fail (Leaf (Status (status_New Internal ''''))), w') \<and> same_tables (w_db w) (w_db w')"
  using assms by (rule serve_not_hex)

theorem hash_not_hex_refused_witness:
  "\<exists>w'. serve sample_env sample_server (CallGeneratePresignedUrl (Inr (upload_request [sample_image CHR ''a'' 5, sample_image CHR ''g'' 5]
      sample_lot_text))) sample_world = (Fail (Leaf (Status (status_New Internal ''''))), w') \<and> same_tables (w_db sample_world) (w_db w')"
  by (rule hash_not_hex_refused [OF _ _ sample_accepts sample_store_of_server sample_parse _ _ sample_rules(2) sample_not_hex])
    (auto simp: sample_env_def intro: sample_complete_image)

section \<open>Fields that are absent\<close>

text \<open>C14: a message that keeps every rule of the protocol but lacks a field that its service dereferences (the lot id, the client
  id or size of an image, the attempt id, the number of a part, the lot to create) takes the process down.\<close>

theorem missing_field_panics:
  assumes "validates_rules sv" and "decoded call = Inr m" and "message_rules m" and "lacks_field m"
  shows "serve env sv call w = (Panic nil_deref, w) \<and> server_step sv (Up w) (Down w)"
proof -
  have panic: "serve env sv call w = (Panic nil_deref, w)" for env w using assms by (rule serve_lacks_field)
  show ?thesis using panic server_step.crashed [OF panic] by blast
qed

definition rules_server :: server where
  "rules_server = sample_server\<lparr>sv_validator := Some (\<lambda>m. if message_rules m then Valid else ValidationError [])\<rparr>"

theorem missing_field_panics_witness:
  "serve sample_env rules_server (CallGeneratePresignedUrl (Inr \<lparr>gq_LotImages = [Some (sample_image CHR ''a'' 5)], gq_LotId = None\<rparr>)) sample_world =
    (Panic nil_deref, sample_world)"
proof -
  let ?m = "\<lparr>gq_LotImages = [Some (sample_image CHR ''a'' 5)], gq_LotId = None\<rparr>"
  have "validates_rules rules_server" by (simp add: validates_rules_def rules_server_def sample_server_def)
  moreover have "message_rules (MsgGeneratePresignedUrl ?m)"
    by (simp add: GeneratePresignedUrlRequest_rules_def sample_rules)
  moreover have "lacks_field (MsgGeneratePresignedUrl ?m)" by simp
  ultimately show ?thesis
    using missing_field_panics [of rules_server "CallGeneratePresignedUrl (Inr ?m)" "MsgGeneratePresignedUrl ?m" sample_env sample_world]
    by (simp del: serve.simps)
qed

end
