(* ===== verification/Library_Properties.thy ===== *)
theory Library_Properties
  imports Sample_World
begin

text \<open>
  The properties of the parts that the requests are made of: identifiers and hashes, the batching of files, part
  counts, the messages, transactions, and the errors that a client is shown.
\<close>

section \<open>Files of a request\<close>

text \<open>C31: for a file below 2 GiB, the attempt's part count covers the file with parts of 10 MiB and no
  part too many, and the statement gives the parts 1 to the count.\<close>

theorem part_count_covers:
  assumes "0 < uint n" and "uint n < 2 ^ 31"
  shows "\<exists>k. gen_part_count MultiUpload (sint (int32_of_uint n)) (Some partSize) = Some k \<and>
     (k - 1) * partSize < uint n \<and> uint n \<le> k * partSize \<and> 1 \<le> k \<and> k \<le> 205 \<and>
     parts_array (Some k) = Inr (map word_of_int [1..k])"
proof -
  let ?k = "(uint n + partSize - 1) div partSize"
  have pos: "0 < partSize" by (simp add: partSize_def)
  note c = ceiling_div [OF pos refl, of "uint n"]
  have "gen_part_count MultiUpload (sint (int32_of_uint n)) (Some partSize) = Some ?k"
    using assms by (simp add: int32_of_uint_small multi_part_count)
  moreover have "1 \<le> ?k"
  proof -
    have "0 < ?k * partSize" using c(2) assms(1) by linarith
    then have "0 < ?k" using pos by (simp add: zero_less_mult_iff)
    then show ?thesis by simp
  qed
  moreover have "?k \<le> 205"
  proof -
    have "?k \<le> (2 ^ 31 + partSize - 1) div partSize" using assms(2) pos by (intro zdiv_mono1) auto
    also have "\<dots> = 205" by (simp add: partSize_def)
    finally show ?thesis .
  qed
  ultimately show ?thesis using c by (intro exI [of _ ?k]) (simp add: parts_array_def)
qed

theorem part_count_covers_witness:
  "\<exists>k. gen_part_count MultiUpload (sint (int32_of_uint 157286401)) (Some partSize) = Some k \<and>
     uint (157286401 :: gouint) \<le> k * partSize \<and> k \<le> 205"
  using part_count_covers [of 157286401] by auto



text \<open>C33: the multipart statement hands out valid attempts only: an attempt that was still valid keeps its deadline
  and part size; any other, new or expired, is valid for five days from now.\<close>

theorem multipart_attempts_valid:
  assumes "db_wf d" and "sql_InsertAndValidateMultiPartUpload env p d = (Ret rs, d')" and "r \<in> set rs"
  shows "\<exists>a \<in> set (attempts d'). at_ID a = mr_ImageBlobUploadAttemptID r \<and> at_UploadID a = mr_UploadID r \<and> still_valid env a \<and>
    (if mr_IsValid r then \<exists>old \<in> set (attempts d). same_identity old a \<and> at_ValidUntil a = at_ValidUntil old \<and> at_PartSize a = at_PartSize old
     else at_ValidUntil a = Some (txn_now env + five_days) \<and> at_PartSize a = Some (mp_PartSize p))"
proof -
  have "upsert_statement (multi_propose env p) (multi_on_conflict env p) (multi_returning env) (multi_inputs p) d = (Ret rs, d')"
    using assms(2) by (simp add: sql_InsertAndValidateMultiPartUpload_def)
  then have rows: "list_all2 (multi_upsert.row_answer env p d d' (multi_returning env)) (multi_inputs p) rs"
    by (rule multi_upsert.upsert_rows [OF db_wf_attempts_wf [OF assms(1)]])
  from rows assms(3) obtain x where "multi_upsert.row_answer env p d d' (multi_returning env) x r"
    by (metis in_set_conv_nth list_all2_conv_all_nth)
  then obtain old new where x: "multi_upsert.row_ok env p (attempts d) x (old, new)" and r: "multi_returning env old new = Inr r"
    and pend: "find_pending (multi_key p x) (attempts d') = Some new"
    by (auto simp: multi_upsert.row_answer_def)
  have ids: "at_ID new = mr_ImageBlobUploadAttemptID r" "at_UploadID new = mr_UploadID r"
    "mr_IsValid r = (case old of None \<Rightarrow> False | Some o' \<Rightarrow> still_valid env o')"
    using r by (auto simp: multi_returning_def bind_sum_Inr_iff)
  have "still_valid env new \<and> (if mr_IsValid r then \<exists>o' \<in> set (attempts d). same_identity o' new \<and> at_ValidUntil new = at_ValidUntil o' \<and>
      at_PartSize new = at_PartSize o'
     else at_ValidUntil new = Some (txn_now env + five_days) \<and> at_PartSize new = Some (mp_PartSize p))"
  proof (cases old)
    case None
    then obtain u i where "multi_propose env p u i x = Inr new" using x unfolding multi_upsert.row_ok_def by auto
    moreover obtain a1 a2 a3 a4 a5 a6 where "x = (a1, a2, a3, a4, a5, a6)" by (metis surj_pair)
    ultimately have "at_ValidUntil new = Some (txn_now env + five_days) \<and> at_PartSize new = Some (mp_PartSize p)"
      using multi_propose_Inr by blast
    with None ids show ?thesis by (simp add: still_valid_def five_days_def)
  next
    case (Some o')
    then have "find_pending (multi_key p x) (attempts d) = Some o'" and new: "update_row (multi_on_conflict env p) o' = Inr new"
      using x unfolding multi_upsert.row_ok_def by auto
    then have "o' \<in> set (attempts d)" by (auto dest: find_pending_SomeD)
    note same = multi_upsert.update_row_same [OF new]
    show ?thesis
    proof (cases "still_valid env o'")
      case True
      then have "at_ValidUntil new = at_ValidUntil o'" "at_PartSize new = at_PartSize o'"
        using same(3,4) by (simp_all add: multi_on_conflict_def)
      with True Some ids same(1) \<open>o' \<in> set (attempts d)\<close> show ?thesis by (auto simp: still_valid_def)
    next
      case False
      then have "at_ValidUntil new = Some (txn_now env + five_days)" "at_PartSize new = Some (mp_PartSize p)"
        using same(3,4) by (simp_all add: multi_on_conflict_def)
      with False Some ids show ?thesis by (simp add: still_valid_def five_days_def)
    qed
  qed
  moreover have "new \<in> set (attempts d')" using pend by (auto dest: find_pending_SomeD)
  ultimately show ?thesis using ids by blast
qed

theorem multipart_attempts_valid_witness:
  "\<exists>rs d' r. sql_InsertAndValidateMultiPartUpload sample_sql_env (multi_params sample_lot_id
      (multi_data [(upload_of (sample_image CHR ''c'' 157286400), replicate 16 3, ''new'')])) sample_db = (Ret rs, d') \<and>
    r \<in> set rs \<and> (\<exists>a \<in> set (attempts d'). at_ID a = mr_ImageBlobUploadAttemptID r \<and> still_valid sample_sql_env a)"
proof -
  let ?f = "upload_of (sample_image CHR ''c'' 157286400)"
  let ?ts = "[(?f, replicate 16 3, ''new'')] :: started list"
  have lower: "lower_sha (uf_Sha256 (fst t))" if "t \<in> set ?ts" for t
    using that sample_servable [of "CHR ''c''" 157286400] by (simp add: servable_def)
  have old: "listable a" if "t \<in> set ?ts" and "find_pending (file_key sample_lot_id (fst t)) (attempts sample_db) = Some a" for t a
    using that(2) by (auto simp: sample_db_def sample_attempt_def listable_def partSize_def dest!: find_pending_SomeD)
  have lot: "sample_lot_id \<in> lot_ids sample_db" using sample_lot by (simp add: sample_world_def)
  have dist: "distinct (map (file_key sample_lot_id) (map fst ?ts))" by simp
  have "\<exists>rs d'. sql_InsertAndValidateMultiPartUpload sample_sql_env (multi_params sample_lot_id (multi_data ?ts)) sample_db =
    (if ?ts = [] \<or> sample_lot_id \<in> lot_ids sample_db then Ret rs
     else Fail (fk_violation ''image_blob_upload_attempts'' attempts_lot_fkey), d')"
    using sample_db_wf lower_sha_text [OF lower] dist old by (rule multi_statement_answer)
  with lot obtain rs d' where run: "sql_InsertAndValidateMultiPartUpload sample_sql_env (multi_params sample_lot_id (multi_data ?ts)) sample_db = (Ret rs, d')"
    by auto
  have "InsertAndValidateMultiPartUpload (\<lambda>_. None) sample_sql_env (multi_params sample_lot_id (multi_data ?ts)) sample_db = (Ret rs, d')"
    using run by (simp add: InsertAndValidateMultiPartUpload_def run_query_def)
  from multi_rows(1) [OF sample_db_wf lower_sha_text [OF lower] this]
  have "list_all2 (multi_row_ok sample_sql_env sample_lot_id sample_db d') ?ts rs" by blast
  then obtain r where "r \<in> set rs" by (cases rs) auto
  with multipart_attempts_valid [OF sample_db_wf run this] run show ?thesis by blast
qed

section \<open>Messages, identifiers and hashes\<close>

text \<open>C36: an image that goes through the request as a file comes back as the same message, client id and
  64-bit size included.\<close>

theorem image_round_trip:
  assumes "\<And>m. m \<in> set ms \<Longrightarrow> complete_image m"
  shows "bindo (convertToUploadFiles (map Some ms)) convertToImageFiles = Ret (map Some ms)"
  by (simp add: convertToUploadFiles_complete [OF assms] convertToImageFiles_upload_of [OF assms])

theorem image_round_trip_witness:
  "bindo (convertToUploadFiles (map Some sample_images)) convertToImageFiles = Ret (map Some sample_images)"
  by (rule image_round_trip) (use sample_images_good in \<open>simp add: good_image_def\<close>)

text \<open>C37: whatever form of UUID \<open>uuid.Parse\<close> accepts, it has 16 bytes, and its \<open>String\<close> has 36 characters
  and parses to it again, so that \<open>MustParse\<close> of a printed key never panics.\<close>

theorem uuid_round_trip:
  assumes "uuid_Parse s = Inr u"
  shows "length u = 16 \<and> length (uuid_String u) = 36 \<and> uuid_MustParse (uuid_String u) = Ret u"
  using uuid_Parse_valid [OF assms] length_uuid_String uuid_MustParse_String by (auto simp: valid_uuid_def)

theorem uuid_round_trip_witness:
  "uuid_MustParse (uuid_String sample_lot_id) = (Ret sample_lot_id :: (err, uuid) outcome)"
  using uuid_round_trip [OF sample_parse] by blast

text \<open>C38: the checksum that is signed into a single upload is the 44-character base64 form of the 32 bytes
  of the file's hash, whatever the case of its digits.\<close>

theorem checksum_of_hash:
  assumes "sha_text s"
  shows "\<exists>bs. hexToBase64 s = Ret (b64_encode bs) \<and> length bs = 32 \<and> length (b64_encode bs) = 44 \<and>
    hex_encode bs = map ascii_lower s"
  using assms by (intro exI [of _ "sha_bytes s"])
    (simp add: hexToBase64_sha length_sha_bytes b64_length hex_encode_sha_bytes)

theorem checksum_of_hash_witness:
  "\<exists>bs. hexToBase64 (sample_sha CHR ''a'') = Ret (b64_encode bs) \<and> length (b64_encode bs) = 44"
  using checksum_of_hash [OF lower_sha_text [OF sample_lower_sha [of "CHR ''a''"]]] by auto

text \<open>Scanning what \<open>Value\<close> gives for a nullable enum gives it back, for both enums, and a null
  clears what the receiver held.\<close>

lemma enum_round_trip:
  "NullUploadAttemptState_Scan old (NullUploadAttemptState_Value v) =
     (if ne_Valid v then v else \<lparr>ne_value = '''', ne_Valid = False\<rparr>, None) \<and>
   NullUploadType_Scan old (NullUploadType_Value v) =
     (if ne_Valid v then v else \<lparr>ne_value = '''', ne_Valid = False\<rparr>, None)"
  by (simp add: NullUploadAttemptState_Scan_def NullUploadAttemptState_Value_def NullUploadType_Scan_def
      NullUploadType_Value_def null_scan_def)

text \<open>A random UUID has 16 bytes, version 4 and the variant of RFC 4122.\<close>

lemma random_uuid_version:
  assumes "length r = 16"
  shows "valid_uuid (uuid_of_random r) \<and> drop_bit 4 (uuid_of_random r ! 6) = 4 \<and> drop_bit 6 (uuid_of_random r ! 8) = 2"
proof (intro conjI)
  show "valid_uuid (uuid_of_random r)" using assms by (rule valid_uuid_of_random)
  show "drop_bit 4 (uuid_of_random r ! 6) = 4"
    using assms by (intro bit_word_eqI) (auto simp: uuid_of_random_def bit_simps less_Suc_eq numeral_eq_Suc)
  show "drop_bit 6 (uuid_of_random r ! 8) = 2"
    using assms by (intro bit_word_eqI) (auto simp: uuid_of_random_def bit_simps less_Suc_eq numeral_eq_Suc)
qed

section \<open>Transactions\<close>

text \<open>A transaction whose body fails or panics, or whose commit fails, leaves every table as it was; only
  a commit whose answer was lost can have changed them.\<close>

lemma transaction_atomic:
  assumes "in_tx env begin_err commit_err body w = (r, w')" and "\<And>a. r \<noteq> Ret a"
  shows "same_tables (w_db w) (w_db w') \<or> (\<exists>e a. e_commit env = CommitLost e \<and> body w = (Ret a, w'))"
  using assms by (rule in_tx_atomic)

section \<open>Errors for the client\<close>

text \<open>C28: \<open>CreateClientErr\<close> is its abstract reading: the first error marked for the client gives operation,
  code and cause, and all the marked errors that it merges with, or that are joined with it, give the messages, joined by
  semicolons, and the fields, in order.\<close>

theorem client_error_reading:
  "CreateClientErr e = (case contributors e of
      [] \<Rightarrow> (zero_AppError, False)
    | a # as \<Rightarrow> (AppError (Op a) (Code a) (joined_messages (a # as)) (concat (map Fields (a # as)))
        (Err a) (merge a) (isClientErr a), True))"
  by (rule CreateClientErr_eq)

text \<open>C39: an internal error of the program whose cause carries no gRPC status and no ended context (neither \<open>DeadlineExceeded\<close> nor
  \<open>Canceled\<close>, however deep it is wrapped) reaches the client as \<open>Internal\<close> with an empty message: neither its cause nor the
  message that the program gave it is shown.\<close>

theorem internal_error_hidden:
  assumes "plain_error e"
  shows "toGRPCError any_new (Some (client_err (InternalServerError op (Some e) msg))) = Some (Leaf (Status (status_New Internal '''')))"
  using assms by (simp add: toGRPCError_internal)

theorem internal_error_hidden_witness:
  "toGRPCError (\<lambda>_. None) (Some (client_err (InternalServerError ''op'' (Some (errors_New ''secret'')) ''internal error''))) =
     Some (Leaf (Status (status_New Internal '''')))"
  by (rule internal_error_hidden) (simp add: plain_simps)

end
