(* ===== verification/Spec2Isabelle.thy ===== *)
theory Spec2Isabelle
  imports Upload_Properties Server_Properties Request_Properties
    Concurrency_Properties Lifecycle_Properties Input_Properties Library_Properties
begin

text \<open>
  A model of the auction lot service, a gRPC server in Go, and the theorems that make it correct.

  \<^bold>\<open>The program.\<close> Clients create auction lots (\<open>LotService\<close>, src/internal/server) and attach images to
  them (\<open>LotImageService\<close>, src/internal/imagestore). An image is identified by the SHA-256 of its content. A client
  sends a batch of image descriptions with \<open>GeneratePresignedUrl\<close>; in one database transaction the server links
  the images whose blob is stored already to the lot, and records an upload attempt for each of the others: a
  single-part attempt below 150 MiB, a multipart attempt from there on. It answers with URLs, presigned by an S3
  client, through which the client uploads the content itself. A later request for the same hash and lot
  finds the pending attempt and goes on with it. \<open>CompleteMultiPartUpload\<close> closes a multipart upload after
  all its parts have arrived. PostgreSQL holds lots, blobs, links and attempts (src/internal/database); errors are
  trees of Go errors, in which package apperror marks what a client may see, and two gRPC interceptors
  (src/internal/valid) validate requests and turn errors into statuses. src/cmd/api/main.go starts the process.

  \<^bold>\<open>Theories and code.\<close>

  \<^item> \<open>Go_Prelude\<close>, \<open>Go_Strings\<close>, \<open>Go_Uuid\<close>, \<open>Go_Errors\<close>: what the program uses of Go and its libraries.
    A call returns a value, an error or panics (\<open>outcome\<close>); a call with effects is a \<open>prog\<close>, a function from a
    state to an outcome and a state. Machine integers are words of their width; identity columns are integers.
    \<open>strconv\<close>, \<open>encoding/hex\<close>, \<open>encoding/base64\<close>, the vendored uuid package, error trees with
    \<open>errors.Is\<close> and \<open>errors.As\<close>, gRPC statuses.
  \<^item> \<open>App_Error\<close>: src/internal/apperror/apperror.go. \<open>Interceptors\<close>: src/internal/valid/interceptor.go and the
    chaining of interceptors in the vendored grpc server. \<open>Db_Errors\<close>: src/internal/database/database.go.
  \<^item> \<open>Filestore_Schema\<close>: the rows of src/internal/database/filestore/models.go, under the constraints of
    src/internal/database/migrations (\<open>db_wf\<close>). \<open>Filestore_Queries\<close>: the six query methods of
    src/internal/database/filestore, each with the meaning of the SQL text it sends.
  \<^item> \<open>Server_World\<close>: the world of a request (tables, object store, random source), the calls to the outside
    and transactions. \<open>Lot_Messages\<close>: the messages of src/rpc/gen with their getters and validation rules.
  \<^item> \<open>Upload_Files\<close>, \<open>Image_Upload\<close>: src/internal/imagestore/image_upload.go and typetranslate.go.
    \<open>Image_Store\<close>: the service methods of image_store.go and src/internal/server/server.go.
    \<open>Rpc_Server\<close>: the generated handlers and stubs of src/rpc/gen and src/cmd/api/main.go; \<open>serve\<close> is a request
    through handler, interceptors and service.
  \<^item> \<open>Shared_Connection\<close>: the one connection that all requests share, with the transactions of the vendored
    pgx (src/vendor/github.com/jackc/pgx/v5) and \<open>Queries\<close> over either (src/internal/database/filestore/db.go).
  \<^item> \<open>Processes\<close>, \<open>Request_Processes\<close>: the handlers once more, for requests that run concurrently. A \<open>proc\<close> is a tree of
    calls, a \<open>pool\<close> a list of them whose calls interleave (\<open>pool_step\<close>). Each function of image_upload.go, image_store.go and
    server.go that makes several calls has its process, with the suffix \<open>_proc\<close>; \<open>serve_proc\<close> is a whole request, its transaction sent
    command by command over the shared connection. In \<open>concurrent_step\<close> requests arrive at any time and any handler makes the next call.

  \<^bold>\<open>Lemmas.\<close>

  \<^item> \<open>Filestore_Laws\<close> states what the two upload statements share as the locale \<open>upsert\<close> (a proposal for each
    input, a conflict update that keeps the identity of an attempt) and proves the contract of
    \<open>INSERT ... ON CONFLICT\<close> in it: one row per input, the pending attempt of every key after the statement, what
    stays as it was, when it succeeds. \<open>Filestore_Statements\<close> interprets it for both statements and shows that
    every statement keeps \<open>db_wf\<close> and the history of the tables (\<open>grown\<close>).
  \<^item> The locale \<open>status_sink\<close> in \<open>Interceptors\<close> is what the server relies on from the error translation;
    \<open>toGRPCError\<close> is interpreted in it.
  \<^item> \<open>Upload_Laws\<close>, \<open>Upload_Rows\<close>, \<open>Upload_Answers\<close>, \<open>Upload_Results\<close>, \<open>Request_Laws\<close>, \<open>Response_Laws\<close>: the
    upload request, bottom up. \<open>upload_done\<close> is its abstract specification: it speaks of files, pending attempts and
    presigned calls, and of none of the arrays and maps of the code.
  \<^item> \<open>Upload_Success\<close>: when the request succeeds. \<open>Upload_Refusal\<close>: what an unknown lot, an ended context and a pending
    attempt of the wrong type make of it. \<open>Upload_Safety\<close>: that it does not panic otherwise (\<open>calm\<close>). \<open>Upload_Resume\<close>:
    what a URL says of its attempt (\<open>serves_attempt\<close>), and later requests for the same file, and the link that each of them adds to an image that is stored. \<open>Server_Laws\<close>:
    the life of the process as the step relation
    \<open>server_step\<close>, with what every run keeps. \<open>Service_Laws\<close>: requests from the decoded message to the status.
  \<^item> The locale \<open>statement_invariant\<close> in \<open>Server_Invariants\<close> is what the three statements of an upload request must do to a
    predicate on the tables for its transaction to keep it, with the parameters of one lot; \<open>table_invariant\<close> is what they and the
    statement that creates a lot must do for every run of the server to keep it. Both are interpreted for the multipart uploads (\<open>uploads_sized\<close>: an attempt with an upload id
    has the type and the part size of the program) and for the links (\<open>links_completed\<close>). \<open>Attempt_Ids\<close>: a request draws at most one id per file.
    \<open>Upload_Completion\<close>: from the message of a multipart upload (\<open>multi_message\<close>) back to its attempt, and to the answer of the
    completion request (\<open>completion_answer\<close>). \<open>Started_Uploads\<close>: how many multipart uploads a request starts in the object store, counted
    by any function of its state that \<open>CreateMultipartUpload\<close> alone increases (\<open>counts_uploads\<close>).
  \<^item> \<open>Server_Ledger\<close>: the abstract machine of the service. A \<open>ledger\<close> has the lots, the images that are there, the links and the
    uploads under way; \<open>ledger_step\<close> says what a request with its outcome may do to it, and \<open>ledger_of\<close> reads it from the tables.
    Every run of the server, as a list of exchanges (\<open>server_trace\<close>), is a run of the ledger; \<open>statement_invariant\<close> is
    interpreted for the transaction of one lot (\<open>announces\<close>).
  \<^item> The locale \<open>step_relation\<close> in \<open>Processes\<close> is a relation of states that every step of a pool keeps. The locale
    \<open>connection_relation\<close> in \<open>Process_Laws\<close> is a relation of the connection before and after that \<open>Begin\<close>, \<open>Commit\<close>,
    \<open>Rollback\<close> and the statements keep, and gives that every run of concurrent requests keeps it; it is interpreted for the
    invariant of the tables (\<open>conn_ok\<close>) and for a closed connection, which stays as it is (\<open>closed_stays\<close>). \<open>Process_Laws\<close> also shows
    that a handler whose calls nothing interrupts (\<open>alone\<close>) comes to \<open>serve\<close>: inside the transaction by \<open>undisturbed\<close>,
    from one idle connection to the next by \<open>comes_to\<close>.
  \<^item> \<open>Request_Calls\<close>: how many calls a request makes at most, whatever other requests do in between (\<open>calls_within\<close>,
    \<open>call_bound\<close>): one for \<open>CreateLot\<close>, three for \<open>CompleteMultiPartUpload\<close>, and for \<open>GeneratePresignedUrl\<close> four for the transaction
    and \<open>image_calls\<close> = 32,771 for each image of the message, one for each of at most 32,767 parts (\<open>max_parts\<close>: parts are numbered in 16 bits)
    and four more. The numbers are bounds of the model's own loops, with room to spare; no definition consumes them.
  \<^item> \<open>Overlapping_Requests\<close>: an upload request that is broken off after its \<open>Begin\<close> (\<open>breaks_off\<close>), with a request that creates
    a lot, or a second upload request, in between; the shape of every upload request (\<open>transaction_shape\<close>: \<open>Begin\<close>, a part that ends the
    transaction, an answer); and a request that cannot roll back, which closes the connection, on which no later request is answered
    (\<open>unanswered\<close>).
  \<^item> \<open>Upload_Hashes\<close>: hashes that the message rules let through and the service does not expect, in upper case or no
    hexadecimal. \<open>Message_Fields\<close>: messages that keep the rules and lack a field that is dereferenced.
  \<^item> \<open>Sample_World\<close>: a concrete world in which the properties are applied.
    \<open>Upload_Properties\<close>, \<open>Server_Properties\<close>, \<open>Request_Properties\<close>, \<open>Concurrency_Properties\<close>,
    \<open>Lifecycle_Properties\<close>, \<open>Input_Properties\<close>, \<open>Library_Properties\<close>: the properties C1, C2, ...

  \<^bold>\<open>Parameters.\<close> The outside is the record \<open>env\<close>, quantified over in every property: the S3 client and presigner
  answer anything (an output, possibly with absent fields, or an error), every statement can fail with any error of
  the connection, \<open>Begin\<close> and \<open>Commit\<close> can fail, a commit also after it took effect. The validator,
  \<open>anypb.New\<close>, the sorting of \<open>slices.SortFunc\<close> and the order of \<open>range\<close> over a map are functions too. The hypotheses
  used are \<open>random_ok\<close> (the random source fills 16 bytes), \<open>range_ok\<close> (a range visits every key once),
  \<open>sort_ok\<close> (the contract of \<open>slices.SortFunc\<close>: for a comparison that orders by a key, a permutation in ascending order), \<open>s3_sound\<close> (an answer of the object store carries its fields), \<open>outside_ok\<close>
  (nothing outside fails) for success, \<open>ids_left\<close> (the sequence of attempt ids has room in 64 bits), and \<open>db_wf\<close>,
  \<open>uploads_sized\<close>, \<open>links_completed\<close> and \<open>conn_wf\<close> of the first state, which are invariants. What becomes of the commands of a
  concurrent request on their way is the record \<open>wires\<close>: each is answered, not sent, or cut off before or after the server has run it.
  All loops of the program run over finite lists and are structural recursions, so no fuel is
  needed and every definition is total.

  \<^bold>\<open>Not modelled.\<close> \<open>serve\<close> runs a request from beginning to end, and its statements are either run or not sent; the answer of a
  statement that is lost after the server has run it is in \<open>wires\<close> only. In \<open>concurrent_step\<close> a call is one step: two goroutines
  that use the connection at the same moment, which pgx does not support, are the refusal \<open>conn busy\<close> (\<open>NotSent\<close>) or take turns; their data
  races are left out. PostgreSQL refuses a text parameter with a NUL byte, which the model stores; such a refusal is one of the errors
  that any statement may fail with. The version column of an attempt is a 32-bit integer in the table and unbounded in the model: its trigger
  would fail after 2 147 483 647 updates of one row. Nested transactions are not used by the program. Left out as well are the transport, wire format and reflection data of gRPC and protobuf, logging and printing, the
  migrations as scripts (their result is \<open>db_wf\<close> and the defaults), the change data capture pipeline under
  src/debezium with its connector configuration, the service that fills \<open>image_blobs\<close> and commits attempts, and
  the other vendored packages.
\<close>

end
